(* ===== verification/Prelude.thy ===== *)
theory Prelude
  imports
    Main
    "HOL-Library.Finite_Map"
    "HOL-Library.List_Lexorder"
    "HOL-Library.Char_ord"
    "HOL-Library.Code_Target_Nat"
begin

text \<open>
  The shared vocabulary of the development: what the Rust sources use of the language
  and of its standard library.

  \<^item> Fallible code returns \<open>'e + 'a\<close>; \<open>bindE\<close> is the \<open>?\<close> operator and \<open>foldE\<close> a
    \<open>for\<close> loop whose body may return early with an error.
  \<^item> A Rust \<open>String\<close> is its UTF-8 byte sequence, a HOL \<open>string\<close>. ASCII operations work on
    bytes, as in Rust; operations on \<open>char\<close>s go through \<open>utf8_chunks\<close>.
  \<^item> \<open>HashMap\<close> and \<open>BTreeMap\<close> are finite maps. Iteration visits the keys in ascending
    order: for a \<open>BTreeMap\<close> that is the specified order, for a \<open>HashMap\<close> it is one of the
    orders the randomised hasher can produce.
  \<^item> \<open>Vec\<close> is a list; the \<open>retain\<close>/\<open>dedup\<close>/\<open>sort\<close> idioms of the policy crate get one
    definition each.
\<close>

named_theorems str_simps \<open>equations of the string operations\<close>
named_theorems coll_simps \<open>membership facts of the collection operations\<close>

section \<open>Definitions\<close>

subsection \<open>Results\<close>

definition bindE :: "'e + 'a \<Rightarrow> ('a \<Rightarrow> 'e + 'b) \<Rightarrow> 'e + 'b" where
  "bindE m f = (case m of Inl e \<Rightarrow> Inl e | Inr x \<Rightarrow> f x)"

fun foldE :: "('s \<Rightarrow> 'x \<Rightarrow> 'e + 's) \<Rightarrow> 's \<Rightarrow> 'x list \<Rightarrow> 'e + 's" where
  "foldE f s [] = Inr s"
| "foldE f s (x # xs) = bindE (f s x) (\<lambda>s'. foldE f s' xs)"

fun mapE :: "('x \<Rightarrow> 'e + 'y) \<Rightarrow> 'x list \<Rightarrow> 'e + 'y list" where
  "mapE f [] = Inr []"
| "mapE f (x # xs) = bindE (f x) (\<lambda>y. bindE (mapE f xs) (\<lambda>ys. Inr (y # ys)))"

definition isOk :: "'e + 'a \<Rightarrow> bool" where
  "isOk r = (case r of Inl _ \<Rightarrow> False | Inr _ \<Rightarrow> True)"

subsection \<open>Bytes and characters\<close>

definition byte :: "char \<Rightarrow> nat" where
  "byte c = of_char c"

definition ascii_lower :: "char \<Rightarrow> char" where
  "ascii_lower c = (if 65 \<le> byte c \<and> byte c \<le> 90 then char_of (byte c + 32) else c)"

definition to_ascii_lowercase :: "string \<Rightarrow> string" where
  "to_ascii_lowercase s = map ascii_lower s"

definition eq_ignore_ascii_case :: "string \<Rightarrow> string \<Rightarrow> bool" where
  "eq_ignore_ascii_case a b = (to_ascii_lowercase a = to_ascii_lowercase b)"

definition is_ascii_digit :: "char \<Rightarrow> bool" where
  "is_ascii_digit c = (48 \<le> byte c \<and> byte c \<le> 57)"

definition is_ascii_alphanumeric :: "char \<Rightarrow> bool" where
  "is_ascii_alphanumeric c =
     (is_ascii_digit c \<or> (65 \<le> byte c \<and> byte c \<le> 90) \<or> (97 \<le> byte c \<and> byte c \<le> 122))"

text \<open>The width of a UTF-8 sequence is fixed by its first byte.\<close>

definition utf8_width :: "char \<Rightarrow> nat" where
  "utf8_width c =
     (if byte c < 192 then 1 else if byte c < 224 then 2 else if byte c < 240 then 3 else 4)"

function utf8_chunks :: "string \<Rightarrow> string list" where
  "utf8_chunks [] = []"
| "utf8_chunks (c # cs) =
     (c # take (utf8_width c - 1) cs) # utf8_chunks (drop (utf8_width c - 1) cs)"
  by pat_completeness auto
termination by (relation "measure length") auto

definition code_point :: "string \<Rightarrow> nat" where
  "code_point ch =
     (case map byte ch of
        [] \<Rightarrow> 0
      | b # bs \<Rightarrow>
          foldl (\<lambda>acc x. acc * 64 + x mod 64)
            (if b < 192 then b else if b < 224 then b mod 32 else if b < 240 then b mod 16 else b mod 8)
            bs)"

text \<open>\<open>str::chars\<close>: the Unicode scalar values of a string.\<close>

definition chars :: "string \<Rightarrow> nat list" where
  "chars s = map code_point (utf8_chunks s)"

text \<open>\<open>char::is_whitespace\<close> (the Unicode property White\_Space) and \<open>char::is_control\<close> (Cc).\<close>

definition is_whitespace :: "nat \<Rightarrow> bool" where
  "is_whitespace c =
     ((9 \<le> c \<and> c \<le> 13) \<or> c = 32 \<or> c = 133 \<or> c = 160 \<or> c = 5760
      \<or> (8192 \<le> c \<and> c \<le> 8202) \<or> c = 8232 \<or> c = 8233 \<or> c = 8239 \<or> c = 8287 \<or> c = 12288)"

definition is_control :: "nat \<Rightarrow> bool" where
  "is_control c = (c < 32 \<or> (127 \<le> c \<and> c < 160))"

definition str_trim :: "string \<Rightarrow> string" where
  "str_trim s =
     (let ws = (\<lambda>ch. is_whitespace (code_point ch))
      in concat (rev (dropWhile ws (rev (dropWhile ws (utf8_chunks s))))))"

subsection \<open>String operations\<close>

definition starts_with :: "string \<Rightarrow> string \<Rightarrow> bool" where
  "starts_with p s = (take (length p) s = p)"

definition ends_with :: "string \<Rightarrow> string \<Rightarrow> bool" where
  "ends_with p s = (length p \<le> length s \<and> drop (length s - length p) s = p)"

fun contains_sub :: "string \<Rightarrow> string \<Rightarrow> bool" where
  "contains_sub p [] = (p = [])"
| "contains_sub p (c # cs) = (starts_with p (c # cs) \<or> contains_sub p cs)"

fun split_on :: "'a \<Rightarrow> 'a list \<Rightarrow> 'a list list" where
  "split_on d [] = [[]]"
| "split_on d (c # cs) =
     (if c = d then [] # split_on d cs
      else (case split_on d cs of [] \<Rightarrow> [[c]] | p # ps \<Rightarrow> (c # p) # ps))"

fun join :: "'a list \<Rightarrow> 'a list list \<Rightarrow> 'a list" where
  "join sep [] = []"
| "join sep [p] = p"
| "join sep (p # q # ps) = p @ sep @ join sep (q # ps)"

definition trim_end_matches :: "char \<Rightarrow> string \<Rightarrow> string" where
  "trim_end_matches c s = rev (dropWhile (\<lambda>x. x = c) (rev s))"

definition trim_matches :: "char \<Rightarrow> string \<Rightarrow> string" where
  "trim_matches c s = trim_end_matches c (dropWhile (\<lambda>x. x = c) s)"

definition split_once :: "char \<Rightarrow> string \<Rightarrow> (string \<times> string) option" where
  "split_once d s =
     (if d \<in> set s then Some (takeWhile (\<lambda>c. c \<noteq> d) s, tl (dropWhile (\<lambda>c. c \<noteq> d) s)) else None)"

text \<open>\<open>str::replace\<close> of one byte by a string.\<close>

definition replace_char :: "char \<Rightarrow> string \<Rightarrow> string \<Rightarrow> string" where
  "replace_char c r s = concat (map (\<lambda>x. if x = c then r else [x]) s)"

subsection \<open>Rendering of numbers and strings (\<open>Display\<close> and \<open>Debug\<close>)\<close>

definition digit_char :: "nat \<Rightarrow> char" where
  "digit_char d = char_of (48 + d)"

fun show_nat :: "nat \<Rightarrow> string" where
  "show_nat n = (if n < 10 then [digit_char n] else show_nat (n div 10) @ [digit_char (n mod 10)])"

declare show_nat.simps [simp del]

definition show_int :: "int \<Rightarrow> string" where
  "show_int i = (if i < 0 then ''-'' @ show_nat (nat (- i)) else show_nat (nat i))"

definition show_bool :: "bool \<Rightarrow> string" where
  "show_bool b = (if b then ''true'' else ''false'')"

definition hex_digit_lower :: "nat \<Rightarrow> char" where
  "hex_digit_lower d = (if d < 10 then char_of (48 + d) else char_of (87 + d))"

fun show_hex :: "nat \<Rightarrow> string" where
  "show_hex n = (if n < 16 then [hex_digit_lower n] else show_hex (n div 16) @ [hex_digit_lower (n mod 16)])"

declare show_hex.simps [simp del]

text \<open>
  \<open>Debug\<close> of a string: quotes, backslashes and ASCII controls are escaped. Non-ASCII bytes
  are kept; the tables of unprintable non-ASCII code points are not part of the model.
\<close>

definition debug_escape_char :: "char \<Rightarrow> string" where
  "debug_escape_char c =
     (if c = CHR 0x22 then [CHR 0x5C, CHR 0x22]
      else if c = CHR 0x5C then [CHR 0x5C, CHR 0x5C]
      else if c = CHR 0x0A then [CHR 0x5C, CHR ''n'']
      else if c = CHR 0x0D then [CHR 0x5C, CHR ''r'']
      else if c = CHR 0x09 then [CHR 0x5C, CHR ''t'']
      else if c = CHR 0x00 then [CHR 0x5C, CHR ''0'']
      else if byte c < 32 \<or> byte c = 127 then [CHR 0x5C] @ ''u{'' @ show_hex (byte c) @ ''}''
      else [c])"

definition debug_str :: "string \<Rightarrow> string" where
  "debug_str s = [CHR 0x22] @ concat (map debug_escape_char s) @ [CHR 0x22]"

definition debug_list :: "('a \<Rightarrow> string) \<Rightarrow> 'a list \<Rightarrow> string" where
  "debug_list f xs = ''['' @ join '', '' (map f xs) @ '']''"

subsection \<open>Parsing of unsigned decimal numbers (\<open>str::parse::<u32>\<close>)\<close>

text \<open>
  An optional single \<open>+\<close>, then one or more decimal digits, leading zeros allowed; a value
  outside the type is an error.
\<close>

definition parse_unsigned :: "nat \<Rightarrow> string \<Rightarrow> nat option" where
  "parse_unsigned limit s =
     (let ds = (if starts_with ''+'' s then drop 1 s else s)
      in if ds = [] \<or> \<not> list_all is_ascii_digit ds then None
         else let v = foldl (\<lambda>acc c. acc * 10 + (byte c - 48)) 0 ds
              in if v < limit then Some v else None)"

subsection \<open>Vectors\<close>

text \<open>\<open>Vec::retain\<close> with a \<open>HashSet\<close> of keys already seen: first occurrences stay.\<close>

fun dedup_by :: "('a \<Rightarrow> 'k) \<Rightarrow> 'k set \<Rightarrow> 'a list \<Rightarrow> 'a list" where
  "dedup_by key seen [] = []"
| "dedup_by key seen (x # xs) =
     (if key x \<in> seen then dedup_by key seen xs
      else x # dedup_by key (insert (key x) seen) xs)"

text \<open>Appending the elements that are not yet in the vector, one at a time.\<close>

definition push_unique :: "'a list \<Rightarrow> 'a \<Rightarrow> 'a list" where
  "push_unique acc x = (if x \<in> set acc then acc else acc @ [x])"

definition append_unique :: "'a list \<Rightarrow> 'a list \<Rightarrow> 'a list" where
  "append_unique acc xs = foldl push_unique acc xs"

text \<open>\<open>sort\<close> followed by \<open>dedup\<close>, which drops equal neighbours.\<close>

definition sort_dedup :: "'a::linorder list \<Rightarrow> 'a list" where
  "sort_dedup xs = remdups_adj (sort xs)"

text \<open>\<open>if c { v.push(x) }\<close> as the list it appends.\<close>

definition push_if :: "bool \<Rightarrow> 'a \<Rightarrow> 'a list" where
  "push_if c x = (if c then [x] else [])"

definition quoted :: "string \<Rightarrow> string" where
  "quoted s = [CHR 0x27] @ s @ [CHR 0x27]"

definition first_or :: "'a \<Rightarrow> 'a list \<Rightarrow> 'a" where
  "first_or d xs = (case xs of [] \<Rightarrow> d | x # _ \<Rightarrow> x)"

text \<open>Position-wise update of the first element that satisfies a test (\<open>iter_mut().find\<close>).\<close>

fun update_first :: "('a \<Rightarrow> bool) \<Rightarrow> ('a \<Rightarrow> 'a) \<Rightarrow> 'a list \<Rightarrow> 'a list" where
  "update_first P f [] = []"
| "update_first P f (x # xs) = (if P x then f x # xs else x # update_first P f xs)"

subsection \<open>Maps\<close>

type_synonym 'v smap = "(string, 'v) fmap"

definition fm_items :: "('k::linorder, 'v) fmap \<Rightarrow> ('k \<times> 'v) list" where
  "fm_items m = sorted_list_of_fmap m"

definition fm_keys :: "('k::linorder, 'v) fmap \<Rightarrow> 'k list" where
  "fm_keys m = map fst (fm_items m)"

definition fm_values :: "('k::linorder, 'v) fmap \<Rightarrow> 'v list" where
  "fm_values m = map snd (fm_items m)"

definition fm_contains :: "('k, 'v) fmap \<Rightarrow> 'k \<Rightarrow> bool" where
  "fm_contains m k = (fmlookup m k \<noteq> None)"

definition fm_is_empty :: "('k::linorder, 'v) fmap \<Rightarrow> bool" where
  "fm_is_empty m = (fm_items m = [])"

definition fm_len :: "('k::linorder, 'v) fmap \<Rightarrow> nat" where
  "fm_len m = length (fm_items m)"

section \<open>Lemmas\<close>

subsection \<open>Results\<close>

lemma bindE_simps [simp]:
  "bindE (Inl e) f = Inl e"
  "bindE (Inr x) f = f x"
  by (simp_all add: bindE_def)

lemma bindE_Inr [simp]: "(bindE m f = Inr y) \<longleftrightarrow> (\<exists>x. m = Inr x \<and> f x = Inr y)"
  by (cases m) auto

lemma bindE_Inl: "(bindE m f = Inl e) \<longleftrightarrow> (m = Inl e \<or> (\<exists>x. m = Inr x \<and> f x = Inl e))"
  by (cases m) auto

lemma bindE_cong [fundef_cong]:
  "m = m' \<Longrightarrow> (\<And>x. m' = Inr x \<Longrightarrow> f x = f' x) \<Longrightarrow> bindE m f = bindE m' f'"
  by (cases m') auto

lemma isOk_simps [simp]: "isOk (Inl e) = False" "isOk (Inr x) = True"
  by (simp_all add: isOk_def)

lemma isOk_iff: "isOk r \<longleftrightarrow> (\<exists>x. r = Inr x)"
  by (cases r) auto

lemma foldE_append: "foldE f s (xs @ ys) = bindE (foldE f s xs) (\<lambda>s'. foldE f s' ys)"
proof (induction xs arbitrary: s)
  case Nil
  show ?case by simp
next
  case (Cons x xs)
  then show ?case by (cases "f s x") simp_all
qed

text \<open>Every invariant that one iteration keeps is kept by the loop.\<close>

lemma foldE_invariant:
  assumes "foldE f s xs = Inr s'" and "I s"
    and step: "\<And>s x s'. x \<in> set xs \<Longrightarrow> I s \<Longrightarrow> f s x = Inr s' \<Longrightarrow> I s'"
  shows "I s'"
  using assms
proof (induction xs arbitrary: s)
  case Nil
  then show ?case by simp
next
  case (Cons x xs)
  from Cons.prems(1) obtain t where t: "f s x = Inr t" and rest: "foldE f t xs = Inr s'" by auto
  have "I t" using Cons.prems(3) [of x s t] Cons.prems(2) t by simp
  from Cons.IH [OF rest this] Cons.prems(3) show ?case by (meson list.set_intros(2))
qed

lemma mapE_length: "mapE f xs = Inr ys \<Longrightarrow> length ys = length xs"
  by (induction xs arbitrary: ys) auto

lemma mapE_nth: "mapE f xs = Inr ys \<Longrightarrow> i < length xs \<Longrightarrow> f (xs ! i) = Inr (ys ! i)"
proof (induction xs arbitrary: ys i)
  case Nil
  then show ?case by simp
next
  case (Cons x xs)
  then show ?case by (cases i) auto
qed

lemma mapE_set: "mapE f xs = Inr ys \<Longrightarrow> y \<in> set ys \<Longrightarrow> \<exists>x\<in>set xs. f x = Inr y"
  by (induction xs arbitrary: ys) auto

lemma mapE_Inr_iff: "(\<exists>ys. mapE f xs = Inr ys) \<longleftrightarrow> (\<forall>x\<in>set xs. isOk (f x))"
  by (induction xs) (auto simp: isOk_iff)

subsection \<open>Characters\<close>

lemma byte_less [simp]: "byte c < 256"
  by (simp add: byte_def)

lemma byte_inject [simp]: "(byte a = byte b) = (a = b)"
  by (simp add: byte_def)

lemma byte_char_of [simp]: "n < 256 \<Longrightarrow> byte (char_of n) = n"
  by (simp add: byte_def)

lemma char_of_byte [simp]: "char_of (byte c) = c"
  by (simp add: byte_def)

lemma ascii_lower_idem [simp]: "ascii_lower (ascii_lower c) = ascii_lower c"
  by (simp add: ascii_lower_def)

lemma to_ascii_lowercase_idem [simp]:
  "to_ascii_lowercase (to_ascii_lowercase s) = to_ascii_lowercase s"
  by (simp add: to_ascii_lowercase_def)

lemma to_ascii_lowercase_Nil [simp]: "(to_ascii_lowercase s = []) = (s = [])"
  by (simp add: to_ascii_lowercase_def)

lemma length_to_ascii_lowercase [simp]: "length (to_ascii_lowercase s) = length s"
  by (simp add: to_ascii_lowercase_def)

lemma eq_ignore_ascii_case_refl [simp]: "eq_ignore_ascii_case s s"
  by (simp add: eq_ignore_ascii_case_def)

lemma eq_ignore_ascii_case_sym: "eq_ignore_ascii_case a b = eq_ignore_ascii_case b a"
  by (auto simp: eq_ignore_ascii_case_def)

lemma eq_ignore_ascii_case_trans:
  "eq_ignore_ascii_case a b \<Longrightarrow> eq_ignore_ascii_case b c \<Longrightarrow> eq_ignore_ascii_case a c"
  by (simp add: eq_ignore_ascii_case_def)

lemma concat_utf8_chunks [simp]: "concat (utf8_chunks s) = s"
  by (induction s rule: utf8_chunks.induct) auto

subsection \<open>Splitting and joining\<close>

lemma split_on_not_Nil [simp]: "split_on d s \<noteq> []"
  by (cases s) (auto split: list.splits)

lemma split_on_notin: "p \<in> set (split_on d s) \<Longrightarrow> d \<notin> set p"
proof (induction s arbitrary: p)
  case Nil
  then show ?case by simp
next
  case (Cons c cs)
  then show ?case by (cases "split_on d cs") (auto split: if_splits)
qed

lemma join_split_on [simp]: "join [d] (split_on d s) = s"
proof (induction s)
  case Nil
  show ?case by simp
next
  case (Cons c cs)
  obtain p ps where ps: "split_on d cs = p # ps" by (cases "split_on d cs") auto
  show ?case
  proof (cases "c = d")
    case True
    with Cons ps show ?thesis by simp
  next
    case False
    with Cons ps show ?thesis by (cases ps) auto
  qed
qed

lemma split_on_simple: "d \<notin> set s \<Longrightarrow> split_on d s = [s]"
  by (induction s) auto

lemma split_on_append_delim: "d \<notin> set p \<Longrightarrow> split_on d (p @ d # s) = p # split_on d s"
  by (induction p) auto

lemma split_on_join:
  "ps \<noteq> [] \<Longrightarrow> (\<And>p. p \<in> set ps \<Longrightarrow> d \<notin> set p) \<Longrightarrow> split_on d (join [d] ps) = ps"
proof (induction ps rule: induct_list012)
  case 1
  then show ?case by simp
next
  case (2 p)
  then show ?case by (simp add: split_on_simple)
next
  case (3 p q ps)
  then show ?case by (simp add: split_on_append_delim)
qed

lemma set_split_on: "p \<in> set (split_on d s) \<Longrightarrow> set p \<subseteq> set s"
proof (induction s arbitrary: p)
  case Nil
  then show ?case by simp
next
  case (Cons c cs)
  then show ?case by (cases "split_on d cs") (fastforce split: if_splits)+
qed

lemma starts_with_append [simp]: "starts_with p (p @ s)"
  by (simp add: starts_with_def)

lemma starts_with_iff: "starts_with p s \<longleftrightarrow> (\<exists>t. s = p @ t)"
  by (metis append_eq_conv_conj append_take_drop_id starts_with_def)

lemma starts_with_Nil [simp]: "starts_with [] s"
  by (simp add: starts_with_def)

lemma contains_sub_iff: "contains_sub p s \<longleftrightarrow> (\<exists>a b. s = a @ p @ b)"
proof (induction s)
  case Nil
  show ?case by auto
next
  case (Cons c cs)
  show ?case (is "?l \<longleftrightarrow> ?r")
  proof
    assume ?l
    then consider "starts_with p (c # cs)" | "contains_sub p cs" by auto
    then show ?r
    proof cases
      case 1
      then obtain t where "c # cs = p @ t" by (auto simp: starts_with_iff)
      then have "c # cs = [] @ p @ t" by simp
      then show ?thesis by blast
    next
      case 2
      with Cons obtain a b where "cs = a @ p @ b" by auto
      then have "c # cs = (c # a) @ p @ b" by simp
      then show ?thesis by blast
    qed
  next
    assume ?r
    then obtain a b where ab: "c # cs = a @ p @ b" by blast
    show ?l
    proof (cases a)
      case Nil
      with ab have "starts_with p (c # cs)" by (auto simp: starts_with_iff)
      then show ?thesis by simp
    next
      case (Cons x a')
      with ab have "cs = a' @ p @ b" by simp
      with Cons.IH show ?thesis by auto
    qed
  qed
qed

subsection \<open>Vectors\<close>

lemma set_append_unique [simp]: "set (append_unique acc xs) = set acc \<union> set xs"
  by (induction xs arbitrary: acc) (auto simp: append_unique_def push_unique_def)

lemma distinct_append_unique [simp]: "distinct (append_unique acc xs) = distinct acc"
  by (induction xs arbitrary: acc) (auto simp: append_unique_def push_unique_def)

lemma append_unique_Nil [simp]: "append_unique acc [] = acc"
  by (simp add: append_unique_def)

lemma append_unique_subset: "set xs \<subseteq> set acc \<Longrightarrow> append_unique acc xs = acc"
  by (induction xs) (auto simp: append_unique_def push_unique_def)

lemma append_unique_disjoint:
  "distinct xs \<Longrightarrow> set acc \<inter> set xs = {} \<Longrightarrow> append_unique acc xs = acc @ xs"
proof (induction xs arbitrary: acc)
  case Nil
  then show ?case by simp
next
  case (Cons x xs)
  then have "append_unique (acc @ [x]) xs = (acc @ [x]) @ xs" by (intro Cons.IH) auto
  with Cons.prems show ?case by (simp add: append_unique_def push_unique_def)
qed

lemma append_unique_distinct_id: "distinct xs \<Longrightarrow> append_unique [] xs = xs"
  by (simp add: append_unique_disjoint)

lemma set_dedup_by_subset: "set (dedup_by key seen xs) \<subseteq> set xs"
  by (induction key seen xs rule: dedup_by.induct) auto

lemma keys_dedup_by: "key ` set (dedup_by key seen xs) = key ` set xs - seen"
  by (induction key seen xs rule: dedup_by.induct) auto

lemma dedup_by_distinct: "distinct (map key (dedup_by key seen xs))"
proof (induction key seen xs rule: dedup_by.induct)
  case (1 key seen)
  show ?case by simp
next
  case (2 key seen x xs)
  have "key x \<notin> key ` set (dedup_by key (insert (key x) seen) xs)"
    by (simp add: keys_dedup_by)
  with 2 show ?case by simp
qed

lemma dedup_by_id:
  "distinct (map key xs) \<Longrightarrow> key ` set xs \<inter> seen = {} \<Longrightarrow> dedup_by key seen xs = xs"
  by (induction xs arbitrary: seen) auto

lemma dedup_by_idem: "dedup_by key {} (dedup_by key {} xs) = dedup_by key {} xs"
  by (rule dedup_by_id) (simp_all add: dedup_by_distinct)

lemma set_dedup_by_ident [simp]: "set (dedup_by (\<lambda>x. x) {} xs) = set xs"
  using keys_dedup_by [of "\<lambda>x. x" "{}" xs] by simp

lemma dedup_by_Nil_iff [simp]: "(dedup_by key {} xs = []) = (xs = [])"
  by (cases xs) auto

lemma set_sort_dedup [simp]: "set (sort_dedup xs) = set xs"
  by (simp add: sort_dedup_def)

lemma sorted_sort_dedup [simp]: "sorted (sort_dedup xs)"
  by (simp add: sort_dedup_def sorted_remdups_adj)

lemma distinct_sort_dedup [simp]: "distinct (sort_dedup xs)"
proof -
  have "sorted xs \<Longrightarrow> distinct (remdups_adj xs)" for xs :: "'a list"
    by (induction xs rule: remdups_adj.induct) auto
  then show ?thesis by (simp add: sort_dedup_def)
qed

lemma sort_dedup_id: "sorted xs \<Longrightarrow> distinct xs \<Longrightarrow> sort_dedup xs = xs"
  by (simp add: sort_dedup_def sorted_sort_id remdups_adj_distinct)

lemma sort_dedup_idem [simp]: "sort_dedup (sort_dedup xs) = sort_dedup xs"
  by (rule sort_dedup_id) simp_all

lemma sort_dedup_eq_iff: "(sort_dedup xs = sort_dedup ys) \<longleftrightarrow> (set xs = set ys)"
proof
  assume "sort_dedup xs = sort_dedup ys"
  then show "set xs = set ys" by (metis set_sort_dedup)
next
  assume "set xs = set ys"
  then show "sort_dedup xs = sort_dedup ys"
    by (intro sorted_distinct_set_unique) simp_all
qed

lemma sort_dedup_Nil_iff [simp]: "(sort_dedup xs = []) = (xs = [])"
  by (metis set_empty set_sort_dedup)

lemma push_if_simps [simp]:
  "push_if True x = [x]" "push_if False x = []"
  "(push_if c x = []) = (\<not> c)"
  "set (push_if c x) = (if c then {x} else {})"
  unfolding push_if_def by (cases c; simp)+

lemma Cons_eq_drop_iff:
  "(x # xs = drop i ys) \<longleftrightarrow> (i < length ys \<and> x = ys ! i \<and> xs = drop (Suc i) ys)"
proof (cases "i < length ys")
  case True
  then show ?thesis by (auto simp flip: Cons_nth_drop_Suc)
next
  case False
  then show ?thesis by simp
qed

lemma update_first_none: "(\<And>x. x \<in> set xs \<Longrightarrow> \<not> P x) \<Longrightarrow> update_first P f xs = xs"
  by (induction xs) auto

lemma length_update_first [simp]: "length (update_first P f xs) = length xs"
  by (induction xs) auto

lemma set_update_first: "y \<in> set (update_first P f xs) \<Longrightarrow> y \<in> set xs \<or> (\<exists>x\<in>set xs. P x \<and> y = f x)"
  by (induction xs) (auto split: if_splits)

lemma update_first_cover: "x \<in> set xs \<Longrightarrow> x \<in> set (update_first P f xs) \<or> (P x \<and> f x \<in> set (update_first P f xs))"
  by (induction xs) auto

subsection \<open>Maps\<close>

lemma set_fm_items: "(k, v) \<in> set (fm_items m) \<longleftrightarrow> fmlookup m k = Some v"
  by (auto simp: fm_items_def sorted_list_of_fmap_def fmlookup_dom_iff)

lemma map_of_fm_items [simp]: "map_of (fm_items m) = fmlookup m"
  by (simp add: fm_items_def)

lemma set_fm_values [coll_simps]: "v \<in> set (fm_values m) \<longleftrightarrow> (\<exists>k. fmlookup m k = Some v)"
  unfolding fm_values_def by (auto simp: image_iff set_fm_items Bex_def)

lemma set_fm_keys [coll_simps]: "k \<in> set (fm_keys m) \<longleftrightarrow> fmlookup m k \<noteq> None"
  unfolding fm_keys_def by (auto simp: image_iff set_fm_items Bex_def)

lemma set_fm_keys_fmdom [simp]: "set (fm_keys m) = fset (fmdom m)"
  by (auto simp: set_fm_keys fmlookup_dom_iff)

lemma fm_keys_eq: "fm_keys m = sorted_list_of_fset (fmdom m)"
  by (simp add: fm_keys_def fm_items_def sorted_list_of_fmap_def o_def)

lemma sorted_fm_keys [simp]: "sorted (fm_keys m)"
  by (simp add: fm_keys_eq sorted_list_of_fset.rep_eq)

lemma distinct_fm_keys [simp]: "distinct (fm_keys m)"
  by (simp add: fm_keys_eq sorted_list_of_fset.rep_eq)

lemma fm_len_card: "fm_len m = card (fset (fmdom m))"
  by (metis distinct_card distinct_fm_keys fm_keys_def fm_len_def length_map set_fm_keys_fmdom)

lemma fm_contains_fmupd [simp]: "fm_contains (fmupd k v m) k' = (k' = k \<or> fm_contains m k')"
  by (auto simp: fm_contains_def)

lemma fm_items_fmempty [simp]: "fm_items fmempty = []"
  by (simp add: fm_items_def sorted_list_of_fmap_def sorted_list_of_fset.rep_eq)

lemma fm_is_empty_iff [simp]: "fm_is_empty m = (m = fmempty)"
proof
  assume e: "fm_is_empty m"
  show "m = fmempty"
  proof (rule fmap_ext)
    fix k
    show "fmlookup m k = fmlookup fmempty k"
      using e set_fm_items [of k _ m] by (cases "fmlookup m k") (auto simp: fm_is_empty_def)
  qed
qed (simp add: fm_is_empty_def)

lemma fm_items_fmmap: "fm_items (fmmap f m) = map (\<lambda>(k, v). (k, f v)) (fm_items m)"
  by (auto simp: fm_items_def sorted_list_of_fmap_def fmlookup_dom_iff sorted_list_of_fset.rep_eq)

lemma concat_Nil_iff: "(concat (map f xs) = []) \<longleftrightarrow> (\<forall>x\<in>set xs. f x = [])"
  by (auto simp: concat_eq_Nil_conv)

lemma concat_items_Nil:
  "(concat (map (\<lambda>(k, v). f k v) (fm_items m)) = []) \<longleftrightarrow> (\<forall>k v. fmlookup m k = Some v \<longrightarrow> f k v = [])"
  unfolding concat_Nil_iff by (simp only: split_paired_Ball_Sigma Ball_def split_paired_All prod.case set_fm_items)

lemma concat_enumerate_Nil:
  assumes "\<And>i x. (f i x = []) = P x"
  shows "(concat (map (\<lambda>(i, x). f i x) (enumerate 0 xs)) = []) \<longleftrightarrow> (\<forall>x\<in>set xs. P x)"
proof -
  have "set xs = snd ` set (enumerate 0 xs)" by (metis map_snd_enumerate set_map)
  then show ?thesis unfolding concat_Nil_iff using assms by auto
qed

end
