(* ===== verification/Policy_Types.thy ===== *)
theory Policy_Types
  imports Prelude
begin

text \<open>
  The protobuf messages of the sandbox policy (\<open>proto/sandbox.proto\<close>), one record per
  message with the fields in message order. Scalars keep their proto3 meaning: an unset
  string is empty, an unset number is zero, and an enum field is the raw \<open>i32\<close> on the wire,
  which may lie outside the declared enum. Unsigned numbers are \<open>nat\<close>: the policy code
  compares and sorts them and never computes with them. The free-form \<open>google.protobuf.Struct\<close> of
  a middleware is opaque; the policy code only compares it, for the changed flag of a merge, where
  the source would also report a change for a struct that holds a NaN, which is not equal to itself.
\<close>

section \<open>Messages\<close>

type_synonym proto_struct = string \<comment> \<open>an opaque \<open>google.protobuf.Struct\<close>\<close>

record FilesystemPolicy =
  fs_include_workdir :: bool
  fs_read_only :: "string list"
  fs_read_write :: "string list"

record LandlockPolicy =
  ll_compatibility :: string

record ProcessPolicy =
  pp_run_as_user :: string
  pp_run_as_group :: string

record NetworkBinary =
  nb_path :: string

record L7QueryMatcher =
  qm_glob :: string
  qm_any :: "string list"

record L7Allow =
  la_method :: string
  la_path :: string
  la_command :: string
  la_query :: "L7QueryMatcher smap"
  la_operation_type :: string
  la_operation_name :: string
  la_fields :: "string list"
  la_params :: "L7QueryMatcher smap"

record L7Rule =
  lr_allow :: "L7Allow option"

record L7DenyRule =
  ld_method :: string
  ld_path :: string
  ld_command :: string
  ld_query :: "L7QueryMatcher smap"
  ld_operation_type :: string
  ld_operation_name :: string
  ld_fields :: "string list"
  ld_params :: "L7QueryMatcher smap"

record GraphqlOperation =
  go_operation_type :: string
  go_operation_name :: string
  go_fields :: "string list"

record McpOptions =
  mo_strict_tool_names :: "bool option"
  mo_allow_all_known_mcp_methods :: "bool option"
  mo_versions :: "string list"

record NetworkCredentialBinding =
  cb_provider :: string

record NetworkEndpoint =
  ne_host :: string
  ne_port :: nat
  ne_protocol :: string
  ne_tls :: int
  ne_enforcement :: int
  ne_access :: int
  ne_rules :: "L7Rule list"
  ne_allowed_ips :: "string list"
  ne_ports :: "nat list"
  ne_deny_rules :: "L7DenyRule list"
  ne_allow_encoded_slash :: bool
  ne_persisted_queries :: string
  ne_graphql_persisted_queries :: "GraphqlOperation smap"
  ne_graphql_max_body_bytes :: nat
  ne_path :: string
  ne_websocket_credential_rewrite :: bool
  ne_request_body_credential_rewrite :: bool
  ne_advisor_proposed :: bool
  ne_credential_signing :: string
  ne_signing_service :: string
  ne_signing_region :: string
  ne_json_rpc_max_body_bytes :: nat
  ne_mcp :: "McpOptions option"
  ne_credential_binding :: "NetworkCredentialBinding option"
  ne_allow_uninspected_credentials :: bool
  ne_provider_credentialed :: bool
  ne_token_grant_owner :: string

record NetworkPolicyRule =
  nr_name :: string
  nr_endpoints :: "NetworkEndpoint list"
  nr_binaries :: "NetworkBinary list"

record MiddlewareEndpointSelector =
  ms_include :: "string list"
  ms_exclude :: "string list"

record NetworkMiddlewareConfig =
  mc_name :: string
  mc_middleware :: string
  mc_config :: "proto_struct option"
  mc_on_error :: string
  mc_endpoints :: "MiddlewareEndpointSelector option"
  mc_order :: int

record SandboxPolicy =
  sp_version :: nat
  sp_filesystem :: "FilesystemPolicy option"
  sp_landlock :: "LandlockPolicy option"
  sp_process :: "ProcessPolicy option"
  sp_network_policies :: "NetworkPolicyRule smap"
  sp_network_middlewares :: "NetworkMiddlewareConfig smap"

section \<open>Enum numbers\<close>

abbreviation (input) "TLS_UNSPECIFIED \<equiv> (0 :: int)"
abbreviation (input) "TLS_SKIP \<equiv> (1 :: int)"
abbreviation (input) "TLS_TERMINATE \<equiv> (2 :: int)"
abbreviation (input) "TLS_PASSTHROUGH \<equiv> (3 :: int)"
abbreviation (input) "ENFORCEMENT_UNSPECIFIED \<equiv> (0 :: int)"
abbreviation (input) "ENFORCEMENT_ENFORCE \<equiv> (1 :: int)"
abbreviation (input) "ENFORCEMENT_AUDIT \<equiv> (2 :: int)"
abbreviation (input) "ACCESS_UNSPECIFIED \<equiv> (0 :: int)"
abbreviation (input) "ACCESS_READ_ONLY \<equiv> (1 :: int)"
abbreviation (input) "ACCESS_READ_WRITE \<equiv> (2 :: int)"
abbreviation (input) "ACCESS_FULL \<equiv> (3 :: int)"

section \<open>Default values\<close>

text \<open>The proto3 default of every message field, as the derived \<open>Default\<close> gives it.\<close>

definition endpoint_default :: NetworkEndpoint where
  "endpoint_default =
     \<lparr>ne_host = [], ne_port = 0, ne_protocol = [], ne_tls = 0, ne_enforcement = 0,
      ne_access = 0, ne_rules = [], ne_allowed_ips = [], ne_ports = [], ne_deny_rules = [],
      ne_allow_encoded_slash = False, ne_persisted_queries = [],
      ne_graphql_persisted_queries = fmempty, ne_graphql_max_body_bytes = 0, ne_path = [],
      ne_websocket_credential_rewrite = False, ne_request_body_credential_rewrite = False,
      ne_advisor_proposed = False, ne_credential_signing = [], ne_signing_service = [],
      ne_signing_region = [], ne_json_rpc_max_body_bytes = 0, ne_mcp = None,
      ne_credential_binding = None, ne_allow_uninspected_credentials = False,
      ne_provider_credentialed = False, ne_token_grant_owner = []\<rparr>"

definition mcp_options_default :: McpOptions where
  "mcp_options_default =
     \<lparr>mo_strict_tool_names = None, mo_allow_all_known_mcp_methods = None, mo_versions = []\<rparr>"

definition allow_default :: L7Allow where
  "allow_default =
     \<lparr>la_method = [], la_path = [], la_command = [], la_query = fmempty, la_operation_type = [],
      la_operation_name = [], la_fields = [], la_params = fmempty\<rparr>"

definition empty_policy :: SandboxPolicy where
  "empty_policy =
     \<lparr>sp_version = 0, sp_filesystem = None, sp_landlock = None, sp_process = None,
      sp_network_policies = fmempty, sp_network_middlewares = fmempty\<rparr>"

end
