(* ===== verification/Mcp_Versions.thy ===== *)
theory Mcp_Versions
  imports Policy_Types "HOL-Library.Product_Lexorder" "HOL-Library.Multiset"
begin

text \<open>
  The closed vocabulary of MCP protocol revisions and the canonical order of revision
  allowlists (\<open>openshell-policy-schema/src/lib.rs\<close>).
\<close>

section \<open>Definitions\<close>

datatype McpProtocolVersion = V2025_03_26 | V2025_06_18 | V2025_11_25 | V2026_07_28

text \<open>The derived \<open>Ord\<close> compares the position in the declaration.\<close>

fun version_index :: "McpProtocolVersion \<Rightarrow> nat" where
  "version_index V2025_03_26 = 0"
| "version_index V2025_06_18 = 1"
| "version_index V2025_11_25 = 2"
| "version_index V2026_07_28 = 3"

instantiation McpProtocolVersion :: linorder
begin

definition less_eq_McpProtocolVersion :: "McpProtocolVersion \<Rightarrow> McpProtocolVersion \<Rightarrow> bool" where
  "less_eq_McpProtocolVersion a b = (version_index a \<le> version_index b)"

definition less_McpProtocolVersion :: "McpProtocolVersion \<Rightarrow> McpProtocolVersion \<Rightarrow> bool" where
  "less_McpProtocolVersion a b = (version_index a < version_index b)"

instance
proof
  fix x y z :: McpProtocolVersion
  show "(x < y) = (x \<le> y \<and> \<not> y \<le> x)"
    by (auto simp: less_eq_McpProtocolVersion_def less_McpProtocolVersion_def)
  show "x \<le> x" by (simp add: less_eq_McpProtocolVersion_def)
  show "x \<le> y \<Longrightarrow> y \<le> z \<Longrightarrow> x \<le> z" by (simp add: less_eq_McpProtocolVersion_def)
  show "x \<le> y \<Longrightarrow> y \<le> x \<Longrightarrow> x = y"
    by (cases x; cases y) (simp_all add: less_eq_McpProtocolVersion_def)
  show "x \<le> y \<or> y \<le> x" by (auto simp: less_eq_McpProtocolVersion_def)
qed

end

definition version_ALL :: "McpProtocolVersion list" where
  "version_ALL = [V2025_03_26, V2025_06_18, V2025_11_25, V2026_07_28]"

definition DEFAULT_MCP_PROTOCOL_VERSION :: McpProtocolVersion where
  "DEFAULT_MCP_PROTOCOL_VERSION = V2025_11_25"

fun version_as_str :: "McpProtocolVersion \<Rightarrow> string" where
  "version_as_str V2025_03_26 = ''2025-03-26''"
| "version_as_str V2025_06_18 = ''2025-06-18''"
| "version_as_str V2025_11_25 = ''2025-11-25''"
| "version_as_str V2026_07_28 = ''2026-07-28''"

definition version_from_str :: "string \<Rightarrow> McpProtocolVersion option" where
  "version_from_str v =
     (if v = ''2025-03-26'' then Some V2025_03_26
      else if v = ''2025-06-18'' then Some V2025_06_18
      else if v = ''2025-11-25'' then Some V2025_11_25
      else if v = ''2026-07-28'' then Some V2026_07_28
      else None)"

datatype cmp_order = Less | Equal | Greater

definition cmp :: "'a::linorder \<Rightarrow> 'a \<Rightarrow> cmp_order" where
  "cmp a b = (if a < b then Less else if a = b then Equal else Greater)"

text \<open>The comparator that \<open>canonicalize_mcp_versions\<close> sorts with.\<close>

definition mcp_version_cmp :: "string \<Rightarrow> string \<Rightarrow> cmp_order" where
  "mcp_version_cmp left right =
     (case (version_from_str left, version_from_str right) of
        (Some l, Some r) \<Rightarrow> cmp l r
      | (Some _, None) \<Rightarrow> Less
      | (None, Some _) \<Rightarrow> Greater
      | (None, None) \<Rightarrow> cmp left right)"

text \<open>
  \<open>sort_by\<close> is a stable sort. The comparator orders by this key (lemma \<open>mcp_version_cmp_key\<close>),
  so the sort is the library's stable \<open>sort_key\<close>.
\<close>

definition mcp_version_key :: "string \<Rightarrow> nat \<times> string" where
  "mcp_version_key v =
     (case version_from_str v of Some w \<Rightarrow> (version_index w, []) | None \<Rightarrow> (4, v))"

definition canonicalize_mcp_versions :: "string list \<Rightarrow> string list" where
  "canonicalize_mcp_versions vs = sort_key mcp_version_key vs"

datatype ParseMcpVersionsError =
    VersionsEmpty
  | VersionsUnsupported string
  | VersionsDuplicate McpProtocolVersion

text \<open>The result is a \<open>BTreeSet\<close>: its elements in ascending order.\<close>

definition parse_mcp_versions :: "string list \<Rightarrow> ParseMcpVersionsError + McpProtocolVersion list" where
  "parse_mcp_versions values =
     (if values = [] then Inl VersionsEmpty
      else bindE
        (foldE
           (\<lambda>versions v.
              case version_from_str v of
                None \<Rightarrow> Inl (VersionsUnsupported v)
              | Some w \<Rightarrow> if w \<in> set versions then Inl (VersionsDuplicate w) else Inr (versions @ [w]))
           [] values)
        (\<lambda>versions. Inr (sort versions)))"

definition default_mcp_versions :: "string list" where
  "default_mcp_versions = [version_as_str DEFAULT_MCP_PROTOCOL_VERSION]"

definition canonicalize_mcp_options :: "McpOptions \<Rightarrow> McpOptions" where
  "canonicalize_mcp_options options =
     options\<lparr>mo_versions := canonicalize_mcp_versions (mo_versions options)\<rparr>"

section \<open>Lemmas\<close>

lemma version_from_as_str [simp]: "version_from_str (version_as_str v) = Some v"
  by (cases v) (simp_all add: version_from_str_def)

lemma version_as_from_str: "version_from_str s = Some v \<Longrightarrow> version_as_str v = s"
  by (auto simp: version_from_str_def split: if_splits)

lemma version_from_str_Some_iff: "version_from_str s = Some v \<longleftrightarrow> s = version_as_str v"
  using version_as_from_str by auto

lemma version_as_str_inject [simp]: "(version_as_str a = version_as_str b) = (a = b)"
  by (metis option.inject version_from_as_str)

lemma version_index_less [simp]: "version_index v < 4"
  by (cases v) simp_all

lemma version_index_inject [simp]: "(version_index a = version_index b) = (a = b)"
  by (cases a; cases b) simp_all

lemma mcp_version_key_inject [simp]: "(mcp_version_key a = mcp_version_key b) = (a = b)"
proof
  assume k: "mcp_version_key a = mcp_version_key b"
  have less: "version_index v \<noteq> 4" for v using version_index_less [of v] by linarith
  show "a = b"
    using k less less [symmetric]
    by (auto simp: mcp_version_key_def version_from_str_Some_iff split: option.splits)
qed simp

lemma mcp_version_cmp_key: "mcp_version_cmp a b = cmp (mcp_version_key a) (mcp_version_key b)"
proof -
  have less: "version_index v \<noteq> 4" "\<not> 4 < version_index v" "\<not> 4 \<le> version_index v" for v
    using version_index_less [of v] by linarith+
  show ?thesis
    by (auto simp: mcp_version_cmp_def mcp_version_key_def cmp_def less_McpProtocolVersion_def
        less less(1) [symmetric] split: option.splits)
qed

lemma set_canonicalize_mcp_versions [simp]: "set (canonicalize_mcp_versions vs) = set vs"
  by (simp add: canonicalize_mcp_versions_def)

lemma mset_canonicalize_mcp_versions: "mset (canonicalize_mcp_versions vs) = mset vs"
  by (simp add: canonicalize_mcp_versions_def)

lemma distinct_canonicalize_mcp_versions [simp]: "distinct (canonicalize_mcp_versions vs) = distinct vs"
  by (simp add: canonicalize_mcp_versions_def)

lemma canonicalize_mcp_versions_Nil [simp]: "(canonicalize_mcp_versions vs = []) = (vs = [])"
  by (metis set_canonicalize_mcp_versions set_empty)

lemma canonicalize_mcp_versions_idem [simp]:
  "canonicalize_mcp_versions (canonicalize_mcp_versions vs) = canonicalize_mcp_versions vs"
  by (simp add: canonicalize_mcp_versions_def sort_key_id_if_sorted)

end
