(* ===== verification/L7_Validate.thy ===== *)
theory L7_Validate
  imports Mcp_Versions
begin

text \<open>
  Endpoint modes and L7 field combinations (\<open>openshell-policy/src/l7_validate.rs\<close>), the
  access presets of the authored language (\<open>openshell-policy-schema/src/lib.rs\<close>), and the
  lemmas that make validated endpoints usable by the merge and the YAML conversion.
\<close>

section \<open>Definitions\<close>

subsection \<open>Enum spellings\<close>

datatype NetworkTlsMode = TlsUnspecified | TlsSkip | TlsTerminate | TlsPassthrough
datatype NetworkEnforcementMode = EnforcementUnspecified | EnforcementEnforce | EnforcementAudit
datatype NetworkAccessPreset = AccessUnspecified | AccessReadOnly | AccessReadWrite | AccessFull

fun tls_number :: "NetworkTlsMode \<Rightarrow> int" where
  "tls_number TlsUnspecified = 0"
| "tls_number TlsSkip = 1"
| "tls_number TlsTerminate = 2"
| "tls_number TlsPassthrough = 3"

fun enforcement_number :: "NetworkEnforcementMode \<Rightarrow> int" where
  "enforcement_number EnforcementUnspecified = 0"
| "enforcement_number EnforcementEnforce = 1"
| "enforcement_number EnforcementAudit = 2"

fun access_number :: "NetworkAccessPreset \<Rightarrow> int" where
  "access_number AccessUnspecified = 0"
| "access_number AccessReadOnly = 1"
| "access_number AccessReadWrite = 2"
| "access_number AccessFull = 3"

definition network_tls_mode_from_str :: "string \<Rightarrow> NetworkTlsMode option" where
  "network_tls_mode_from_str v =
     (if v = '''' then Some TlsUnspecified
      else if v = ''skip'' then Some TlsSkip
      else if v = ''terminate'' then Some TlsTerminate
      else if v = ''passthrough'' then Some TlsPassthrough
      else None)"

definition network_tls_mode_to_str :: "int \<Rightarrow> string option" where
  "network_tls_mode_to_str v =
     (if v = TLS_UNSPECIFIED then Some ''''
      else if v = TLS_SKIP then Some ''skip''
      else if v = TLS_TERMINATE then Some ''terminate''
      else if v = TLS_PASSTHROUGH then Some ''passthrough''
      else None)"

definition network_enforcement_mode_from_str :: "string \<Rightarrow> NetworkEnforcementMode option" where
  "network_enforcement_mode_from_str v =
     (if v = '''' then Some EnforcementUnspecified
      else if v = ''enforce'' then Some EnforcementEnforce
      else if v = ''audit'' then Some EnforcementAudit
      else None)"

definition network_enforcement_mode_to_str :: "int \<Rightarrow> string option" where
  "network_enforcement_mode_to_str v =
     (if v = ENFORCEMENT_UNSPECIFIED then Some ''''
      else if v = ENFORCEMENT_ENFORCE then Some ''enforce''
      else if v = ENFORCEMENT_AUDIT then Some ''audit''
      else None)"

definition network_access_preset_from_str :: "string \<Rightarrow> NetworkAccessPreset option" where
  "network_access_preset_from_str v =
     (if v = '''' then Some AccessUnspecified
      else if v = ''read-only'' then Some AccessReadOnly
      else if v = ''read-write'' then Some AccessReadWrite
      else if v = ''full'' then Some AccessFull
      else None)"

definition network_access_preset_to_str :: "int \<Rightarrow> string option" where
  "network_access_preset_to_str v =
     (if v = ACCESS_UNSPECIFIED then Some ''''
      else if v = ACCESS_READ_ONLY then Some ''read-only''
      else if v = ACCESS_READ_WRITE then Some ''read-write''
      else if v = ACCESS_FULL then Some ''full''
      else None)"

subsection \<open>Mode validation\<close>

definition unknown_tls_value :: "string \<Rightarrow> string option" where
  "unknown_tls_value tls =
     (if tls = '''' \<or> tls = ''skip'' then None
      else Some (''unknown tls value '' @ quoted tls
                 @ ''; omit the field to keep automatic TLS termination''))"

definition validate_endpoint_mode_values :: "int \<Rightarrow> int \<Rightarrow> int \<Rightarrow> string list" where
  "validate_endpoint_mode_values tls enforcement access =
     (case network_tls_mode_to_str tls of
        Some value \<Rightarrow> (case unknown_tls_value value of None \<Rightarrow> [] | Some e \<Rightarrow> [e])
      | None \<Rightarrow> [''unknown tls enum value '' @ show_int tls])
     @ push_if (network_enforcement_mode_to_str enforcement = None)
         (''unknown enforcement enum value '' @ show_int enforcement)
     @ push_if (network_access_preset_to_str access = None)
         (''unknown access enum value '' @ show_int access)"

definition validate_endpoint_modes :: "string \<Rightarrow> string \<Rightarrow> string \<Rightarrow> string list" where
  "validate_endpoint_modes tls enforcement access =
     (case unknown_tls_value tls of None \<Rightarrow> [] | Some e \<Rightarrow> [e])
     @ push_if (enforcement \<notin> {'''', ''enforce'', ''audit''})
         (''unknown enforcement value '' @ quoted enforcement @ '' (expected enforce or audit)'')
     @ push_if (access \<notin> {'''', ''read-only'', ''read-write'', ''full''})
         (''unknown access value '' @ quoted access
          @ '' (expected read-only, read-write, or full)'')"

subsection \<open>Protocols\<close>

datatype L7Protocol = Rest | Websocket | Graphql | Sql | JsonRpc | Mcp

definition L7Protocol_parse :: "string \<Rightarrow> L7Protocol option" where
  "L7Protocol_parse s =
     (let l = to_ascii_lowercase s
      in if l = ''rest'' then Some Rest
         else if l = ''websocket'' then Some Websocket
         else if l = ''graphql'' then Some Graphql
         else if l = ''sql'' then Some Sql
         else if l = ''json-rpc'' then Some JsonRpc
         else if l = ''mcp'' then Some Mcp
         else None)"

definition is_jsonrpc_family :: "L7Protocol \<Rightarrow> bool" where
  "is_jsonrpc_family p = (p = JsonRpc \<or> p = Mcp)"

definition is_explicit_tcp_protocol :: "string \<Rightarrow> bool" where
  "is_explicit_tcp_protocol protocol = eq_ignore_ascii_case protocol ''tcp''"

definition agent_authored_transport_rejection :: "string \<Rightarrow> string \<Rightarrow> string option" where
  "agent_authored_transport_rejection protocol tls =
     (if is_explicit_tcp_protocol protocol then
        Some (''agent-authored proposals cannot request protocol tcp; ask an administrator ''
              @ ''to add native TCP access explicitly'')
      else if eq_ignore_ascii_case tls ''skip'' then
        Some (''agent-authored proposals cannot request tls: skip; ask an administrator ''
              @ ''to add raw TLS access explicitly'')
      else None)"

definition validate_explicit_tcp_additional_fields :: "string \<Rightarrow> string list \<Rightarrow> string list" where
  "validate_explicit_tcp_additional_fields protocol present_fields =
     (if \<not> is_explicit_tcp_protocol protocol \<or> present_fields = [] then []
      else [''protocol tcp does not support L7-only fields: '' @ join '', '' present_fields
            @ ''; remove those fields''])"

subsection \<open>Field combinations\<close>

record L7EndpointFields =
  ef_protocol :: string
  ef_access :: string
  ef_has_rules :: bool
  ef_websocket_credential_rewrite :: bool
  ef_has_deny_rules :: bool
  ef_rules_would_deny_all :: bool
  ef_allow_all_known_mcp_methods :: bool

definition validate_l7_endpoint_semantics :: "L7EndpointFields \<Rightarrow> string list" where
  "validate_l7_endpoint_semantics ep =
     (let protocol = ef_protocol ep;
          l7_protocol = L7Protocol_parse protocol;
          explicit_tcp = is_explicit_tcp_protocol protocol;
          jsonrpc_family = (case l7_protocol of None \<Rightarrow> False | Some p \<Rightarrow> is_jsonrpc_family p);
          is_mcp = (l7_protocol = Some Mcp);
          is_jsonrpc = (l7_protocol = Some JsonRpc);
          no_access = (ef_access ep = '''')
      in push_if (l7_protocol = Some Rest \<and> ef_websocket_credential_rewrite ep)
           (''websocket_credential_rewrite is not supported for protocol rest; use protocol: ''
            @ ''websocket with explicit message rules'')
         @ push_if (protocol \<noteq> '''' \<and> l7_protocol = None \<and> \<not> explicit_tcp)
             (''unknown protocol '' @ quoted protocol
              @ '' (expected tcp, rest, websocket, graphql, sql, json-rpc, or mcp)'')
         @ push_if (explicit_tcp \<and> (\<not> no_access \<or> ef_has_rules ep \<or> ef_has_deny_rules ep))
             ''protocol tcp does not support access, rules, or deny_rules; remove those L7 fields''
         @ push_if (ef_has_rules ep \<and> \<not> no_access) ''rules and access are mutually exclusive''
         @ push_if (jsonrpc_family \<and> \<not> no_access)
             (if is_mcp then
                ''protocol '' @ protocol @ '' does not support access presets; use rules/deny_rules ''
                @ ''or set mcp.allow_all_known_mcp_methods: true for an allow-all MCP policy''
              else
                ''protocol '' @ protocol @ '' does not support access presets; use explicit rules ''
                @ ''with allow.method such as '' @ [CHR 0x22] @ ''*'' @ [CHR 0x22])
         @ push_if (is_jsonrpc \<and> \<not> ef_has_rules ep \<and> no_access)
             (''protocol '' @ protocol @ '' requires explicit rules with allow.method'')
         @ push_if (l7_protocol \<noteq> None \<and> \<not> is_mcp \<and> \<not> is_jsonrpc \<and> \<not> ef_has_rules ep \<and> no_access)
             ''protocol requires rules or access to define allowed traffic''
         @ push_if (is_mcp \<and> \<not> ef_has_rules ep \<and> no_access \<and> \<not> ef_allow_all_known_mcp_methods ep)
             ''protocol mcp requires rules when mcp.allow_all_known_mcp_methods is false''
         @ push_if (ef_rules_would_deny_all ep \<and> \<not> (is_mcp \<and> ef_allow_all_known_mcp_methods ep))
             (''rules would deny all traffic (no allow clause found). ''
              @ ''Use `access: full` or add allow clauses to rules.'')
         @ push_if (ef_has_deny_rules ep \<and> l7_protocol = None)
             ''deny_rules require protocol (L7 inspection must be enabled)''
         @ push_if (ef_has_deny_rules ep \<and> \<not> is_mcp \<and> \<not> ef_has_rules ep \<and> no_access)
             ''deny_rules require rules or access to define the base allow set'')"

subsection \<open>Access presets of the authored language\<close>

datatype AccessPreset = PresetReadOnly | PresetReadWrite | PresetFull

definition AccessPreset_parse :: "string \<Rightarrow> AccessPreset option" where
  "AccessPreset_parse v =
     (if v = ''read-only'' then Some PresetReadOnly
      else if v = ''read-write'' then Some PresetReadWrite
      else if v = ''full'' then Some PresetFull
      else None)"

definition AccessPreset_methods :: "AccessPreset \<Rightarrow> string \<Rightarrow> string list" where
  "AccessPreset_methods preset protocol =
     (case preset of
        PresetFull \<Rightarrow> [''*'']
      | PresetReadOnly \<Rightarrow>
          if protocol = ''websocket'' then [''GET''] else [''GET'', ''HEAD'', ''OPTIONS'']
      | PresetReadWrite \<Rightarrow>
          if protocol = ''websocket'' then [''GET'', ''WEBSOCKET_TEXT'']
          else [''GET'', ''HEAD'', ''OPTIONS'', ''POST'', ''PUT'', ''PATCH''])"

definition schema_expand_access_preset :: "string \<Rightarrow> string \<Rightarrow> string list option" where
  "schema_expand_access_preset protocol access =
     map_option (\<lambda>preset. AccessPreset_methods preset protocol) (AccessPreset_parse access)"

section \<open>Lemmas\<close>

lemma tls_roundtrip:
  "network_tls_mode_to_str v = Some s \<Longrightarrow>
     \<exists>m. network_tls_mode_from_str s = Some m \<and> tls_number m = v"
  by (auto simp: network_tls_mode_to_str_def network_tls_mode_from_str_def split: if_splits)

lemma enforcement_roundtrip:
  "network_enforcement_mode_to_str v = Some s \<Longrightarrow>
     \<exists>m. network_enforcement_mode_from_str s = Some m \<and> enforcement_number m = v"
  by (auto simp: network_enforcement_mode_to_str_def network_enforcement_mode_from_str_def
      split: if_splits)

lemma access_roundtrip:
  "network_access_preset_to_str v = Some s \<Longrightarrow>
     \<exists>m. network_access_preset_from_str s = Some m \<and> access_number m = v"
  by (auto simp: network_access_preset_to_str_def network_access_preset_from_str_def
      split: if_splits)

lemma validate_endpoint_mode_values_Nil_iff:
  "validate_endpoint_mode_values tls enforcement access = [] \<longleftrightarrow>
     tls \<in> {0, 1} \<and> enforcement \<in> {0, 1, 2} \<and> access \<in> {0, 1, 2, 3}"
  by (auto simp: validate_endpoint_mode_values_def network_tls_mode_to_str_def
      unknown_tls_value_def network_enforcement_mode_to_str_def network_access_preset_to_str_def
      split: if_splits)

lemma L7Protocol_parse_cong:
  "eq_ignore_ascii_case a b \<Longrightarrow> L7Protocol_parse a = L7Protocol_parse b"
  by (simp add: L7Protocol_parse_def eq_ignore_ascii_case_def)

lemma schema_expand_known: "access \<in> {1, 2, 3} \<Longrightarrow>
    \<exists>s ms. network_access_preset_to_str access = Some s
         \<and> schema_expand_access_preset protocol s = Some ms \<and> ms \<noteq> []"
  by (auto simp: network_access_preset_to_str_def schema_expand_access_preset_def
      AccessPreset_parse_def AccessPreset_methods_def)

text \<open>An endpoint that passes the semantic check with an inspected protocol has a base allow set.\<close>

lemma validate_l7_has_base:
  assumes "validate_l7_endpoint_semantics ep = []" and "L7Protocol_parse (ef_protocol ep) = Some p"
  shows "ef_has_rules ep \<or> ef_access ep \<noteq> '''' \<or> (p = Mcp \<and> ef_allow_all_known_mcp_methods ep)"
  using assms by (cases p) (auto simp: validate_l7_endpoint_semantics_def Let_def is_jsonrpc_family_def)

end
