(* ===== verification/Search.thy ===== *)
theory Search
  imports Prelude
begin

text \<open>
  The worklist loop that three routines of the repository share: the host-label matcher
  (a stack), the host-pattern overlap test and the glob-language intersection test (both a
  queue). The loop pops a state, skips it when it was visited before, succeeds on an
  accepting state and otherwise pushes the successors. The locale states the one law a
  client has to prove, that only finitely many states have successors, and gives back that
  the loop decides reachability.
\<close>

section \<open>Definitions\<close>

datatype discipline = Lifo | Fifo

text \<open>
  The next state to pop is the head of the list. \<open>Vec::push\<close>/\<open>pop\<close> work at the head,
  \<open>VecDeque::push_back\<close>/\<open>pop_front\<close> add at the end.
\<close>

fun push_work :: "discipline \<Rightarrow> 's list \<Rightarrow> 's list \<Rightarrow> 's list" where
  "push_work Lifo new pending = rev new @ pending"
| "push_work Fifo new pending = pending @ new"

function worklist_search ::
  "discipline \<Rightarrow> 's fset \<Rightarrow> ('s \<Rightarrow> 's list) \<Rightarrow> ('s \<Rightarrow> bool) \<Rightarrow> 's list \<Rightarrow> 's fset \<Rightarrow> bool" where
  "worklist_search d U succs accept [] visited = False"
| "worklist_search d U succs accept (p # pending) visited =
     (if p |\<in>| visited then worklist_search d U succs accept pending visited
      else if accept p then True
      else worklist_search d U succs accept
             (push_work d (if p |\<in>| U then succs p else []) pending) (finsert p visited))"
  by pat_completeness auto

termination
proof (relation "measures [\<lambda>(d, U, succs, accept, pending, visited). fcard (U |-| visited),
                           \<lambda>(d, U, succs, accept, pending, visited). length pending]", goal_cases)
  case 1
  show ?case by simp
next
  case (2 d U succs accept p pending visited)
  then show ?case by simp
next
  case (3 d U succs accept p pending visited)
  have le: "fcard (U |-| finsert p visited) \<le> fcard (U |-| visited)"
    by (intro fcard_mono) blast
  show ?case
  proof (cases "p |\<in>| U")
    case True
    with 3 have "U |-| finsert p visited |\<subset>| U |-| visited" by blast
    then have "fcard (U |-| finsert p visited) < fcard (U |-| visited)" by (rule pfsubset_fcard_mono)
    then show ?thesis by simp
  next
    case False
    with le show ?thesis by (cases d) auto
  qed
qed

definition step_rel :: "('s \<Rightarrow> 's list) \<Rightarrow> ('s \<times> 's) set" where
  "step_rel succs = {(p, q). q \<in> set (succs p)}"

text \<open>The index pairs of a product of two sequences.\<close>

definition index_pairs :: "nat \<Rightarrow> nat \<Rightarrow> (nat \<times> nat) fset" where
  "index_pairs m n = fset_of_list (List.product [0..<m] [0..<n])"

text \<open>What a finished search knows about its visited set, and the loop invariant behind it.\<close>

definition closed_under :: "('s \<Rightarrow> 's list) \<Rightarrow> ('s \<Rightarrow> bool) \<Rightarrow> 's set \<Rightarrow> bool" where
  "closed_under succs accept V = ((\<forall>p\<in>V. set (succs p) \<subseteq> V) \<and> (\<forall>p\<in>V. \<not> accept p))"

definition search_inv :: "('s \<Rightarrow> 's list) \<Rightarrow> ('s \<Rightarrow> bool) \<Rightarrow> 's list \<Rightarrow> 's fset \<Rightarrow> bool" where
  "search_inv succs accept pending visited =
     (\<forall>p. p |\<in>| visited \<longrightarrow> set (succs p) \<subseteq> fset visited \<union> set pending \<and> \<not> accept p)"

section \<open>Lemmas\<close>

lemma set_push_work [simp]: "set (push_work d new pending) = set new \<union> set pending"
  by (cases d) auto

lemma fmember_index_pairs [simp]: "(i, j) |\<in>| index_pairs m n \<longleftrightarrow> i < m \<and> j < n"
  by (auto simp: index_pairs_def fset_of_list_elem)

text \<open>Soundness: a successful search reached an accepting state from a pending one.\<close>

lemma worklist_search_sound:
  "worklist_search d U succs accept pending visited \<Longrightarrow>
     \<exists>p\<in>set pending. \<exists>q. (p, q) \<in> (step_rel succs)\<^sup>* \<and> accept q"
proof (induction d U succs accept pending visited rule: worklist_search.induct)
  case (1 d U succs accept visited)
  then show ?case by simp
next
  case (2 d U succs accept p pending visited)
  consider (seen) "p |\<in>| visited" | (acc) "p |\<notin>| visited" "accept p"
    | (expand) "p |\<notin>| visited" "\<not> accept p" by blast
  then show ?case
  proof cases
    case seen
    with 2 show ?thesis by fastforce
  next
    case acc
    then show ?thesis by (intro bexI [of _ p] exI [of _ p]) simp_all
  next
    case expand
    have "\<exists>p'\<in>set (push_work d (if p |\<in>| U then succs p else []) pending).
            \<exists>q. (p', q) \<in> (step_rel succs)\<^sup>* \<and> accept q"
      using 2 expand by simp
    then obtain p' q where p': "p' \<in> set (if p |\<in>| U then succs p else []) \<union> set pending"
      and q: "(p', q) \<in> (step_rel succs)\<^sup>*" "accept q"
      by (metis set_push_work)
    show ?thesis
    proof (cases "p' \<in> set pending")
      case True
      with q show ?thesis by auto
    next
      case False
      with p' have "(p, p') \<in> step_rel succs" by (auto simp: step_rel_def split: if_splits)
      then have "(p, q) \<in> (step_rel succs)\<^sup>*" using q(1) by (rule converse_rtrancl_into_rtrancl)
      with q(2) show ?thesis by auto
    qed
  qed
qed

text \<open>
  Completeness: a failed search leaves a set that holds every pending state, is closed under
  the steps and has no accepting state.
\<close>

lemma worklist_search_complete:
  "\<not> worklist_search d U succs accept pending visited \<Longrightarrow>
     (\<And>p. p |\<notin>| U \<Longrightarrow> succs p = []) \<Longrightarrow> search_inv succs accept pending visited \<Longrightarrow>
     \<exists>V. fset visited \<union> set pending \<subseteq> V \<and> closed_under succs accept V"
proof (induction d U succs accept pending visited rule: worklist_search.induct)
  case (1 d U succs accept visited)
  then have "closed_under succs accept (fset visited)"
    by (simp add: search_inv_def closed_under_def)
  then show ?case by auto
next
  case (2 d U succs accept p pending visited)
  show ?case
  proof (cases "p |\<in>| visited")
    case True
    have "\<not> worklist_search d U succs accept pending visited" using "2.prems"(1) True by simp
    moreover have "search_inv succs accept pending visited"
      using "2.prems"(3) True unfolding search_inv_def by auto
    ultimately have "\<exists>V. fset visited \<union> set pending \<subseteq> V \<and> closed_under succs accept V"
      using "2.IH"(1) [OF True] "2.prems"(2) by blast
    with True show ?thesis by auto
  next
    case False
    let ?new = "if p |\<in>| U then succs p else []"
    have new: "?new = succs p" using "2.prems"(2) by simp
    from "2.prems"(1) False have na: "\<not> accept p"
      and rest: "\<not> worklist_search d U succs accept (push_work d ?new pending) (finsert p visited)"
      by (simp_all split: if_splits)
    have "search_inv succs accept (push_work d ?new pending) (finsert p visited)"
      using "2.prems"(3) na unfolding search_inv_def new by fastforce
    then have "\<exists>V. fset (finsert p visited) \<union> set (push_work d ?new pending) \<subseteq> V
        \<and> closed_under succs accept V"
      using "2.IH"(2) [OF False na rest] "2.prems"(2) by blast
    then show ?thesis by auto
  qed
qed

declare worklist_search.simps [simp del]

locale finite_search =
  fixes succs :: "'s \<Rightarrow> 's list"
    and accept :: "'s \<Rightarrow> bool"
    and universe :: "'s fset"
  assumes succs_outside: "p |\<notin>| universe \<Longrightarrow> succs p = []"
begin

lemma search_iff_reachable:
  "worklist_search d universe succs accept [s] {||} \<longleftrightarrow>
     (\<exists>q. (s, q) \<in> (step_rel succs)\<^sup>* \<and> accept q)"
proof
  assume "worklist_search d universe succs accept [s] {||}"
  from worklist_search_sound [OF this]
  show "\<exists>q. (s, q) \<in> (step_rel succs)\<^sup>* \<and> accept q" by simp
next
  assume "\<exists>q. (s, q) \<in> (step_rel succs)\<^sup>* \<and> accept q"
  then obtain q where q: "(s, q) \<in> (step_rel succs)\<^sup>*" "accept q" by blast
  show "worklist_search d universe succs accept [s] {||}"
  proof (rule ccontr)
    assume "\<not> worklist_search d universe succs accept [s] {||}"
    from worklist_search_complete [OF this succs_outside]
    obtain V where V: "s \<in> V" "closed_under succs accept V" by (auto simp: search_inv_def)
    from q(1) V have "q \<in> V"
      by (induction rule: rtrancl_induct) (auto simp: step_rel_def closed_under_def)
    with V(2) q(2) show False by (auto simp: closed_under_def)
  qed
qed

end

end
