(* ===== verification/Host_Pattern.thy ===== *)
theory Host_Pattern
  imports Search
begin

text \<open>
  DNS-label-aware host patterns and selectors (\<open>openshell-core/src/host_pattern.rs\<close>).

  The third-party \<open>glob\<close> crate is a parameter: \<open>glob_new\<close> compiles a pattern or returns its
  error text, \<open>glob_matches\<close> matches a compiled pattern, identified by its source, against a
  subject. The only law any lemma needs of it is \<open>glob_literal\<close>, the documented behaviour
  that a pattern without metacharacters matches exactly itself.
\<close>

section \<open>Definitions\<close>

record glob_lib =
  glob_new :: "string \<Rightarrow> string + unit"
  glob_matches :: "string \<Rightarrow> string \<Rightarrow> bool"

datatype HostLabelPattern = Recursive | Label string bool

record HostPattern =
  hp_source :: string
  hp_labels :: "HostLabelPattern list"

record HostSelector =
  hs_includes :: "HostPattern list"
  hs_excludes :: "HostPattern list"

definition label_is_literal :: "string \<Rightarrow> bool" where
  "label_is_literal label = (\<not> list_ex (\<lambda>ch. ch \<in> set ''*?['') label)"

definition glob_literal :: "glob_lib \<Rightarrow> bool" where
  "glob_literal G = (\<forall>p s. label_is_literal p \<longrightarrow> glob_matches G p s = (p = s))"

subsection \<open>Construction\<close>

definition compile_label :: "glob_lib \<Rightarrow> string \<Rightarrow> string + HostLabelPattern" where
  "compile_label G label =
     (if label = ''**'' then Inr Recursive
      else (case glob_new G label of
              Inl e \<Rightarrow> Inl (''invalid host pattern: '' @ e)
            | Inr _ \<Rightarrow> Inr (Label label (label_is_literal label))))"

definition HostPattern_new :: "glob_lib \<Rightarrow> string \<Rightarrow> string + HostPattern" where
  "HostPattern_new G pattern =
     (if pattern = [] then Inl ''host pattern must not be empty''
      else if list_ex is_whitespace (chars pattern)
      then Inl ''host pattern must not contain whitespace''
      else if list_ex (\<lambda>ch. ch \<in> set ''{}'') pattern
      then Inl ''host pattern must not contain brace alternates; list each host pattern separately''
      else
        let source = to_ascii_lowercase pattern
        in if list_ex (\<lambda>l. l = []) (split_on CHR ''.'' source)
           then Inl ''host pattern must not contain empty DNS labels''
           else bindE (mapE (compile_label G) (split_on CHR ''.'' source))
                  (\<lambda>labels. Inr \<lparr>hp_source = source, hp_labels = labels\<rparr>))"

definition HostSelector_new :: "glob_lib \<Rightarrow> string list \<Rightarrow> string list \<Rightarrow> string + HostSelector" where
  "HostSelector_new G incl excl =
     (if incl = [] then Inl ''endpoint selector must include at least one host pattern''
      else bindE (mapE (HostPattern_new G) incl)
             (\<lambda>includes. bindE (mapE (HostPattern_new G) excl)
               (\<lambda>excludes. Inr \<lparr>hs_includes = includes, hs_excludes = excludes\<rparr>)))"

subsection \<open>Matching\<close>

definition match_succs ::
  "glob_lib \<Rightarrow> HostLabelPattern list \<Rightarrow> string list \<Rightarrow> nat \<times> nat \<Rightarrow> (nat \<times> nat) list" where
  "match_succs G labels host = (\<lambda>(pattern_idx, host_idx).
     if pattern_idx < length labels \<and> host_idx < length host then
       (case labels ! pattern_idx of
          Recursive \<Rightarrow> [(pattern_idx + 1, host_idx + 1), (pattern_idx, host_idx + 1)]
        | Label pat _ \<Rightarrow>
            if glob_matches G pat (host ! host_idx) then [(pattern_idx + 1, host_idx + 1)] else [])
     else [])"

definition matches_normalized_labels :: "glob_lib \<Rightarrow> HostPattern \<Rightarrow> string list \<Rightarrow> bool" where
  "matches_normalized_labels G p host =
     (if list_ex (\<lambda>label. label = []) host then False
      else worklist_search Lifo (index_pairs (length (hp_labels p)) (length host))
             (match_succs G (hp_labels p) host)
             (\<lambda>s. s = (length (hp_labels p), length host)) [(0, 0)] {||})"

definition HostPattern_matches :: "glob_lib \<Rightarrow> HostPattern \<Rightarrow> string \<Rightarrow> bool" where
  "HostPattern_matches G p host =
     matches_normalized_labels G p (split_on CHR ''.'' (to_ascii_lowercase host))"

definition HostSelector_matches :: "glob_lib \<Rightarrow> HostSelector \<Rightarrow> string \<Rightarrow> bool" where
  "HostSelector_matches G sel host =
     (list_ex (\<lambda>p. HostPattern_matches G p host) (hs_includes sel)
      \<and> \<not> list_ex (\<lambda>p. HostPattern_matches G p host) (hs_excludes sel))"

subsection \<open>Overlap\<close>

definition label_patterns_may_overlap :: "glob_lib \<Rightarrow> HostLabelPattern \<Rightarrow> HostLabelPattern \<Rightarrow> bool" where
  "label_patterns_may_overlap G left right =
     (case (left, right) of
        (Label left_source left_literal, Label right_source right_literal) \<Rightarrow>
          (case (left_literal, right_literal) of
             (True, True) \<Rightarrow> left_source = right_source
           | (True, False) \<Rightarrow> glob_matches G right_source left_source
           | (False, True) \<Rightarrow> glob_matches G left_source right_source
           | (False, False) \<Rightarrow> True)
      | _ \<Rightarrow> True)"

definition overlap_succs ::
  "glob_lib \<Rightarrow> HostLabelPattern list \<Rightarrow> HostLabelPattern list \<Rightarrow> nat \<times> nat \<Rightarrow> (nat \<times> nat) list" where
  "overlap_succs G left_labels right_labels = (\<lambda>(left_idx, right_idx).
     if left_idx < length left_labels \<and> right_idx < length right_labels then
       (case (left_labels ! left_idx, right_labels ! right_idx) of
          (Recursive, Recursive) \<Rightarrow>
            [(left_idx + 1, right_idx + 1), (left_idx, right_idx + 1), (left_idx + 1, right_idx)]
        | (Recursive, Label _ _) \<Rightarrow> [(left_idx + 1, right_idx + 1), (left_idx, right_idx + 1)]
        | (Label _ _, Recursive) \<Rightarrow> [(left_idx + 1, right_idx + 1), (left_idx + 1, right_idx)]
        | (left, right) \<Rightarrow>
            if label_patterns_may_overlap G left right then [(left_idx + 1, right_idx + 1)] else [])
     else [])"

definition HostPattern_overlaps :: "glob_lib \<Rightarrow> HostPattern \<Rightarrow> HostPattern \<Rightarrow> bool" where
  "HostPattern_overlaps G p q =
     worklist_search Fifo (index_pairs (length (hp_labels p)) (length (hp_labels q)))
       (overlap_succs G (hp_labels p) (hp_labels q))
       (\<lambda>s. s = (length (hp_labels p), length (hp_labels q))) [(0, 0)] {||}"

definition HostPattern_literal :: "HostPattern \<Rightarrow> string option" where
  "HostPattern_literal p =
     (if list_all (\<lambda>l. case l of Label _ True \<Rightarrow> True | _ \<Rightarrow> False) (hp_labels p)
      then Some (hp_source p) else None)"

definition HostPattern_is_universal :: "HostPattern \<Rightarrow> bool" where
  "HostPattern_is_universal p = (hp_labels p = [Recursive])"

definition may_match_pattern :: "glob_lib \<Rightarrow> HostSelector \<Rightarrow> HostPattern \<Rightarrow> bool" where
  "may_match_pattern G sel candidate =
     list_ex (\<lambda>incl.
       if \<not> HostPattern_overlaps G incl candidate then False
       else
         let concrete_intersection =
               (case HostPattern_literal candidate of
                  Some h \<Rightarrow> Some h | None \<Rightarrow> HostPattern_literal incl);
             excluded =
               (case concrete_intersection of
                  None \<Rightarrow> list_ex (\<lambda>excl. HostPattern_is_universal excl
                              \<or> hp_source excl = hp_source incl
                              \<or> hp_source excl = hp_source candidate) (hs_excludes sel)
                | Some host \<Rightarrow> list_ex (\<lambda>excl. HostPattern_matches G excl host) (hs_excludes sel))
         in \<not> excluded) (hs_includes sel)"

subsection \<open>Entry points on authored strings\<close>

definition host_matches :: "glob_lib \<Rightarrow> string \<Rightarrow> string \<Rightarrow> string + bool" where
  "host_matches G pattern host =
     bindE (HostPattern_new G pattern) (\<lambda>p. Inr (HostPattern_matches G p host))"

definition host_patterns_overlap :: "glob_lib \<Rightarrow> string \<Rightarrow> string \<Rightarrow> string + bool" where
  "host_patterns_overlap G left right =
     bindE (HostPattern_new G left) (\<lambda>l.
     bindE (HostPattern_new G right) (\<lambda>r. Inr (HostPattern_overlaps G l r)))"

definition selector_may_match_pattern ::
  "glob_lib \<Rightarrow> string list \<Rightarrow> string list \<Rightarrow> string \<Rightarrow> string + bool" where
  "selector_may_match_pattern G incl excl candidate =
     bindE (HostSelector_new G incl excl) (\<lambda>sel.
     bindE (HostPattern_new G candidate) (\<lambda>c. Inr (may_match_pattern G sel c)))"

subsection \<open>Reference semantics\<close>

text \<open>
  What a label sequence matches: a \<open>Label\<close> consumes one host label its glob accepts, \<open>**\<close>
  consumes one or more.
\<close>

fun labels_match :: "glob_lib \<Rightarrow> HostLabelPattern list \<Rightarrow> string list \<Rightarrow> bool" where
  "labels_match G [] hs = (hs = [])"
| "labels_match G (l # ls) [] = False"
| "labels_match G (Label pat _ # ls) (h # hs) = (glob_matches G pat h \<and> labels_match G ls hs)"
| "labels_match G (Recursive # ls) (h # hs) = (labels_match G ls hs \<or> labels_match G (Recursive # ls) hs)"

text \<open>
  A concrete library satisfying \<open>glob_literal\<close>, for the witnesses: \<open>*\<close> and \<open>?\<close> have their usual
  meaning and character classes are rejected at compile time.
\<close>

fun star_match :: "string \<Rightarrow> string \<Rightarrow> bool" where
  "star_match [] s = (s = [])"
| "star_match (c # p) [] = (c = CHR ''*'' \<and> star_match p [])"
| "star_match (c # p) (d # s) =
     (if c = CHR ''*'' then star_match p (d # s) \<or> star_match (c # p) s
      else (c = CHR ''?'' \<or> c = d) \<and> star_match p s)"

definition star_glob :: glob_lib where
  "star_glob = \<lparr>glob_new = (\<lambda>p. if CHR ''['' \<in> set p then Inl ''unsupported class'' else Inr ()),
     glob_matches = star_match\<rparr>"

text \<open>What \<open>HostPattern_new\<close> guarantees of a pattern.\<close>

definition label_of :: "string \<Rightarrow> HostLabelPattern" where
  "label_of l = (if l = ''**'' then Recursive else Label l (label_is_literal l))"

definition pattern_wf :: "HostPattern \<Rightarrow> bool" where
  "pattern_wf p =
     (hp_labels p = map label_of (split_on CHR ''.'' (hp_source p))
      \<and> to_ascii_lowercase (hp_source p) = hp_source p)"

definition labels_wf :: "HostLabelPattern list \<Rightarrow> bool" where
  "labels_wf ls = (\<forall>l\<in>set ls. case l of Recursive \<Rightarrow> True | Label s b \<Rightarrow> b = label_is_literal s)"

definition selector_wf :: "HostSelector \<Rightarrow> bool" where
  "selector_wf sel = list_all pattern_wf (hs_includes sel @ hs_excludes sel)"

section \<open>Lemmas\<close>

interpretation label_matcher: finite_search
  "match_succs G labels host" "\<lambda>s. s = (length labels, length host)"
  "index_pairs (length labels) (length host)"
  for G labels host
  by unfold_locales (auto simp: match_succs_def)

interpretation label_overlap: finite_search
  "overlap_succs G left right" "\<lambda>s. s = (length left, length right)"
  "index_pairs (length left) (length right)"
  for G left right
  by unfold_locales (auto simp: overlap_succs_def)

text \<open>\<open>**\<close> consumes at least one label.\<close>

lemma labels_match_Recursive:
  "labels_match G (Recursive # ls) hs \<longleftrightarrow> (\<exists>k. 1 \<le> k \<and> k \<le> length hs \<and> labels_match G ls (drop k hs))"
proof (induction hs)
  case Nil
  show ?case by simp
next
  case (Cons h hs)
  show ?case (is "?l \<longleftrightarrow> ?r")
  proof
    assume ?l
    then consider "labels_match G ls hs" | "labels_match G (Recursive # ls) hs" by auto
    then show ?r
    proof cases
      case 1
      then show ?thesis by (intro exI [of _ 1]) simp
    next
      case 2
      with Cons obtain k where "1 \<le> k" "k \<le> length hs" "labels_match G ls (drop k hs)" by auto
      then show ?thesis by (intro exI [of _ "Suc k"]) simp
    qed
  next
    assume ?r
    then obtain k where k: "1 \<le> k" "k \<le> length (h # hs)" "labels_match G ls (drop k (h # hs))" by blast
    show ?l
    proof (cases "k = 1")
      case True
      with k show ?thesis by simp
    next
      case False
      with k have "1 \<le> k - 1 \<and> k - 1 \<le> length hs \<and> labels_match G ls (drop (k - 1) hs)"
        by (cases k) auto
      with Cons show ?thesis by auto
    qed
  qed
qed

lemma match_step_labels_match:
  assumes "q \<in> set (match_succs G labels host p)"
    and "labels_match G (drop (fst q) labels) (drop (snd q) host)"
  shows "labels_match G (drop (fst p) labels) (drop (snd p) host)"
proof -
  obtain i j where p: "p = (i, j)" by (cases p)
  with assms(1) have b: "i < length labels" "j < length host"
    by (auto simp: match_succs_def split: if_splits)
  then have d: "drop i labels = labels ! i # drop (Suc i) labels"
    "drop j host = host ! j # drop (Suc j) host"
    by (simp_all add: Cons_nth_drop_Suc)
  show ?thesis
    using assms b by (cases "labels ! i") (auto simp: p d match_succs_def split: if_splits)
qed

lemma labels_match_reach:
  "labels_match G ls hs \<Longrightarrow> ls = drop i labels \<Longrightarrow> hs = drop j host \<Longrightarrow>
     i \<le> length labels \<Longrightarrow> j \<le> length host \<Longrightarrow>
     ((i, j), (length labels, length host)) \<in> (step_rel (match_succs G labels host))\<^sup>*"
proof (induction G ls hs arbitrary: i j rule: labels_match.induct)
  case (1 G hs)
  then show ?case by simp
next
  case (2 G l ls)
  from "2.prems"(1) show ?case by simp
next
  case (3 G pat lit ls h hs)
  from "3.prems"(2,3) have e: "i < length labels" "j < length host" "labels ! i = Label pat lit"
    "ls = drop (Suc i) labels" "host ! j = h" "hs = drop (Suc j) host"
    by (simp_all add: Cons_eq_drop_iff)
  with "3.prems"(1) have "((i, j), (Suc i, Suc j)) \<in> step_rel (match_succs G labels host)"
    by (simp add: step_rel_def match_succs_def)
  moreover have "((Suc i, Suc j), (length labels, length host)) \<in> (step_rel (match_succs G labels host))\<^sup>*"
    using "3.IH" "3.prems"(1) e by simp
  ultimately show ?case by (rule converse_rtrancl_into_rtrancl)
next
  case (4 G ls h hs)
  from "4.prems"(2,3) have e: "i < length labels" "j < length host" "labels ! i = Recursive"
    "ls = drop (Suc i) labels" "host ! j = h" "hs = drop (Suc j) host"
    by (simp_all add: Cons_eq_drop_iff)
  have s1: "((i, j), (Suc i, Suc j)) \<in> step_rel (match_succs G labels host)"
    and s2: "((i, j), (i, Suc j)) \<in> step_rel (match_succs G labels host)"
    using e by (simp_all add: step_rel_def match_succs_def)
  from "4.prems"(1) consider "labels_match G ls hs" | "labels_match G (Recursive # ls) hs" by auto
  then show ?case
  proof cases
    case 1
    then have "((Suc i, Suc j), (length labels, length host)) \<in> (step_rel (match_succs G labels host))\<^sup>*"
      using "4.IH"(1) e by simp
    with s1 show ?thesis by (rule converse_rtrancl_into_rtrancl)
  next
    case 2
    then have "((i, Suc j), (length labels, length host)) \<in> (step_rel (match_succs G labels host))\<^sup>*"
      using "4.IH"(2) [OF _ "4.prems"(2) e(6)] e by simp
    with s2 show ?thesis by (rule converse_rtrancl_into_rtrancl)
  qed
qed

lemma matcher_reaches_iff:
  "((0, 0), (length labels, length host)) \<in> (step_rel (match_succs G labels host))\<^sup>* \<longleftrightarrow>
     labels_match G labels host"
proof
  assume "((0, 0), (length labels, length host)) \<in> (step_rel (match_succs G labels host))\<^sup>*"
  then have "labels_match G (drop (fst (0::nat, 0::nat)) labels) (drop (snd (0::nat, 0::nat)) host)"
  proof (induction rule: converse_rtrancl_induct)
    case base
    show ?case by simp
  next
    case (step p q)
    from step.hyps(1) have "q \<in> set (match_succs G labels host p)" by (simp add: step_rel_def)
    then show ?case using step.IH by (rule match_step_labels_match)
  qed
  then show "labels_match G labels host" by simp
qed (use labels_match_reach [of G labels host 0 labels 0 host] in simp)

lemma matches_normalized_labels_iff:
  "matches_normalized_labels G p host \<longleftrightarrow> [] \<notin> set host \<and> labels_match G (hp_labels p) host"
  using label_matcher.search_iff_reachable [of Lifo "hp_labels p" host G "(0, 0)"]
  by (auto simp: matches_normalized_labels_def matcher_reaches_iff list_ex_iff)

lemma compile_label_Inr: "compile_label G l = Inr x \<Longrightarrow> x = label_of l"
  by (auto simp: compile_label_def label_of_def split: if_splits sum.splits)

lemma mapE_compile_label: "mapE (compile_label G) ls = Inr xs \<Longrightarrow> xs = map label_of ls"
  by (induction ls arbitrary: xs) (auto dest: compile_label_Inr)

lemma HostPattern_new_wf: "HostPattern_new G s = Inr p \<Longrightarrow> pattern_wf p"
  by (auto simp: HostPattern_new_def pattern_wf_def Let_def dest!: mapE_compile_label split: if_splits)

lemma HostPattern_new_source: "HostPattern_new G s = Inr p \<Longrightarrow> hp_source p = to_ascii_lowercase s"
  by (auto simp: HostPattern_new_def Let_def split: if_splits)

lemma HostSelector_new_wf: "HostSelector_new G incl excl = Inr sel \<Longrightarrow> selector_wf sel"
  by (auto simp: HostSelector_new_def selector_wf_def list_all_iff HostPattern_new_wf
      split: if_splits dest!: mapE_set)

lemma HostPattern_matches_lower [simp]:
  "HostPattern_matches G p (to_ascii_lowercase h) = HostPattern_matches G p h"
  by (simp add: HostPattern_matches_def)

lemma pattern_wf_labels_unique:
  "pattern_wf p \<Longrightarrow> pattern_wf q \<Longrightarrow> hp_source p = hp_source q \<Longrightarrow> hp_labels p = hp_labels q"
  by (simp add: pattern_wf_def)

lemma HostPattern_matches_labels_cong:
  "hp_labels p = hp_labels q \<Longrightarrow> HostPattern_matches G p h = HostPattern_matches G q h"
  by (simp add: HostPattern_matches_def matches_normalized_labels_iff)

subsection \<open>Literal patterns match their source only\<close>

lemma labels_match_literal:
  assumes "glob_literal G" and "labels_match G (map label_of ls) hs"
    and "\<forall>l\<in>set ls. l \<noteq> ''**'' \<and> label_is_literal l"
  shows "hs = ls"
  using assms(2,3)
proof (induction ls arbitrary: hs)
  case Nil
  then show ?case by simp
next
  case (Cons l ls)
  then obtain h hs' where hs: "hs = h # hs'" by (cases hs) auto
  with Cons assms(1) show ?case by (auto simp: label_of_def glob_literal_def)
qed

lemma HostPattern_literal_matches:
  assumes "glob_literal G" and "pattern_wf p" and "HostPattern_literal p = Some s"
    and "HostPattern_matches G p h"
  shows "to_ascii_lowercase h = s"
proof -
  let ?ls = "split_on CHR ''.'' (hp_source p)"
  have s: "s = hp_source p" and lit: "\<forall>l\<in>set ?ls. l \<noteq> ''**'' \<and> label_is_literal l"
    using assms(2,3)
    by (auto simp: HostPattern_literal_def pattern_wf_def list_all_iff label_of_def image_iff
        split: if_splits HostLabelPattern.splits bool.splits) blast+
  have "labels_match G (map label_of ?ls) (split_on CHR ''.'' (to_ascii_lowercase h))"
    using assms(2,4) by (simp add: HostPattern_matches_def matches_normalized_labels_iff pattern_wf_def)
  from labels_match_literal [OF assms(1) this lit]
  have "split_on CHR ''.'' (to_ascii_lowercase h) = ?ls" .
  then have "join ''.'' (split_on CHR ''.'' (to_ascii_lowercase h)) = join ''.'' ?ls" by simp
  with s show ?thesis by simp
qed

subsection \<open>The universal pattern\<close>

lemma labels_match_universal: "hs \<noteq> [] \<Longrightarrow> labels_match G [Recursive] hs"
  using labels_match_Recursive [of G "[]" hs] by (auto intro: exI [of _ "length hs"] simp: Suc_le_eq)

lemma universal_matches:
  assumes "HostPattern_is_universal u" and "HostPattern_matches G p h"
  shows "HostPattern_matches G u h"
  using assms by (simp add: HostPattern_matches_def matches_normalized_labels_iff
      HostPattern_is_universal_def labels_match_universal)

subsection \<open>The overlap test is conservative\<close>

lemma pattern_wf_labels_wf: "pattern_wf p \<Longrightarrow> labels_wf (hp_labels p)"
  by (auto simp: pattern_wf_def labels_wf_def label_of_def)

lemma labels_match_step:
  assumes "labels_match G (drop i ls) (h # hs)"
  obtains (lab) s b where "i < length ls" "ls ! i = Label s b" "glob_matches G s h"
      "labels_match G (drop (Suc i) ls) hs"
    | (rec_done) "i < length ls" "ls ! i = Recursive" "labels_match G (drop (Suc i) ls) hs"
    | (rec_stay) "i < length ls" "ls ! i = Recursive" "labels_match G (drop i ls) hs"
proof -
  obtain l ls' where d: "l # ls' = drop i ls" using assms by (cases "drop i ls") auto
  then have i: "i < length ls" "l = ls ! i" "ls' = drop (Suc i) ls" by (simp_all add: Cons_eq_drop_iff)
  have m: "labels_match G (l # drop (Suc i) ls) (h # hs)" using assms d i(3) by simp
  show thesis
  proof (cases l)
    case Recursive
    with m d i have "labels_match G (drop (Suc i) ls) hs \<or> labels_match G (drop i ls) hs"
      by (simp flip: d)
    with Recursive i that(2,3) show thesis by metis
  next
    case (Label s b)
    with m have "glob_matches G s h" "labels_match G (drop (Suc i) ls) hs" by simp_all
    with Label i that(1) show thesis by simp
  qed
qed

lemma label_overlap_common:
  assumes "glob_literal G" and "b = label_is_literal s" and "b' = label_is_literal s'"
    and "glob_matches G s h" and "glob_matches G s' h"
  shows "label_patterns_may_overlap G (Label s b) (Label s' b')"
  using assms by (auto simp: label_patterns_may_overlap_def glob_literal_def split: bool.splits)

lemma overlap_reach:
  assumes G: "glob_literal G" and wf: "labels_wf ls" "labels_wf ls'"
    and "labels_match G (drop i ls) hs" and "labels_match G (drop j ls') hs"
    and "i \<le> length ls" and "j \<le> length ls'"
  shows "((i, j), (length ls, length ls')) \<in> (step_rel (overlap_succs G ls ls'))\<^sup>*"
  using assms(4-)
proof (induction hs arbitrary: i j)
  case Nil
  have "drop i ls = []" "drop j ls' = []"
    using Nil.prems by (cases "drop i ls"; cases "drop j ls'"; simp)+
  with Nil.prems have "i = length ls" "j = length ls'" by auto
  then show ?case by simp
next
  case (Cons h hs)
  let ?R = "step_rel (overlap_succs G ls ls')"
  let ?goal = "(length ls, length ls')"
  have go: "((i', j'), ?goal) \<in> ?R\<^sup>*"
    if "labels_match G (drop i' ls) hs" "labels_match G (drop j' ls') hs"
      "i' \<le> length ls" "j' \<le> length ls'" for i' j'
    using Cons.IH that by blast
  have via: "((i, j), ?goal) \<in> ?R\<^sup>*"
    if "(i', j') \<in> set (overlap_succs G ls ls' (i, j))" "((i', j'), ?goal) \<in> ?R\<^sup>*" for i' j'
    using that by (auto simp: step_rel_def intro: converse_rtrancl_into_rtrancl)
  have lit: "b = label_is_literal s" if "ls ! i = Label s b" "i < length ls" for s b
    using wf(1) that nth_mem [OF that(2)] by (force simp: labels_wf_def)
  have lit': "b = label_is_literal s" if "ls' ! j = Label s b" "j < length ls'" for s b
    using wf(2) that nth_mem [OF that(2)] by (force simp: labels_wf_def)
  show ?case
  proof (cases rule: labels_match_step [OF Cons.prems(1)])
    case left: (1 s b)
    show ?thesis
    proof (cases rule: labels_match_step [OF Cons.prems(2)])
      case right: (1 s' b')
      have "label_patterns_may_overlap G (Label s b) (Label s' b')"
        using label_overlap_common [OF G lit lit'] left right by blast
      with left right show ?thesis
        by (intro via [of "Suc i" "Suc j"] go) (auto simp: overlap_succs_def)
    next
      case right: 2
      with left show ?thesis by (intro via [of "Suc i" "Suc j"] go) (auto simp: overlap_succs_def)
    next
      case right: 3
      with left show ?thesis by (intro via [of "Suc i" j] go) (auto simp: overlap_succs_def)
    qed
  next
    case left: 2
    show ?thesis
    proof (cases rule: labels_match_step [OF Cons.prems(2)])
      case right: (1 s' b')
      with left show ?thesis by (intro via [of "Suc i" "Suc j"] go) (auto simp: overlap_succs_def)
    next
      case right: 2
      with left show ?thesis by (intro via [of "Suc i" "Suc j"] go) (auto simp: overlap_succs_def)
    next
      case right: 3
      with left show ?thesis by (intro via [of "Suc i" j] go) (auto simp: overlap_succs_def)
    qed
  next
    case left: 3
    show ?thesis
    proof (cases rule: labels_match_step [OF Cons.prems(2)])
      case right: (1 s' b')
      with left show ?thesis by (intro via [of i "Suc j"] go) (auto simp: overlap_succs_def)
    next
      case right: 2
      with left show ?thesis by (intro via [of i "Suc j"] go) (auto simp: overlap_succs_def)
    next
      case right: 3
      with left Cons.prems show ?thesis by (intro go) auto
    qed
  qed
qed

lemma HostPattern_overlaps_sound:
  assumes "glob_literal G" and "pattern_wf p" and "pattern_wf q"
    and "HostPattern_matches G p h" and "HostPattern_matches G q h"
  shows "HostPattern_overlaps G p q"
proof -
  let ?hs = "split_on CHR ''.'' (to_ascii_lowercase h)"
  have "labels_match G (drop 0 (hp_labels p)) ?hs" "labels_match G (drop 0 (hp_labels q)) ?hs"
    using assms(4,5) by (simp_all add: HostPattern_matches_def matches_normalized_labels_iff)
  from overlap_reach [OF assms(1) pattern_wf_labels_wf [OF assms(2)] pattern_wf_labels_wf [OF assms(3)] this]
  show ?thesis by (auto simp: HostPattern_overlaps_def label_overlap.search_iff_reachable)
qed

lemma may_match_pattern_sound:
  assumes G: "glob_literal G" and wf: "selector_wf sel" "pattern_wf c"
    and sel: "HostSelector_matches G sel h" and c: "HostPattern_matches G c h"
  shows "may_match_pattern G sel c"
proof -
  from sel obtain i where i: "i \<in> set (hs_includes sel)" "HostPattern_matches G i h"
    and ex: "\<forall>e\<in>set (hs_excludes sel). \<not> HostPattern_matches G e h"
    by (auto simp: HostSelector_matches_def list_ex_iff)
  have wfi: "pattern_wf i" and wfe: "\<forall>e\<in>set (hs_excludes sel). pattern_wf e"
    using wf(1) i(1) by (auto simp: selector_wf_def list_all_iff)
  have ov: "HostPattern_overlaps G i c"
    using HostPattern_overlaps_sound [OF G wfi wf(2) i(2) c] .
  have lit: "to_ascii_lowercase h = s"
    if "(case HostPattern_literal c of Some h \<Rightarrow> Some h | None \<Rightarrow> HostPattern_literal i) = Some s" for s
    using that HostPattern_literal_matches [OF G wf(2) _ c] HostPattern_literal_matches [OF G wfi _ i(2)]
    by (auto split: option.splits)
  have nolit: "\<not> (HostPattern_is_universal e \<or> hp_source e = hp_source i \<or> hp_source e = hp_source c)"
    if e: "e \<in> set (hs_excludes sel)" for e
  proof -
    have "\<not> HostPattern_matches G e h" using ex e by blast
    moreover have "pattern_wf e" using wfe e by blast
    ultimately show ?thesis
      using universal_matches [OF _ i(2)] pattern_wf_labels_unique [of e i] pattern_wf_labels_unique [of e c]
        HostPattern_matches_labels_cong [of e i] HostPattern_matches_labels_cong [of e c] i(2) c wfi wf(2)
      by blast
  qed
  have conc: "\<not> HostPattern_matches G e s"
    if "e \<in> set (hs_excludes sel)" "to_ascii_lowercase h = s" for e s
    using ex that by auto
  show ?thesis
    unfolding may_match_pattern_def list_ex_iff Let_def
    using i(1) ov lit nolit conc by (intro bexI [of _ i]) (auto split: option.splits)
qed

lemma star_match_literal: "label_is_literal p \<Longrightarrow> star_match p s = (p = s)"
  by (induction p s rule: star_match.induct) (auto simp: label_is_literal_def)

lemma star_glob_literal: "glob_literal star_glob"
  by (simp add: glob_literal_def star_glob_def star_match_literal)

section \<open>Properties\<close>

lemma host_matches_Inr_iff:
  "host_matches G pat h = Inr b
   \<longleftrightarrow> (\<exists>p. HostPattern_new G pat = Inr p \<and> HostPattern_matches G p h = b)"
  by (cases "HostPattern_new G pat") (auto simp: host_matches_def)

text \<open>C12. The worklist matcher decides the label semantics: a compiled host pattern accepts a
  host exactly when the host has no empty label and its lower-cased labels are matched in order,
  \<open>**\<close> standing for one or more labels and any other label for exactly one.\<close>
theorem host_matches_semantics:
  assumes "host_matches G pat h = Inr b"
  shows "b \<longleftrightarrow>
    [] \<notin> set (split_on CHR ''.'' (to_ascii_lowercase h))
    \<and> labels_match G (map label_of (split_on CHR ''.'' (to_ascii_lowercase pat)))
         (split_on CHR ''.'' (to_ascii_lowercase h))"
proof -
  obtain p where p: "HostPattern_new G pat = Inr p" "HostPattern_matches G p h = b"
    using assms by (auto simp: host_matches_Inr_iff)
  have "hp_labels p = map label_of (split_on CHR ''.'' (to_ascii_lowercase pat))"
    using HostPattern_new_wf [OF p(1)] HostPattern_new_source [OF p(1)] by (simp add: pattern_wf_def)
  with p(2) show ?thesis
    by (auto simp: HostPattern_matches_def matches_normalized_labels_iff)
qed

theorem host_matches_semantics_witness:
  "host_matches star_glob ''**.Example.com'' ''a.B.example.com'' = Inr True
   \<and> labels_match star_glob (map label_of (split_on CHR ''.'' (to_ascii_lowercase ''**.Example.com'')))
         (split_on CHR ''.'' (to_ascii_lowercase ''a.B.example.com''))"
proof -
  have m: "host_matches star_glob ''**.Example.com'' ''a.B.example.com'' = Inr True" by code_simp
  show ?thesis using host_matches_semantics [OF m] m by blast
qed

text \<open>C13. The overlap test never misses: when two authored patterns both match some host,
  \<open>host_patterns_overlap\<close> answers true. A false answer is therefore a proof of disjointness.\<close>
theorem host_patterns_overlap_conservative:
  assumes "glob_literal G"
    and "host_matches G left h = Inr True" and "host_matches G right h = Inr True"
  shows "host_patterns_overlap G left right = Inr True"
  using assms
  by (auto simp: host_matches_Inr_iff host_patterns_overlap_def
      intro: HostPattern_overlaps_sound HostPattern_new_wf)

theorem host_patterns_overlap_conservative_witness:
  "host_patterns_overlap star_glob ''*.example.com'' ''**.com'' = Inr True"
proof -
  have "host_matches star_glob ''*.example.com'' ''api.example.com'' = Inr True" by code_simp
  moreover have "host_matches star_glob ''**.com'' ''api.example.com'' = Inr True" by code_simp
  ultimately show ?thesis by (rule host_patterns_overlap_conservative [OF star_glob_literal])
qed

text \<open>C33. The middleware selector test is conservative: when a compiled selector matches a host
  (an include matches it and no exclude does) and the candidate endpoint pattern matches the same
  host, \<open>selector_may_match_pattern\<close> answers true, whatever shortcut the exclude check took.\<close>
theorem selector_may_match_conservative:
  assumes "glob_literal G" and "HostSelector_new G incl excl = Inr sel"
    and "HostSelector_matches G sel h" and "host_matches G candidate h = Inr True"
  shows "selector_may_match_pattern G incl excl candidate = Inr True"
  using assms
  by (auto simp: host_matches_Inr_iff selector_may_match_pattern_def
      intro: may_match_pattern_sound HostSelector_new_wf HostPattern_new_wf)

theorem selector_may_match_conservative_witness:
  "selector_may_match_pattern star_glob [''*.example.com''] [''internal.example.com''] ''**.com'' = Inr True"
proof -
  let ?pat = "\<lambda>s. \<lparr>hp_source = s, hp_labels = map label_of (split_on CHR ''.'' s)\<rparr>"
  let ?sel = "\<lparr>hs_includes = [?pat ''*.example.com''], hs_excludes = [?pat ''internal.example.com'']\<rparr>"
  have "HostSelector_new star_glob [''*.example.com''] [''internal.example.com''] = Inr ?sel" by code_simp
  moreover have "HostSelector_matches star_glob ?sel ''api.example.com''" by code_simp
  moreover have "host_matches star_glob ''**.com'' ''api.example.com'' = Inr True" by code_simp
  ultimately show ?thesis by (rule selector_may_match_conservative [OF star_glob_literal])
qed

end
