(* ===== verification/Policy_Violation.thy ===== *)
theory Policy_Violation
  imports L7_Validate
begin

text \<open>
  The safety violations of a sandbox policy and their messages
  (\<open>PolicyViolation\<close> and \<open>PolicyValidationError\<close> of \<open>openshell-policy/src/lib.rs\<close>), with the
  limits they mention.
\<close>

section \<open>Definitions\<close>

definition MIN_SANDBOX_UID :: nat where "MIN_SANDBOX_UID = 1"
definition MAX_SANDBOX_UID :: nat where "MAX_SANDBOX_UID = 4294967294"
definition MAX_FILESYSTEM_PATHS :: nat where "MAX_FILESYSTEM_PATHS = 256"
definition MAX_PATH_LENGTH :: nat where "MAX_PATH_LENGTH = 4096"
definition MAX_MIDDLEWARE_CONFIGS :: nat where "MAX_MIDDLEWARE_CONFIGS = 10"
definition MAX_MIDDLEWARE_SELECTOR_PATTERNS :: nat where "MAX_MIDDLEWARE_SELECTOR_PATTERNS = 32"

definition LANDLOCK_COMPATIBILITY_VALUES :: "string list" where
  "LANDLOCK_COMPATIBILITY_VALUES = [''best_effort'', ''hard_requirement'']"

definition is_valid_landlock_compatibility :: "string \<Rightarrow> bool" where
  "is_valid_landlock_compatibility value =
     (value = [] \<or> value \<in> set LANDLOCK_COMPATIBILITY_VALUES)"

datatype (plugins only: code size) PolicyViolation =
    InvalidProcessIdentity string string
  | PathTraversal string
  | RelativePath string
  | OverlyBroadPath string
  | FieldTooLong string nat
  | TooManyPaths nat
  | TldWildcard string string
  | MissingEndpointHost string
  | MissingTcpEndpointHost string
  | TcpEndpointIpLiteral string string
  | InvalidTcpEndpointHost string string string
  | MissingEndpointPort string string
  | InvalidEndpointPort string string nat
  | InvalidHostWildcard string string
  | MissingSigningService string string
  | UnknownCredentialSigning string string string
  | CredentialSigningWithBodyRewrite string string
  | InvalidL7Endpoint string nat string
  | InvalidMiddlewareConfig string string
  | TooManyMiddlewareConfigs nat
  | DuplicateMiddlewareOrder int string string
  | TooManyMiddlewareSelectorPatterns string nat
  | MiddlewareTlsSkipConflict string string string
  | InvalidLandlockCompatibility string
  | MissingMcpVersions string string
  | McpOptionsOnNonMcpEndpoint string string string
  | UnsupportedMcpVersion string string string
  | DuplicateMcpVersion string string string

definition MCP_VERSION_REMEDIATION :: string where
  "MCP_VERSION_REMEDIATION =
     ''omit mcp.versions to use the pinned default revision, use an exact supported revision, or ''
     @ ''omit protocol and mcp for deliberate uninspected L4 passthrough only when that weaker ''
     @ ''boundary is acceptable''"

abbreviation (input) in_policy :: "string \<Rightarrow> string \<Rightarrow> string" where
  "in_policy name rest \<equiv> ''network policy '' @ quoted name @ '': '' @ rest"

primrec violation_display :: "PolicyViolation \<Rightarrow> string" where
  "violation_display (InvalidProcessIdentity field value) =
     field @ '' must be '' @ quoted ''sandbox'' @ '' or a numeric UID/GID in range [''
     @ show_nat MIN_SANDBOX_UID @ '', '' @ show_nat MAX_SANDBOX_UID @ ''], got '' @ quoted value"
| "violation_display (PathTraversal path) =
     ''path contains '' @ quoted ''..'' @ '' traversal component: '' @ path"
| "violation_display (RelativePath path) =
     ''path must be absolute (start with '' @ quoted ''/'' @ ''): '' @ path"
| "violation_display (OverlyBroadPath path) = ''read-write path is overly broad: '' @ path"
| "violation_display (FieldTooLong path len) =
     ''path exceeds maximum length ('' @ show_nat len @ '' > '' @ show_nat MAX_PATH_LENGTH
     @ ''): '' @ path"
| "violation_display (TooManyPaths n) =
     ''too many filesystem paths ('' @ show_nat n @ '' > '' @ show_nat MAX_FILESYSTEM_PATHS @ '')''"
| "violation_display (TldWildcard name host) =
     in_policy name (''TLD wildcard '' @ quoted host
       @ '' is not allowed; use subdomain wildcards like '' @ quoted ''*.example.com'' @ '' instead'')"
| "violation_display (MissingEndpointHost name) =
     in_policy name (''endpoint host must not be empty unless allowed_ips constrains a ''
       @ ''non-TCP proxy endpoint'')"
| "violation_display (MissingTcpEndpointHost name) =
     in_policy name (''protocol tcp requires a DNS hostname; hostless allowed_ips endpoints are ''
       @ ''supported only by the forward proxy'')"
| "violation_display (TcpEndpointIpLiteral name host) =
     in_policy name (''protocol tcp endpoint '' @ quoted host
       @ '' must use a DNS hostname, not an IP literal; direct IP connections bypass policy DNS ''
       @ ''and are blocked'')"
| "violation_display (InvalidTcpEndpointHost name host reason) =
     in_policy name (''protocol tcp endpoint has invalid DNS host selector '' @ quoted host
       @ '': '' @ reason)"
| "violation_display (MissingEndpointPort name host) =
     in_policy name (''endpoint '' @ quoted host @ '' must declare at least one port'')"
| "violation_display (InvalidEndpointPort name host port) =
     in_policy name (''endpoint '' @ quoted host @ '' has invalid port '' @ show_nat port
       @ ''; expected 1..=65535'')"
| "violation_display (InvalidHostWildcard name host) =
     in_policy name (''invalid host wildcard '' @ quoted host
       @ ''; middle DNS label wildcards must be the entire label '' @ quoted ''*''
       @ '' and recursive '' @ quoted ''**'' @ '' is only allowed as the entire first label'')"
| "violation_display (MissingSigningService name host) =
     in_policy name (''endpoint '' @ quoted host
       @ '' has credential_signing set but signing_service is empty'')"
| "violation_display (UnknownCredentialSigning name host value) =
     in_policy name (''endpoint '' @ quoted host @ '' has unrecognized credential_signing value ''
       @ quoted value @ '' (expected sigv4, sigv4:body, or sigv4:no_body)'')"
| "violation_display (CredentialSigningWithBodyRewrite name host) =
     in_policy name (''endpoint '' @ quoted host
       @ '' has both credential_signing and request_body_credential_rewrite set; these options ''
       @ ''are mutually exclusive'')"
| "violation_display (InvalidL7Endpoint name index reason) =
     in_policy name (''endpoint '' @ show_nat index @ '' has invalid L7 configuration: '' @ reason)"
| "violation_display (InvalidMiddlewareConfig name reason) =
     ''middleware config '' @ quoted name @ '' is invalid: '' @ reason"
| "violation_display (TooManyMiddlewareConfigs n) =
     ''too many middleware configs ('' @ show_nat n @ '' > ''
     @ show_nat MAX_MIDDLEWARE_CONFIGS @ '')''"
| "violation_display (DuplicateMiddlewareOrder order first_name second_name) =
     ''middleware configs '' @ quoted first_name @ '' and '' @ quoted second_name
     @ '' use duplicate order '' @ show_int order"
| "violation_display (TooManyMiddlewareSelectorPatterns name n) =
     ''middleware config '' @ quoted name @ '' has too many selector patterns (''
     @ show_nat n @ '' > '' @ show_nat MAX_MIDDLEWARE_SELECTOR_PATTERNS @ '')''"
| "violation_display (MiddlewareTlsSkipConflict middleware_name name host) =
     ''middleware config '' @ quoted middleware_name @ '' selects network policy '' @ quoted name
     @ '' tls: skip endpoint '' @ quoted host"
| "violation_display (InvalidLandlockCompatibility value) =
     ''invalid landlock.compatibility '' @ quoted value @ ''; accepted: ''
     @ join '', '' LANDLOCK_COMPATIBILITY_VALUES"
| "violation_display (MissingMcpVersions name host) =
     in_policy name (''MCP endpoint '' @ quoted host @ '' has no materialized protocol version'')"
| "violation_display (McpOptionsOnNonMcpEndpoint name host protocol) =
     in_policy name (''endpoint '' @ quoted host @ '' uses protocol '' @ quoted protocol
       @ '' and cannot configure mcp options'')"
| "violation_display (UnsupportedMcpVersion name host version) =
     in_policy name (''MCP endpoint '' @ quoted host @ '' has unsupported protocol version ''
       @ quoted version @ ''; '' @ MCP_VERSION_REMEDIATION)"
| "violation_display (DuplicateMcpVersion name host version) =
     in_policy name (''MCP endpoint '' @ quoted host @ '' repeats protocol version '' @ quoted version)"

type_synonym PolicyValidationError = "PolicyViolation list"

definition validation_error_display :: "PolicyValidationError \<Rightarrow> string" where
  "validation_error_display violations =
     ''sandbox policy validation failed''
     @ concat (map (\<lambda>v. ''; '' @ violation_display v) violations)"

subsection \<open>Process identities\<close>

definition is_valid_sandbox_identity :: "string \<Rightarrow> bool" where
  "is_valid_sandbox_identity value =
     (value = ''sandbox''
      \<or> (case parse_unsigned (2 ^ 32) value of
            None \<Rightarrow> False
          | Some uid \<Rightarrow> MIN_SANDBOX_UID \<le> uid \<and> uid \<le> MAX_SANDBOX_UID))"

definition ensure_sandbox_process_identity :: "SandboxPolicy \<Rightarrow> SandboxPolicy" where
  "ensure_sandbox_process_identity policy =
     (let process = (case sp_process policy of
                       Some p \<Rightarrow> p | None \<Rightarrow> \<lparr>pp_run_as_user = [], pp_run_as_group = []\<rparr>);
          process = (if pp_run_as_user process = [] then process\<lparr>pp_run_as_user := ''sandbox''\<rparr> else process);
          process = (if pp_run_as_group process = [] then process\<lparr>pp_run_as_group := ''sandbox''\<rparr> else process)
      in policy\<lparr>sp_process := Some process\<rparr>)"

subsection \<open>Truncation for messages\<close>

text \<open>\<open>is_char_boundary\<close>: the end of the string, or a byte that starts a sequence.\<close>

definition is_char_boundary :: "string \<Rightarrow> nat \<Rightarrow> bool" where
  "is_char_boundary s i =
     (i = 0 \<or> i = length s \<or> (i < length s \<and> (byte (s ! i) < 128 \<or> 192 \<le> byte (s ! i))))"

fun back_off :: "string \<Rightarrow> nat \<Rightarrow> nat" where
  "back_off s 0 = 0"
| "back_off s (Suc i) = (if is_char_boundary s (Suc i) then Suc i else back_off s i)"

definition truncate_for_display :: "string \<Rightarrow> string" where
  "truncate_for_display s =
     (if length s \<le> 80 then s else take (back_off s 77) s @ ''...'')"

subsection \<open>The restrictive default\<close>

definition restrictive_default_policy :: SandboxPolicy where
  "restrictive_default_policy =
     \<lparr>sp_version = 1,
      sp_filesystem = Some \<lparr>fs_include_workdir = True,
        fs_read_only = [''/bin'', ''/usr'', ''/lib'', ''/proc'', ''/dev/urandom'', ''/etc'', ''/var/log''],
        fs_read_write = [''/tmp'', ''/dev/null'']\<rparr>,
      sp_landlock = Some \<lparr>ll_compatibility = ''best_effort''\<rparr>,
      sp_process = None,
      sp_network_policies = fmempty,
      sp_network_middlewares = fmempty\<rparr>"

section \<open>Lemmas\<close>

lemma back_off_boundary: "is_char_boundary s (back_off s i)"
  by (induction i) (auto simp: is_char_boundary_def)

lemma back_off_le: "back_off s i \<le> i"
  by (induction i) (auto simp: le_SucI)

lemma truncate_for_display_length: "length (truncate_for_display s) \<le> 80"
  using back_off_le [of s 77] by (auto simp: truncate_for_display_def)

lemma is_valid_sandbox_identity_not_root:
  "is_valid_sandbox_identity v \<Longrightarrow> parse_unsigned (2 ^ 32) v \<noteq> Some 0"
  by (auto simp: is_valid_sandbox_identity_def MIN_SANDBOX_UID_def parse_unsigned_def
      starts_with_def is_ascii_digit_def byte_def Let_def split: option.splits)

lemma ensure_sandbox_process_identity_idem:
  "ensure_sandbox_process_identity (ensure_sandbox_process_identity p) = ensure_sandbox_process_identity p"
  by (auto simp: ensure_sandbox_process_identity_def Let_def split: option.splits)

lemma ensure_sandbox_process_identity_set:
  "\<exists>pr. sp_process (ensure_sandbox_process_identity p) = Some pr
        \<and> pp_run_as_user pr \<noteq> [] \<and> pp_run_as_group pr \<noteq> []"
  by (auto simp: ensure_sandbox_process_identity_def Let_def split: option.splits)

end
