(* ===== verification/Policy_Middleware.thy ===== *)
theory Policy_Middleware
  imports Policy_Violation Host_Pattern
begin

text \<open>
  Structural validation of middleware configurations
  (\<open>validate\<close> of \<open>openshell-policy/src/middleware.rs\<close>). A fail-closed middleware must be able to
  inspect what it selects, so its host selector may not meet a \<open>tls: skip\<close> endpoint.
\<close>

section \<open>Definitions\<close>

definition rule_display_name :: "string \<Rightarrow> NetworkPolicyRule \<Rightarrow> string" where
  "rule_display_name key rule = (if nr_name rule = [] then key else nr_name rule)"

definition requires_inspection :: "NetworkMiddlewareConfig \<Rightarrow> bool" where
  "requires_inspection m = (mc_on_error m \<in> {'''', ''fail_closed''})"

definition invalid_selector_patterns ::
  "glob_lib \<Rightarrow> string \<Rightarrow> MiddlewareEndpointSelector \<Rightarrow> PolicyViolation list" where
  "invalid_selector_patterns G name selector =
     concat (map (\<lambda>pattern.
       case HostPattern_new G pattern of
         Inl reason \<Rightarrow> [InvalidMiddlewareConfig name
           (''endpoint selector pattern '' @ quoted pattern @ '' is invalid: '' @ reason)]
       | Inr _ \<Rightarrow> []) (ms_include selector @ ms_exclude selector))"

definition compiled_selector :: "glob_lib \<Rightarrow> MiddlewareEndpointSelector \<Rightarrow> HostSelector option" where
  "compiled_selector G selector =
     (if ms_include selector \<noteq> []
         \<and> list_all (\<lambda>p. isOk (HostPattern_new G p)) (ms_include selector @ ms_exclude selector)
      then (case HostSelector_new G (ms_include selector) (ms_exclude selector) of
              Inl _ \<Rightarrow> None | Inr s \<Rightarrow> Some s)
      else None)"

definition overlaps_tls_skip ::
  "glob_lib \<Rightarrow> NetworkMiddlewareConfig \<Rightarrow> HostSelector option \<Rightarrow> NetworkEndpoint \<Rightarrow> bool" where
  "overlaps_tls_skip G m sel endpoint =
     (requires_inspection m \<and> ne_tls endpoint = TLS_SKIP
      \<and> (case sel of
            None \<Rightarrow> False
          | Some s \<Rightarrow> (case HostPattern_new G (ne_host endpoint) of
                        Inl _ \<Rightarrow> False | Inr p \<Rightarrow> may_match_pattern G s p)))"

definition tls_skip_conflicts ::
  "glob_lib \<Rightarrow> SandboxPolicy \<Rightarrow> string \<Rightarrow> NetworkMiddlewareConfig \<Rightarrow> HostSelector option
   \<Rightarrow> PolicyViolation list" where
  "tls_skip_conflicts G policy name m sel =
     concat (map (\<lambda>(key, rule).
       map (\<lambda>endpoint. MiddlewareTlsSkipConflict name (rule_display_name key rule) (ne_host endpoint))
         (filter (overlaps_tls_skip G m sel) (nr_endpoints rule)))
       (fm_items (sp_network_policies policy)))"

definition middleware_entry_violations ::
  "glob_lib \<Rightarrow> SandboxPolicy \<Rightarrow> string \<Rightarrow> NetworkMiddlewareConfig \<Rightarrow> PolicyViolation list" where
  "middleware_entry_violations G policy name m =
     push_if (mc_middleware m = []) (InvalidMiddlewareConfig name ''middleware must not be empty'')
     @ push_if (mc_on_error m \<notin> {'''', ''fail_closed'', ''fail_open''})
         (InvalidMiddlewareConfig name (''invalid on_error '' @ quoted (mc_on_error m)))
     @ (case mc_endpoints m of
          None \<Rightarrow> [InvalidMiddlewareConfig name ''endpoint selector is required'']
        | Some selector \<Rightarrow>
            push_if (ms_include selector = [])
              (InvalidMiddlewareConfig name ''endpoint selector must include at least one host pattern'')
            @ (let selector_patterns = length (ms_include selector) + length (ms_exclude selector)
               in if selector_patterns > MAX_MIDDLEWARE_SELECTOR_PATTERNS
                  then [TooManyMiddlewareSelectorPatterns name selector_patterns]
                  else invalid_selector_patterns G name selector
                       @ tls_skip_conflicts G policy name m (compiled_selector G selector)))"

text \<open>
  The loop over the configurations in key order. \<open>orders\<close> is the \<open>BTreeMap\<close> from an execution
  order to the configuration that used it last.
\<close>

fun middleware_loop ::
  "glob_lib \<Rightarrow> SandboxPolicy \<Rightarrow> (int, string) fmap \<Rightarrow> (string \<times> NetworkMiddlewareConfig) list
   \<Rightarrow> PolicyViolation list" where
  "middleware_loop G policy orders [] = []"
| "middleware_loop G policy orders ((name, m) # rest) =
     push_if (name = []) (InvalidMiddlewareConfig name ''name must not be empty'')
     @ (case fmlookup orders (mc_order m) of
          None \<Rightarrow> []
        | Some first_name \<Rightarrow> [DuplicateMiddlewareOrder (mc_order m) first_name name])
     @ middleware_entry_violations G policy name m
     @ middleware_loop G policy (fmupd (mc_order m) name orders) rest"

definition middleware_validate :: "glob_lib \<Rightarrow> SandboxPolicy \<Rightarrow> PolicyViolation list" where
  "middleware_validate G policy =
     push_if (fm_len (sp_network_middlewares policy) > MAX_MIDDLEWARE_CONFIGS)
       (TooManyMiddlewareConfigs (fm_len (sp_network_middlewares policy)))
     @ middleware_loop G policy fmempty (fm_items (sp_network_middlewares policy))"

section \<open>Lemmas\<close>

lemma compiled_selector_eq:
  assumes "HostSelector_new G (ms_include s) (ms_exclude s) = Inr sel"
  shows "compiled_selector G s = Some sel"
proof -
  from assms have "ms_include s \<noteq> []"
    and ok: "\<exists>xs. mapE (HostPattern_new G) (ms_include s) = Inr xs"
            "\<exists>xs. mapE (HostPattern_new G) (ms_exclude s) = Inr xs"
    by (auto simp: HostSelector_new_def split: if_splits)
  then show ?thesis
    using assms ok [unfolded mapE_Inr_iff] by (auto simp: compiled_selector_def list_all_iff)
qed

lemma middleware_loop_Nil_entry:
  "middleware_loop G policy orders items = [] \<Longrightarrow> (name, m) \<in> set items
   \<Longrightarrow> name \<noteq> [] \<and> middleware_entry_violations G policy name m = []"
  by (induction G policy orders items rule: middleware_loop.induct) auto

lemma middleware_loop_Nil_orders:
  "middleware_loop G policy orders items = []
   \<Longrightarrow> distinct (map (mc_order \<circ> snd) items) \<and> (\<forall>x\<in>set items. mc_order (snd x) \<notin> fmdom' orders)"
  by (induction G policy orders items rule: middleware_loop.induct)
    (auto simp: fmdom'_notI split: option.splits)

lemma middleware_validate_entry:
  "middleware_validate G policy = [] \<Longrightarrow> fmlookup (sp_network_middlewares policy) name = Some m
   \<Longrightarrow> name \<noteq> [] \<and> middleware_entry_violations G policy name m = []"
  using middleware_loop_Nil_entry [of G policy fmempty "fm_items (sp_network_middlewares policy)" name m]
  by (simp add: middleware_validate_def set_fm_items)

text \<open>In a validated policy a fail-closed middleware and a \<open>tls: skip\<close> endpoint share no host.\<close>

lemma middleware_skip_disjoint:
  assumes G: "glob_literal G" and ok: "middleware_validate G policy = []"
    and m: "fmlookup (sp_network_middlewares policy) name = Some m" "requires_inspection m"
      "mc_endpoints m = Some s" "HostSelector_new G (ms_include s) (ms_exclude s) = Inr sel"
    and ep: "fmlookup (sp_network_policies policy) key = Some rule" "ep \<in> set (nr_endpoints rule)"
      "ne_tls ep = TLS_SKIP"
    and h: "HostSelector_matches G sel h" "host_matches G (ne_host ep) h = Inr True"
  shows False
proof -
  obtain p where p: "HostPattern_new G (ne_host ep) = Inr p" "HostPattern_matches G p h"
    using h(2) by (auto simp: host_matches_Inr_iff)
  have "may_match_pattern G sel p"
    using may_match_pattern_sound [OF G HostSelector_new_wf [OF m(4)] HostPattern_new_wf [OF p(1)] h(1) p(2)] .
  then have "overlaps_tls_skip G m (compiled_selector G s) ep"
    using m ep p compiled_selector_eq [OF m(4)] by (simp add: overlaps_tls_skip_def)
  moreover have "tls_skip_conflicts G policy name m (compiled_selector G s) = []"
    using middleware_validate_entry [OF ok m(1)] m(3)
    by (auto simp: middleware_entry_violations_def Let_def split: if_splits)
  moreover have "(key, rule) \<in> set (fm_items (sp_network_policies policy))"
    using ep(1) by (simp add: set_fm_items)
  ultimately show False using ep(2)
    by (fastforce simp: tls_skip_conflicts_def filter_empty_conv)
qed

end
