(* ===== verification/Std_Net.thy ===== *)
theory Std_Net
  imports Prelude
begin

text \<open>
  \<open>str::parse::<IpAddr>\<close> of the standard library, as far as the validator uses it: whether a
  host is an IP literal. The readers consume a prefix and return the rest, as
  \<open>core::net::parser\<close> does.
\<close>

section \<open>Definitions\<close>

definition to_digit :: "nat \<Rightarrow> char \<Rightarrow> nat option" where
  "to_digit radix c =
     (let d = (if is_ascii_digit c then byte c - 48
               else if 97 \<le> byte c \<and> byte c \<le> 122 then byte c - 87
               else if 65 \<le> byte c \<and> byte c \<le> 90 then byte c - 55
               else radix)
      in if d < radix then Some d else None)"

definition read_digits :: "nat \<Rightarrow> string \<Rightarrow> string \<times> string" where
  "read_digits radix s =
     (takeWhile (\<lambda>c. to_digit radix c \<noteq> None) s, dropWhile (\<lambda>c. to_digit radix c \<noteq> None) s)"

definition read_number :: "nat \<Rightarrow> nat \<Rightarrow> bool \<Rightarrow> nat \<Rightarrow> string \<Rightarrow> (nat \<times> string) option" where
  "read_number radix max_digits allow_zero_prefix limit s =
     (let (ds, rest) = read_digits radix s;
          v = foldl (\<lambda>acc c. acc * radix + the (to_digit radix c)) 0 ds
      in if ds = [] \<or> length ds > max_digits then None
         else if \<not> allow_zero_prefix \<and> hd ds = CHR ''0'' \<and> length ds > 1 then None
         else if v < limit then Some (v, rest) else None)"

definition read_separator :: "char \<Rightarrow> nat \<Rightarrow> (string \<Rightarrow> ('a \<times> string) option) \<Rightarrow> string \<Rightarrow> ('a \<times> string) option" where
  "read_separator sep index reader s =
     (if index = 0 then reader s
      else (case s of
              [] \<Rightarrow> None
            | c # rest \<Rightarrow> if c = sep then reader rest else None))"

definition read_octet :: "nat \<Rightarrow> string \<Rightarrow> (nat \<times> string) option" where
  "read_octet i = read_separator CHR ''.'' i (read_number 10 3 False 256)"

definition read_ipv4_addr :: "string \<Rightarrow> (nat list \<times> string) option" where
  "read_ipv4_addr s =
     (case read_octet 0 s of None \<Rightarrow> None | Some (a, s) \<Rightarrow>
     (case read_octet 1 s of None \<Rightarrow> None | Some (b, s) \<Rightarrow>
     (case read_octet 2 s of None \<Rightarrow> None | Some (c, s) \<Rightarrow>
     (case read_octet 3 s of None \<Rightarrow> None | Some (d, s) \<Rightarrow> Some ([a, b, c, d], s)))))"

text \<open>
  \<open>read_groups\<close> with \<open>limit\<close> slots, from index \<open>i\<close>: the groups read, whether a trailing
  IPv4 address ended them, and the rest.
\<close>

function read_groups :: "nat \<Rightarrow> nat \<Rightarrow> string \<Rightarrow> nat list \<times> bool \<times> string" where
  "read_groups limit i s =
     (if limit \<le> i then ([], False, s)
      else
        (case (if i + 1 < limit then read_separator CHR '':'' i read_ipv4_addr s else None) of
           Some (v4, rest) \<Rightarrow>
             ([v4 ! 0 * 256 + v4 ! 1, v4 ! 2 * 256 + v4 ! 3], True, rest)
         | None \<Rightarrow>
             (case read_separator CHR '':'' i (read_number 16 4 True 65536) s of
                None \<Rightarrow> ([], False, s)
              | Some (g, rest) \<Rightarrow>
                  (let (gs, v4, rest') = read_groups limit (i + 1) rest in (g # gs, v4, rest')))))"
  by pat_completeness auto
termination by (relation "measure (\<lambda>(limit, i, s). limit - i)") auto

declare read_groups.simps [simp del]

definition read_ipv6_addr :: "string \<Rightarrow> (nat list \<times> string) option" where
  "read_ipv6_addr s =
     (let (head, head_ipv4, rest) = read_groups 8 0 s
      in if length head = 8 then Some (head, rest)
         else if head_ipv4 then None
         else (case rest of
                 c # d # rest' \<Rightarrow>
                   if c = CHR '':'' \<and> d = CHR '':'' then
                     (let (tail, _, rest'') = read_groups (8 - (length head + 1)) 0 rest'
                      in Some (head @ replicate (8 - length head - length tail) 0 @ tail, rest''))
                   else None
               | _ \<Rightarrow> None))"

datatype IpAddr = V4 "nat list" | V6 "nat list"

definition parse_ip_addr :: "string \<Rightarrow> IpAddr option" where
  "parse_ip_addr s =
     (case (case read_ipv4_addr s of
              Some (o4, rest) \<Rightarrow> Some (V4 o4, rest)
            | None \<Rightarrow> (case read_ipv6_addr s of Some (gs, rest) \<Rightarrow> Some (V6 gs, rest) | None \<Rightarrow> None)) of
        Some (ip, []) \<Rightarrow> Some ip
      | _ \<Rightarrow> None)"

section \<open>Lemmas\<close>

lemma read_number_bound: "read_number radix m z limit s = Some (v, rest) \<Longrightarrow> v < limit"
  by (auto simp: read_number_def Let_def split: if_splits prod.splits)

lemma read_octet_bound: "read_octet i s = Some (v, rest) \<Longrightarrow> v < 256"
  by (auto simp: read_octet_def read_separator_def split: if_splits list.splits dest: read_number_bound)

lemma read_ipv4_addr_octets:
  assumes "read_ipv4_addr s = Some (os, rest)"
  shows "length os = 4 \<and> (\<forall>x\<in>set os. x < 256)"
proof -
  obtain a b c d s1 s2 s3 where
    "read_octet 0 s = Some (a, s1)" "read_octet 1 s1 = Some (b, s2)" "read_octet 2 s2 = Some (c, s3)"
    "read_octet 3 s3 = Some (d, rest)" "os = [a, b, c, d]"
    using assms by (auto simp: read_ipv4_addr_def split: option.splits)
  then have "a < 256" "b < 256" "c < 256" "d < 256" "os = [a, b, c, d]"
    by (blast intro: read_octet_bound)+
  then show ?thesis by simp
qed

end
