(* ===== verification/Policy_Validate.thy ===== *)
theory Policy_Validate
  imports Policy_Middleware Std_Net
begin

text \<open>
  Whole-policy validation and MCP canonicalization
  (\<open>validate_sandbox_policy\<close>, \<open>validate_and_canonicalize_sandbox_policy\<close> and their helpers in
  \<open>openshell-policy/src/lib.rs\<close>). The body of \<open>validate_sandbox_policy_with_mcp_presence\<close> is cut
  into one definition per group of checks, composed in the order of the source. The
  third-party DNS name parser is a parameter.
\<close>

section \<open>Definitions\<close>

record dns_lib =
  name_from_ascii :: "string \<Rightarrow> string + string"
  name_is_root :: "string \<Rightarrow> bool"

datatype McpVersionPresence = RequireMaterialized | AllowDefaultable

definition violations_result :: "PolicyViolation list \<Rightarrow> PolicyViolation list + unit" where
  "violations_result violations = (if violations = [] then Inr () else Inl violations)"

subsection \<open>Filesystem paths\<close>

definition filesystem_path_violations :: "string \<Rightarrow> PolicyViolation list" where
  "filesystem_path_violations path_str =
     (if length path_str > MAX_PATH_LENGTH
      then [FieldTooLong (truncate_for_display path_str) (length path_str)]
      else push_if (\<not> starts_with ''/'' path_str) (RelativePath path_str)
           @ push_if (''..'' \<in> set (split_on CHR ''/'' path_str)) (PathTraversal path_str))"

definition validate_filesystem_paths ::
  "string list \<Rightarrow> string list \<Rightarrow> PolicyViolation list + unit" where
  "validate_filesystem_paths read_only read_write =
     violations_result
       (push_if (length read_only + length read_write > MAX_FILESYSTEM_PATHS)
          (TooManyPaths (length read_only + length read_write))
        @ concat (map filesystem_path_violations (read_only @ read_write))
        @ concat (map (\<lambda>path_str. push_if (trim_end_matches CHR ''/'' path_str = [])
                                  (OverlyBroadPath path_str)) read_write))"

text \<open>
  A filesystem path reaches the enforcement side after \<open>normalize_path\<close>
  (\<open>openshell-policy-schema/src/lib.rs\<close>), which pushes the components of the path, without the
  \<open>.\<close> ones, onto an empty \<open>PathBuf\<close>. \<open>path_components\<close> is \<open>Path::components\<close> on Unix: repeated
  separators are skipped, and a \<open>.\<close> component is reported only at the start of a relative path.
\<close>

datatype path_component = RootDir | CurDir | ParentDir | NormalDir string

definition part_component :: "string \<Rightarrow> path_component" where
  "part_component part = (if part = ''..'' then ParentDir else NormalDir part)"

definition path_components :: "string \<Rightarrow> path_component list" where
  "path_components path =
     (let parts = filter (\<lambda>part. part \<noteq> []) (split_on CHR ''/'' path);
          tail = map part_component (filter (\<lambda>part. part \<noteq> ''.'') parts)
      in if starts_with ''/'' path then RootDir # tail
         else if first_or [] parts = ''.'' then CurDir # tail else tail)"

definition path_push :: "string \<Rightarrow> string \<Rightarrow> string" where
  "path_push buffer part =
     (if starts_with ''/'' part then part
      else if buffer = [] \<or> last buffer = CHR ''/'' then buffer @ part
      else buffer @ ''/'' @ part)"

definition normalize_component :: "path_component \<Rightarrow> string \<Rightarrow> string" where
  "normalize_component component normalized =
     (case component of
        RootDir \<Rightarrow> path_push normalized ''/''
      | CurDir \<Rightarrow> normalized
      | ParentDir \<Rightarrow> path_push normalized ''..''
      | NormalDir part \<Rightarrow> path_push normalized part)"

definition normalize_path :: "string \<Rightarrow> string" where
  "normalize_path path = fold normalize_component (path_components path) []"

subsection \<open>Hosts\<close>

definition host_wildcard_shape_invalid :: "string \<Rightarrow> bool" where
  "host_wildcard_shape_invalid host =
     (if host = ''*'' \<or> host = ''**'' then True
      else if CHR ''*'' \<notin> set host then False
      else
        let labels = split_on CHR ''.'' host;
            first_label = first_or [] labels
        in if contains_sub ''**'' first_label \<and> first_label \<noteq> ''**'' then True
           else list_ex (\<lambda>label. contains_sub ''**'' label \<or> (CHR ''*'' \<in> set label \<and> label \<noteq> ''*''))
                  (drop 1 labels))"

definition validate_tcp_dns_host_selector :: "glob_lib \<Rightarrow> dns_lib \<Rightarrow> string \<Rightarrow> string + unit" where
  "validate_tcp_dns_host_selector G N host =
     (if str_trim host \<noteq> host then Inl ''leading or trailing whitespace is not allowed''
      else if ends_with ''.'' host then Inl ''omit the trailing DNS root dot''
      else
        bindE (HostSelector_new G [host] []) (\<lambda>_.
          let representative =
                join ''.'' (map (\<lambda>label. if label = ''**'' then ''x'' else replace_char CHR ''*'' ''x'' label)
                             (split_on CHR ''.'' host))
          in case name_from_ascii N (representative @ ''.'') of
               Inl e \<Rightarrow> Inl (''selector cannot represent a valid DNS name: '' @ e)
             | Inr parsed \<Rightarrow>
                 if name_is_root N parsed then Inl ''DNS root is not a destination hostname''
                 else Inr ()))"

definition endpoint_host_violations ::
  "glob_lib \<Rightarrow> dns_lib \<Rightarrow> string \<Rightarrow> NetworkEndpoint \<Rightarrow> PolicyViolation list" where
  "endpoint_host_violations G N name ep =
     (let explicit_tcp = is_explicit_tcp_protocol (ne_protocol ep)
      in if str_trim (ne_host ep) = [] \<and> explicit_tcp then [MissingTcpEndpointHost name]
         else if str_trim (ne_host ep) = [] \<and> ne_allowed_ips ep = [] then [MissingEndpointHost name]
         else if explicit_tcp then
           (if parse_ip_addr (ne_host ep) \<noteq> None then [TcpEndpointIpLiteral name (ne_host ep)]
            else (case validate_tcp_dns_host_selector G N (ne_host ep) of
                    Inl reason \<Rightarrow> [InvalidTcpEndpointHost name (ne_host ep) reason]
                  | Inr _ \<Rightarrow> []))
         else [])"

subsection \<open>Ports and host wildcards\<close>

definition effective_ports :: "NetworkEndpoint \<Rightarrow> nat list" where
  "effective_ports ep =
     (if ne_ports ep = [] then (if ne_port ep \<noteq> 0 then [ne_port ep] else []) else ne_ports ep)"

definition endpoint_port_violations :: "string \<Rightarrow> NetworkEndpoint \<Rightarrow> PolicyViolation list" where
  "endpoint_port_violations name ep =
     push_if (effective_ports ep = []) (MissingEndpointPort name (ne_host ep))
     @ concat (map (\<lambda>port. push_if (\<not> (1 \<le> port \<and> port \<le> 65535))
                             (InvalidEndpointPort name (ne_host ep) port)) (effective_ports ep))"

definition endpoint_wildcard_violations :: "string \<Rightarrow> NetworkEndpoint \<Rightarrow> PolicyViolation list" where
  "endpoint_wildcard_violations name ep =
     push_if (CHR ''*'' \<in> set (ne_host ep)
              \<and> (starts_with ''*.'' (ne_host ep) \<or> starts_with ''**.'' (ne_host ep))
              \<and> length (split_on CHR ''.'' (ne_host ep)) \<le> 2)
       (TldWildcard name (ne_host ep))
     @ push_if (host_wildcard_shape_invalid (ne_host ep)) (InvalidHostWildcard name (ne_host ep))"

subsection \<open>Credential signing\<close>

definition endpoint_signing_violations :: "string \<Rightarrow> NetworkEndpoint \<Rightarrow> PolicyViolation list" where
  "endpoint_signing_violations name ep =
     push_if (ne_credential_signing ep \<noteq> []
              \<and> ne_credential_signing ep \<notin> {''sigv4'', ''sigv4:body'', ''sigv4:no_body''})
       (UnknownCredentialSigning name (ne_host ep) (ne_credential_signing ep))
     @ push_if (ne_credential_signing ep \<noteq> [] \<and> ne_signing_service ep = [])
         (MissingSigningService name (ne_host ep))
     @ push_if (ne_credential_signing ep \<noteq> [] \<and> ne_request_body_credential_rewrite ep)
         (CredentialSigningWithBodyRewrite name (ne_host ep))"

subsection \<open>L7 configuration\<close>

definition allow_is_vacuous :: "L7Allow \<Rightarrow> bool" where
  "allow_is_vacuous allow =
     (la_method allow = [] \<and> la_path allow = [] \<and> la_command allow = []
      \<and> la_operation_type allow = [] \<and> la_operation_name allow = [] \<and> la_fields allow = []
      \<and> fm_is_empty (la_params allow))"

definition rules_would_deny_all :: "NetworkEndpoint \<Rightarrow> bool" where
  "rules_would_deny_all ep =
     (ne_rules ep \<noteq> []
      \<and> list_all (\<lambda>rule. case lr_allow rule of None \<Rightarrow> True | Some allow \<Rightarrow> allow_is_vacuous allow)
          (ne_rules ep))"

definition allow_all_known :: "NetworkEndpoint \<Rightarrow> bool" where
  "allow_all_known ep =
     (case ne_mcp ep of
        None \<Rightarrow> False
      | Some mcp \<Rightarrow> (case mo_allow_all_known_mcp_methods mcp of None \<Rightarrow> False | Some b \<Rightarrow> b))"

definition endpoint_l7_fields :: "NetworkEndpoint \<Rightarrow> L7EndpointFields" where
  "endpoint_l7_fields ep =
     \<lparr>ef_protocol = ne_protocol ep,
      ef_access = (case network_access_preset_to_str (ne_access ep) of None \<Rightarrow> [] | Some s \<Rightarrow> s),
      ef_has_rules = (ne_rules ep \<noteq> []),
      ef_websocket_credential_rewrite = ne_websocket_credential_rewrite ep,
      ef_has_deny_rules = (ne_deny_rules ep \<noteq> []),
      ef_rules_would_deny_all = rules_would_deny_all ep,
      ef_allow_all_known_mcp_methods = allow_all_known ep\<rparr>"

definition explicit_tcp_fields :: "NetworkEndpoint \<Rightarrow> string list" where
  "explicit_tcp_fields ep =
     push_if (ne_enforcement ep \<noteq> 0) ''enforcement''
     @ push_if (ne_path ep \<noteq> []) ''path''
     @ push_if (ne_allow_encoded_slash ep) ''allow_encoded_slash''
     @ push_if (ne_websocket_credential_rewrite ep) ''websocket_credential_rewrite''
     @ push_if (ne_request_body_credential_rewrite ep) ''request_body_credential_rewrite''
     @ push_if (ne_persisted_queries ep \<noteq> []) ''persisted_queries''
     @ push_if (\<not> fm_is_empty (ne_graphql_persisted_queries ep)) ''graphql_persisted_queries''
     @ push_if (ne_graphql_max_body_bytes ep > 0) ''graphql_max_body_bytes''
     @ push_if (ne_json_rpc_max_body_bytes ep > 0) ''json_rpc_max_body_bytes''
     @ push_if (ne_mcp ep \<noteq> None) ''mcp''"

definition is_graphql_operation_type :: "string \<Rightarrow> bool" where
  "is_graphql_operation_type t = (t \<in> {''query'', ''mutation'', ''subscription''})"

definition graphql_errors :: "NetworkEndpoint \<Rightarrow> string list" where
  "graphql_errors ep =
     concat (map (\<lambda>(rule_index, rule).
       push_if (\<not> is_graphql_operation_type
                    (case lr_allow rule of None \<Rightarrow> [] | Some allow \<Rightarrow> la_operation_type allow))
         (''rules['' @ show_nat rule_index
          @ ''].allow.operation_type must be query, mutation, or subscription''))
       (enumerate 0 (ne_rules ep)))
     @ concat (map (\<lambda>(rule_index, rule).
       push_if (\<not> is_graphql_operation_type (ld_operation_type rule))
         (''deny_rules['' @ show_nat rule_index
          @ ''].operation_type must be query, mutation, or subscription''))
       (enumerate 0 (ne_deny_rules ep)))
     @ concat (map (\<lambda>(key, operation).
       push_if (\<not> is_graphql_operation_type (go_operation_type operation))
         (''graphql_persisted_queries['' @ key
          @ ''].operation_type must be query, mutation, or subscription''))
       (fm_items (ne_graphql_persisted_queries ep)))"

definition endpoint_l7_errors :: "NetworkEndpoint \<Rightarrow> string list" where
  "endpoint_l7_errors ep =
     validate_l7_endpoint_semantics (endpoint_l7_fields ep)
     @ validate_endpoint_mode_values (ne_tls ep) (ne_enforcement ep) (ne_access ep)
     @ validate_explicit_tcp_additional_fields (ne_protocol ep) (explicit_tcp_fields ep)
     @ push_if (ne_path ep \<noteq> [] \<and> \<not> starts_with ''/'' (ne_path ep) \<and> ne_path ep \<noteq> ''**'')
         (''path must start with '' @ quoted ''/'' @ '' or be '' @ quoted ''**'')
     @ push_if (ne_persisted_queries ep \<noteq> []
                \<and> ne_persisted_queries ep \<notin> {''deny'', ''allow_registered''})
         (''persisted_queries must be '' @ quoted ''deny'' @ '' or '' @ quoted ''allow_registered''
          @ '', got '' @ quoted (ne_persisted_queries ep))
     @ push_if (ne_protocol ep = ''sql''
                \<and> (case network_enforcement_mode_to_str (ne_enforcement ep) of
                      None \<Rightarrow> [] | Some s \<Rightarrow> s) = ''enforce'')
         ''SQL enforcement requires full SQL parsing; use enforcement: audit''
     @ (if ne_protocol ep = ''graphql'' then graphql_errors ep else [])"

subsection \<open>MCP contracts\<close>

definition is_mcp_protocol :: "string \<Rightarrow> bool" where
  "is_mcp_protocol protocol = eq_ignore_ascii_case protocol ''mcp''"

fun mcp_version_violations ::
  "string \<Rightarrow> string \<Rightarrow> string set \<Rightarrow> string list \<Rightarrow> PolicyViolation list" where
  "mcp_version_violations name host seen [] = []"
| "mcp_version_violations name host seen (version # rest) =
     push_if (version \<in> seen) (DuplicateMcpVersion name host version)
     @ push_if (version_from_str version = None) (UnsupportedMcpVersion name host version)
     @ mcp_version_violations name host (insert version seen) rest"

definition collect_mcp_endpoint_violations ::
  "string \<Rightarrow> NetworkEndpoint \<Rightarrow> McpVersionPresence \<Rightarrow> PolicyViolation list" where
  "collect_mcp_endpoint_violations name ep presence =
     (if is_mcp_protocol (ne_protocol ep) then
        (case ne_mcp ep of
           None \<Rightarrow> push_if (presence = RequireMaterialized) (MissingMcpVersions name (ne_host ep))
         | Some mcp \<Rightarrow>
             if mo_versions mcp = []
             then push_if (presence = RequireMaterialized) (MissingMcpVersions name (ne_host ep))
             else mcp_version_violations name (ne_host ep) {} (mo_versions mcp))
      else push_if (ne_mcp ep \<noteq> None)
             (McpOptionsOnNonMcpEndpoint name (ne_host ep) (ne_protocol ep)))"

subsection \<open>The whole policy\<close>

definition endpoint_violations ::
  "glob_lib \<Rightarrow> dns_lib \<Rightarrow> McpVersionPresence \<Rightarrow> string \<Rightarrow> nat \<Rightarrow> NetworkEndpoint
   \<Rightarrow> PolicyViolation list" where
  "endpoint_violations G N presence name endpoint_index ep =
     endpoint_host_violations G N name ep
     @ endpoint_port_violations name ep
     @ endpoint_wildcard_violations name ep
     @ endpoint_signing_violations name ep
     @ map (InvalidL7Endpoint name endpoint_index) (endpoint_l7_errors ep)
     @ collect_mcp_endpoint_violations name ep presence"

definition network_violations ::
  "glob_lib \<Rightarrow> dns_lib \<Rightarrow> McpVersionPresence \<Rightarrow> SandboxPolicy \<Rightarrow> PolicyViolation list" where
  "network_violations G N presence policy =
     concat (map (\<lambda>(key, rule).
       concat (map (\<lambda>(endpoint_index, ep).
         endpoint_violations G N presence (rule_display_name key rule) endpoint_index ep)
         (enumerate 0 (nr_endpoints rule))))
       (fm_items (sp_network_policies policy)))"

definition process_violations :: "SandboxPolicy \<Rightarrow> PolicyViolation list" where
  "process_violations policy =
     (case sp_process policy of
        None \<Rightarrow> []
      | Some process \<Rightarrow>
          push_if (pp_run_as_user process \<noteq> [] \<and> \<not> is_valid_sandbox_identity (pp_run_as_user process))
            (InvalidProcessIdentity ''run_as_user'' (pp_run_as_user process))
          @ push_if (pp_run_as_group process \<noteq> [] \<and> \<not> is_valid_sandbox_identity (pp_run_as_group process))
              (InvalidProcessIdentity ''run_as_group'' (pp_run_as_group process)))"

definition landlock_violations :: "SandboxPolicy \<Rightarrow> PolicyViolation list" where
  "landlock_violations policy =
     (case sp_landlock policy of
        None \<Rightarrow> []
      | Some landlock \<Rightarrow>
          push_if (\<not> is_valid_landlock_compatibility (ll_compatibility landlock))
            (InvalidLandlockCompatibility (ll_compatibility landlock)))"

definition filesystem_violations :: "SandboxPolicy \<Rightarrow> PolicyViolation list" where
  "filesystem_violations policy =
     (case sp_filesystem policy of
        None \<Rightarrow> []
      | Some fs \<Rightarrow> (case validate_filesystem_paths (fs_read_only fs) (fs_read_write fs) of
                      Inl errors \<Rightarrow> errors | Inr _ \<Rightarrow> []))"

definition validate_sandbox_policy_with_mcp_presence ::
  "glob_lib \<Rightarrow> dns_lib \<Rightarrow> SandboxPolicy \<Rightarrow> McpVersionPresence \<Rightarrow> PolicyViolation list + unit" where
  "validate_sandbox_policy_with_mcp_presence G N policy presence =
     violations_result
       (process_violations policy
        @ landlock_violations policy
        @ filesystem_violations policy
        @ network_violations G N presence policy
        @ middleware_validate G policy)"

definition validate_sandbox_policy ::
  "glob_lib \<Rightarrow> dns_lib \<Rightarrow> SandboxPolicy \<Rightarrow> PolicyViolation list + unit" where
  "validate_sandbox_policy G N policy =
     validate_sandbox_policy_with_mcp_presence G N policy RequireMaterialized"

definition validate_mcp_policy_schema ::
  "SandboxPolicy \<Rightarrow> McpVersionPresence \<Rightarrow> PolicyViolation list + unit" where
  "validate_mcp_policy_schema policy presence =
     violations_result
       (concat (map (\<lambda>(key, rule).
          concat (map (\<lambda>ep. collect_mcp_endpoint_violations (rule_display_name key rule) ep presence)
            (nr_endpoints rule)))
          (fm_items (sp_network_policies policy))))"

subsection \<open>Canonicalization\<close>

definition map_rule_endpoints ::
  "(NetworkEndpoint \<Rightarrow> NetworkEndpoint) \<Rightarrow> NetworkPolicyRule \<Rightarrow> NetworkPolicyRule" where
  "map_rule_endpoints f rule = rule\<lparr>nr_endpoints := map f (nr_endpoints rule)\<rparr>"

definition map_policy_endpoints ::
  "(NetworkEndpoint \<Rightarrow> NetworkEndpoint) \<Rightarrow> SandboxPolicy \<Rightarrow> SandboxPolicy" where
  "map_policy_endpoints f policy =
     policy\<lparr>sp_network_policies := fmmap (map_rule_endpoints f) (sp_network_policies policy)\<rparr>"

definition materialize_endpoint :: "NetworkEndpoint \<Rightarrow> NetworkEndpoint" where
  "materialize_endpoint ep =
     (if \<not> is_mcp_protocol (ne_protocol ep) then ep
      else
        let options = (case ne_mcp ep of None \<Rightarrow> mcp_options_default | Some mcp \<Rightarrow> mcp)
        in ep\<lparr>ne_mcp := Some (if mo_versions options = []
                             then options\<lparr>mo_versions := default_mcp_versions\<rparr> else options)\<rparr>)"

definition canonicalize_endpoint_versions :: "NetworkEndpoint \<Rightarrow> NetworkEndpoint" where
  "canonicalize_endpoint_versions ep =
     (case ne_mcp ep of
        None \<Rightarrow> ep
      | Some options \<Rightarrow> ep\<lparr>ne_mcp := Some (canonicalize_mcp_options options)\<rparr>)"

definition materialize_default_mcp_versions :: "SandboxPolicy \<Rightarrow> SandboxPolicy" where
  "materialize_default_mcp_versions = map_policy_endpoints materialize_endpoint"

definition canonicalize_mcp_version_allowlists :: "SandboxPolicy \<Rightarrow> SandboxPolicy" where
  "canonicalize_mcp_version_allowlists = map_policy_endpoints canonicalize_endpoint_versions"

definition validate_and_canonicalize_mcp_policy_schema ::
  "SandboxPolicy \<Rightarrow> PolicyValidationError + SandboxPolicy" where
  "validate_and_canonicalize_mcp_policy_schema policy =
     bindE (validate_mcp_policy_schema policy AllowDefaultable) (\<lambda>_.
       let policy = canonicalize_mcp_version_allowlists (materialize_default_mcp_versions policy)
       in bindE (validate_mcp_policy_schema policy RequireMaterialized) (\<lambda>_. Inr policy))"

definition validate_and_canonicalize_sandbox_policy ::
  "glob_lib \<Rightarrow> dns_lib \<Rightarrow> SandboxPolicy \<Rightarrow> PolicyValidationError + SandboxPolicy" where
  "validate_and_canonicalize_sandbox_policy G N policy =
     bindE (validate_sandbox_policy_with_mcp_presence G N policy AllowDefaultable) (\<lambda>_.
       Inr (canonicalize_mcp_version_allowlists (materialize_default_mcp_versions policy)))"

section \<open>Checked boundaries\<close>

text \<open>
  A boundary checks its input leniently and returns a canonical form. The laws are that the
  canonical form of an accepted input passes the strict check, that the strict check implies
  the lenient one, and that canonicalization is idempotent. The client gets that the boundary
  only lets strict values through and changes nothing the second time.
\<close>

locale checked_boundary =
  fixes check :: "'p \<Rightarrow> 'e + unit" and strict :: "'p \<Rightarrow> 'e + unit" and canon :: "'p \<Rightarrow> 'p"
  assumes canon_strict: "check p = Inr () \<Longrightarrow> strict (canon p) = Inr ()"
    and strict_check: "strict p = Inr () \<Longrightarrow> check p = Inr ()"
    and canon_idem: "canon (canon p) = canon p"
begin

lemma boundary_strict: "bindE (check p) (\<lambda>_. Inr (canon p)) = Inr q \<Longrightarrow> strict q = Inr ()"
  by (auto simp: canon_strict)

lemma boundary_idem:
  "bindE (check p) (\<lambda>_. Inr (canon p)) = Inr q \<Longrightarrow> bindE (check q) (\<lambda>_. Inr (canon q)) = Inr q"
  by (auto simp: strict_check canon_strict canon_idem)

lemma boundary_recheck:
  "bindE (check p) (\<lambda>_. bindE (strict (canon p)) (\<lambda>_. Inr (canon p))) = bindE (check p) (\<lambda>_. Inr (canon p))"
  by (cases "check p") (auto simp: canon_strict)

end

section \<open>Lemmas\<close>

lemma violations_result_Inr [simp]: "(violations_result vs = Inr u) = (vs = [])"
  by (simp add: violations_result_def)

subsection \<open>One endpoint\<close>

text \<open>Whether an endpoint is accepted depends neither on the rule name nor on its position.\<close>

definition endpoint_ok :: "glob_lib \<Rightarrow> dns_lib \<Rightarrow> McpVersionPresence \<Rightarrow> NetworkEndpoint \<Rightarrow> bool" where
  "endpoint_ok G N presence ep = (endpoint_violations G N presence [] 0 ep = [])"

lemma mcp_version_violations_Nil:
  "(mcp_version_violations name host seen vs = [])
   \<longleftrightarrow> (distinct vs \<and> set vs \<inter> seen = {} \<and> (\<forall>v\<in>set vs. version_from_str v \<noteq> None))"
  by (induction name host seen vs rule: mcp_version_violations.induct) auto

lemma collect_mcp_Nil:
  "(collect_mcp_endpoint_violations name ep presence = []) \<longleftrightarrow>
   (if is_mcp_protocol (ne_protocol ep) then
      (case ne_mcp ep of
         None \<Rightarrow> presence = AllowDefaultable
       | Some mcp \<Rightarrow>
           (mo_versions mcp = [] \<longrightarrow> presence = AllowDefaultable)
           \<and> distinct (mo_versions mcp) \<and> (\<forall>v\<in>set (mo_versions mcp). version_from_str v \<noteq> None))
    else ne_mcp ep = None)"
  by (cases presence)
    (auto simp: collect_mcp_endpoint_violations_def mcp_version_violations_Nil split: option.splits)

lemma endpoint_host_Nil_name:
  "(endpoint_host_violations G N name ep = []) = (endpoint_host_violations G N [] ep = [])"
  by (auto simp: endpoint_host_violations_def Let_def split: sum.splits)

lemma endpoint_port_Nil:
  "(endpoint_port_violations name ep = [])
   = (effective_ports ep \<noteq> [] \<and> (\<forall>port\<in>set (effective_ports ep). 1 \<le> port \<and> port \<le> 65535))"
  by (auto simp: endpoint_port_violations_def concat_Nil_iff)

lemma endpoint_violations_Nil:
  "(endpoint_violations G N presence name i ep = []) = endpoint_ok G N presence ep"
  using endpoint_host_Nil_name [of G N name ep] collect_mcp_Nil [of name ep presence]
    collect_mcp_Nil [of "[]" ep presence]
  by (simp add: endpoint_ok_def endpoint_violations_def endpoint_port_Nil
      endpoint_wildcard_violations_def endpoint_signing_violations_def)

lemma network_violations_Nil:
  "(network_violations G N presence policy = [])
   \<longleftrightarrow> (\<forall>key rule. fmlookup (sp_network_policies policy) key = Some rule
         \<longrightarrow> (\<forall>ep\<in>set (nr_endpoints rule). endpoint_ok G N presence ep))"
  unfolding network_violations_def
  by (simp only: concat_items_Nil concat_enumerate_Nil [of "endpoint_violations G N presence _",
        OF endpoint_violations_Nil])

lemma validate_sandbox_policy_Inr:
  "(validate_sandbox_policy_with_mcp_presence G N policy presence = Inr u) \<longleftrightarrow>
     process_violations policy = [] \<and> landlock_violations policy = []
     \<and> filesystem_violations policy = [] \<and> network_violations G N presence policy = []
     \<and> middleware_validate G policy = []"
  by (simp add: validate_sandbox_policy_with_mcp_presence_def)

subsection \<open>Canonicalization preserves acceptance\<close>

definition canonical_endpoint :: "NetworkEndpoint \<Rightarrow> NetworkEndpoint" where
  "canonical_endpoint = canonicalize_endpoint_versions \<circ> materialize_endpoint"

definition canonical_policy :: "SandboxPolicy \<Rightarrow> SandboxPolicy" where
  "canonical_policy p = canonicalize_mcp_version_allowlists (materialize_default_mcp_versions p)"

lemma map_policy_endpoints_comp:
  "map_policy_endpoints f (map_policy_endpoints g p) = map_policy_endpoints (f \<circ> g) p"
proof -
  have "map_rule_endpoints f \<circ> map_rule_endpoints g = map_rule_endpoints (f \<circ> g)"
    by (rule ext) (simp add: map_rule_endpoints_def)
  then show ?thesis by (simp add: map_policy_endpoints_def fmap.map_comp)
qed

lemma canonical_policy_eq: "canonical_policy = map_policy_endpoints canonical_endpoint"
  by (rule ext) (simp add: canonical_policy_def canonical_endpoint_def map_policy_endpoints_comp
      canonicalize_mcp_version_allowlists_def materialize_default_mcp_versions_def)

lemma default_version_known [simp]:
  "version_from_str (version_as_str DEFAULT_MCP_PROTOCOL_VERSION) \<noteq> None"
  by simp

text \<open>The only field canonicalization writes is the MCP contract of an MCP endpoint.\<close>

lemma canonical_endpoint_frame:
  "\<exists>m. canonical_endpoint ep = ep\<lparr>ne_mcp := m\<rparr>"
  by (auto simp: canonical_endpoint_def canonicalize_endpoint_versions_def materialize_endpoint_def
      Let_def split: option.splits intro: exI [of _ "ne_mcp ep"])

lemma canonical_endpoint_idem [simp]: "canonical_endpoint (canonical_endpoint ep) = canonical_endpoint ep"
  by (auto simp: canonical_endpoint_def canonicalize_endpoint_versions_def materialize_endpoint_def
      canonicalize_mcp_options_def default_mcp_versions_def Let_def split: option.splits)

lemma allow_all_known_canonical [simp]: "allow_all_known (canonical_endpoint ep) = allow_all_known ep"
  by (auto simp: canonical_endpoint_def canonicalize_endpoint_versions_def materialize_endpoint_def
      canonicalize_mcp_options_def allow_all_known_def mcp_options_default_def Let_def split: option.splits)

lemma canonical_endpoint_mcp_None:
  "ne_mcp (canonical_endpoint ep) = None \<longleftrightarrow> ne_mcp ep = None \<and> \<not> is_mcp_protocol (ne_protocol ep)"
  by (auto simp: canonical_endpoint_def canonicalize_endpoint_versions_def materialize_endpoint_def
      Let_def split: option.splits)

lemma mcp_not_tcp: "is_mcp_protocol p \<Longrightarrow> \<not> is_explicit_tcp_protocol p"
  by (simp add: is_mcp_protocol_def is_explicit_tcp_protocol_def eq_ignore_ascii_case_def
      to_ascii_lowercase_def ascii_lower_def byte_def)

lemma collect_mcp_canonical:
  assumes "collect_mcp_endpoint_violations name ep presence = []"
  shows "collect_mcp_endpoint_violations name (canonical_endpoint ep) RequireMaterialized = []"
  using assms
  by (auto simp: collect_mcp_Nil canonical_endpoint_def canonicalize_endpoint_versions_def
      materialize_endpoint_def canonicalize_mcp_options_def default_mcp_versions_def
      mcp_options_default_def Let_def split: option.splits if_splits)

lemma endpoint_l7_errors_canonical:
  "endpoint_l7_errors ep = [] \<Longrightarrow> endpoint_l7_errors (canonical_endpoint ep) = []"
proof -
  assume ok: "endpoint_l7_errors ep = []"
  obtain m where m: "canonical_endpoint ep = ep\<lparr>ne_mcp := m\<rparr>" using canonical_endpoint_frame by blast
  have fields: "endpoint_l7_fields (canonical_endpoint ep) = endpoint_l7_fields ep"
    using allow_all_known_canonical [of ep] by (simp add: m endpoint_l7_fields_def rules_would_deny_all_def)
  have "validate_explicit_tcp_additional_fields (ne_protocol ep) (explicit_tcp_fields (canonical_endpoint ep)) = []"
  proof (cases "is_mcp_protocol (ne_protocol ep)")
    case True
    then show ?thesis by (simp add: validate_explicit_tcp_additional_fields_def mcp_not_tcp)
  next
    case False
    then have "explicit_tcp_fields (canonical_endpoint ep) = explicit_tcp_fields ep"
      using canonical_endpoint_mcp_None [of ep] by (simp add: explicit_tcp_fields_def m)
    with ok show ?thesis by (simp add: endpoint_l7_errors_def)
  qed
  moreover have "graphql_errors (canonical_endpoint ep) = graphql_errors ep"
    by (simp add: m graphql_errors_def)
  ultimately show ?thesis using ok fields by (simp add: endpoint_l7_errors_def m split: if_splits)
qed

lemma endpoint_checks_frame:
  "endpoint_host_violations G N name (ep\<lparr>ne_mcp := m\<rparr>) = endpoint_host_violations G N name ep"
  "endpoint_port_violations name (ep\<lparr>ne_mcp := m\<rparr>) = endpoint_port_violations name ep"
  "endpoint_wildcard_violations name (ep\<lparr>ne_mcp := m\<rparr>) = endpoint_wildcard_violations name ep"
  "endpoint_signing_violations name (ep\<lparr>ne_mcp := m\<rparr>) = endpoint_signing_violations name ep"
  by (simp_all add: endpoint_host_violations_def endpoint_port_violations_def effective_ports_def
      endpoint_wildcard_violations_def endpoint_signing_violations_def Let_def
      cong: if_cong sum.case_cong)

lemma endpoint_ok_canonical:
  assumes "endpoint_ok G N presence ep"
  shows "endpoint_ok G N RequireMaterialized (canonical_endpoint ep)"
proof -
  obtain m where m: "canonical_endpoint ep = ep\<lparr>ne_mcp := m\<rparr>" using canonical_endpoint_frame by blast
  from assms show ?thesis
    using collect_mcp_canonical [of "[]" ep presence] endpoint_l7_errors_canonical [of ep]
    by (simp add: endpoint_ok_def endpoint_violations_def m endpoint_checks_frame)
qed

lemma endpoint_ok_weaken:
  "endpoint_ok G N RequireMaterialized ep \<Longrightarrow> endpoint_ok G N AllowDefaultable ep"
  by (auto simp: endpoint_ok_def endpoint_violations_def collect_mcp_Nil split: option.splits if_splits)

lemma middleware_validate_map_endpoints:
  assumes "\<And>ep. ne_host (f ep) = ne_host ep" and "\<And>ep. ne_tls (f ep) = ne_tls ep"
  shows "middleware_validate G (map_policy_endpoints f p) = middleware_validate G p"
proof -
  have ov: "overlaps_tls_skip G m sel (f ep) = overlaps_tls_skip G m sel ep" for m sel ep
    by (simp add: overlaps_tls_skip_def assms cong: option.case_cong)
  have "tls_skip_conflicts G (map_policy_endpoints f p) name m sel = tls_skip_conflicts G p name m sel"
    for name m sel
    by (simp add: tls_skip_conflicts_def map_policy_endpoints_def fm_items_fmmap map_rule_endpoints_def
        filter_map o_def case_prod_unfold ov assms rule_display_name_def cong: if_cong)
  then have entry: "middleware_entry_violations G (map_policy_endpoints f p) name m
      = middleware_entry_violations G p name m" for name m
    by (cases "mc_endpoints m") (simp_all add: middleware_entry_violations_def Let_def)
  have "middleware_loop G (map_policy_endpoints f p) orders items = middleware_loop G p orders items"
    for orders items
  proof (induction items arbitrary: orders)
    case (Cons x xs)
    then show ?case by (cases x) (simp add: entry)
  qed simp
  then show ?thesis by (simp add: middleware_validate_def map_policy_endpoints_def)
qed

lemma map_policy_endpoints_all:
  "(\<forall>key rule. fmlookup (sp_network_policies (map_policy_endpoints f p)) key = Some rule
      \<longrightarrow> (\<forall>ep\<in>set (nr_endpoints rule). P ep))
   \<longleftrightarrow> (\<forall>key rule. fmlookup (sp_network_policies p) key = Some rule
      \<longrightarrow> (\<forall>ep\<in>set (nr_endpoints rule). P (f ep)))"
  by (force simp: map_policy_endpoints_def map_rule_endpoints_def)

lemma network_violations_canonical:
  "network_violations G N presence p = []
   \<Longrightarrow> network_violations G N RequireMaterialized (map_policy_endpoints canonical_endpoint p) = []"
  unfolding network_violations_Nil
  by (simp add: map_policy_endpoints_all endpoint_ok_canonical [of G N presence])

lemma canonical_endpoint_host_tls [simp]:
  "ne_host (canonical_endpoint ep) = ne_host ep" "ne_tls (canonical_endpoint ep) = ne_tls ep"
  "ne_protocol (canonical_endpoint ep) = ne_protocol ep"
  using canonical_endpoint_frame [of ep] by auto

lemma frame_map_policy_endpoints [simp]:
  "process_violations (map_policy_endpoints f p) = process_violations p"
  "landlock_violations (map_policy_endpoints f p) = landlock_violations p"
  "filesystem_violations (map_policy_endpoints f p) = filesystem_violations p"
  by (simp_all add: map_policy_endpoints_def process_violations_def landlock_violations_def
      filesystem_violations_def)

lemma canonical_policy_idem: "canonical_policy (canonical_policy p) = canonical_policy p"
proof -
  have "canonical_endpoint \<circ> canonical_endpoint = canonical_endpoint" by (rule ext) simp
  then show ?thesis by (simp add: canonical_policy_eq map_policy_endpoints_comp)
qed

interpretation sandbox_boundary: checked_boundary
  "\<lambda>p. validate_sandbox_policy_with_mcp_presence G N p AllowDefaultable"
  "validate_sandbox_policy G N" canonical_policy
proof
  fix p
  show "validate_sandbox_policy G N (canonical_policy p) = Inr ()"
    if "validate_sandbox_policy_with_mcp_presence G N p AllowDefaultable = Inr ()"
    using that network_violations_canonical [of G N AllowDefaultable p]
    by (simp add: validate_sandbox_policy_def validate_sandbox_policy_Inr canonical_policy_eq
        middleware_validate_map_endpoints)
  show "validate_sandbox_policy_with_mcp_presence G N p AllowDefaultable = Inr ()"
    if "validate_sandbox_policy G N p = Inr ()"
    using that by (auto simp: validate_sandbox_policy_def validate_sandbox_policy_Inr
        network_violations_Nil intro: endpoint_ok_weaken)
  show "canonical_policy (canonical_policy p) = canonical_policy p" by (rule canonical_policy_idem)
qed

lemma mcp_schema_Nil:
  "(validate_mcp_policy_schema p presence = Inr u) \<longleftrightarrow>
   (\<forall>key rule. fmlookup (sp_network_policies p) key = Some rule \<longrightarrow>
      (\<forall>ep\<in>set (nr_endpoints rule). collect_mcp_endpoint_violations [] ep presence = []))"
  unfolding validate_mcp_policy_schema_def violations_result_Inr concat_items_Nil
  unfolding concat_Nil_iff collect_mcp_Nil by simp

interpretation mcp_boundary: checked_boundary
  "\<lambda>p. validate_mcp_policy_schema p AllowDefaultable"
  "\<lambda>p. validate_mcp_policy_schema p RequireMaterialized" canonical_policy
proof
  fix p
  show "validate_mcp_policy_schema (canonical_policy p) RequireMaterialized = Inr ()"
    if "validate_mcp_policy_schema p AllowDefaultable = Inr ()"
    using that unfolding mcp_schema_Nil canonical_policy_eq
    by (simp add: map_policy_endpoints_all collect_mcp_canonical [of _ _ AllowDefaultable])
  show "validate_mcp_policy_schema p AllowDefaultable = Inr ()"
    if "validate_mcp_policy_schema p RequireMaterialized = Inr ()"
    using that by (auto simp: mcp_schema_Nil collect_mcp_Nil split: option.splits if_splits)
  show "canonical_policy (canonical_policy p) = canonical_policy p" by (rule canonical_policy_idem)
qed

section \<open>Properties\<close>

subsection \<open>Vocabulary\<close>

text \<open>A path grants access below a root that is absolute and never climbs.\<close>

definition safe_path :: "string \<Rightarrow> bool" where
  "safe_path path = (starts_with ''/'' path \<and> ''..'' \<notin> set (split_on CHR ''/'' path)
                     \<and> length path \<le> 4096)"

lemma split_on_all_Nil: "set (split_on d s) \<subseteq> {[]} \<longleftrightarrow> set s \<subseteq> {d}"
proof (induction s)
  case (Cons c s)
  then show ?case by (cases "split_on d s") auto
qed simp

lemma normalize_parts_grow:
  "\<exists>rest. fold normalize_component (map part_component parts) buffer = buffer @ rest
     \<and> (parts \<noteq> [] \<longrightarrow> rest \<noteq> [])"
  if "\<forall>part\<in>set parts. part \<noteq> [] \<and> CHR ''/'' \<notin> set part" for parts buffer
  using that
proof (induction parts arbitrary: buffer)
  case (Cons part parts)
  have "\<not> starts_with ''/'' part" using Cons.prems by (cases part) (auto simp: starts_with_def)
  then have "path_push buffer part = buffer @ part \<or> path_push buffer part = buffer @ ''/'' @ part"
    by (simp add: path_push_def)
  moreover have "normalize_component (part_component part) buffer = path_push buffer part"
    by (simp add: normalize_component_def part_component_def)
  ultimately obtain rest where "normalize_component (part_component part) buffer = buffer @ rest" "rest \<noteq> []"
    using Cons.prems by fastforce
  moreover obtain rest' where
    "fold normalize_component (map part_component parts) (buffer @ rest) = (buffer @ rest) @ rest'"
    using Cons.IH [of "buffer @ rest"] Cons.prems by auto
  ultimately show ?case by auto
qed simp

lemma normalize_path_root:
  assumes "starts_with ''/'' path"
  shows "normalize_path path = ''/'' \<longleftrightarrow> set (split_on CHR ''/'' path) \<subseteq> {[], ''.''}"
proof -
  let ?parts = "filter (\<lambda>part. part \<noteq> ''.'') (filter (\<lambda>part. part \<noteq> []) (split_on CHR ''/'' path))"
  have n: "normalize_path path = fold normalize_component (map part_component ?parts) ''/''"
    using assms by (simp add: normalize_path_def path_components_def normalize_component_def path_push_def
        starts_with_def)
  have "\<forall>part\<in>set ?parts. part \<noteq> [] \<and> CHR ''/'' \<notin> set part" using split_on_notin by fastforce
  from normalize_parts_grow [OF this, of "''/''"]
  have "normalize_path path = ''/'' \<longleftrightarrow> ?parts = []" unfolding n by auto
  then show ?thesis by (auto simp: filter_empty_conv)
qed

definition mcp_contract_ok :: "NetworkEndpoint \<Rightarrow> bool" where
  "mcp_contract_ok ep =
     (if eq_ignore_ascii_case (ne_protocol ep) ''mcp''
      then (case ne_mcp ep of
              None \<Rightarrow> False
            | Some mcp \<Rightarrow> mo_versions mcp \<noteq> [] \<and> distinct (mo_versions mcp)
                \<and> set (mo_versions mcp) \<subseteq> version_as_str ` set version_ALL)
      else ne_mcp ep = None)"

definition sample_dns :: dns_lib where
  "sample_dns = \<lparr>name_from_ascii = Inr, name_is_root = (\<lambda>n. n = ''.'')\<rparr>"

definition sample_endpoint :: NetworkEndpoint where
  "sample_endpoint = endpoint_default\<lparr>ne_host := ''mcp.example.com'', ne_port := 443, ne_protocol := ''mcp'',
     ne_mcp := Some \<lparr>mo_strict_tool_names = None, mo_allow_all_known_mcp_methods = Some True,
                     mo_versions = [''2025-11-25'', ''2025-06-18'']\<rparr>\<rparr>"

definition sample_rule :: NetworkPolicyRule where
  "sample_rule = \<lparr>nr_name = [], nr_endpoints = [sample_endpoint], nr_binaries = [\<lparr>nb_path = ''/usr/bin/curl''\<rparr>]\<rparr>"

definition sample_policy :: SandboxPolicy where
  "sample_policy = restrictive_default_policy\<lparr>sp_network_policies := fmap_of_list [(''mcp'', sample_rule)]\<rparr>"

lemma sample_policy_boundary:
  "validate_and_canonicalize_sandbox_policy star_glob sample_dns sample_policy = Inr (canonical_policy sample_policy)"
  by code_simp

lemma version_known_iff: "version_from_str v \<noteq> None \<longleftrightarrow> v \<in> version_as_str ` set version_ALL"
proof -
  have "set version_ALL = UNIV"
    using McpProtocolVersion.exhaust by (auto simp: version_ALL_def)
  then show ?thesis by (auto simp: version_from_str_Some_iff)
qed

lemma trim_end_matches_Nil: "trim_end_matches c s = [] \<longleftrightarrow> set s \<subseteq> {c}"
  by (auto simp: trim_end_matches_def dropWhile_eq_Nil_conv)

text \<open>C18. The canonicalizing boundary returns only policies that pass the strict validator: the
  debug assertion of the source, that materializing the default revision and sorting the
  allowlists keeps every policy invariant, holds for every input.\<close>
theorem canonicalized_policy_valid:
  assumes "validate_and_canonicalize_sandbox_policy G N policy = Inr q"
  shows "validate_sandbox_policy G N q = Inr ()"
  using sandbox_boundary.boundary_strict [of G N policy q] assms
  by (simp add: validate_and_canonicalize_sandbox_policy_def canonical_policy_def)

theorem canonicalized_policy_valid_witness:
  "validate_sandbox_policy star_glob sample_dns (canonical_policy sample_policy) = Inr ()"
  using canonicalized_policy_valid [OF sample_policy_boundary] .

text \<open>C19. Canonicalization is idempotent at the boundary: a policy it returned is returned
  unchanged when it passes the boundary again, and apart from MCP contracts it is the input
  policy.\<close>
theorem canonicalized_policy_stable:
  assumes "validate_and_canonicalize_sandbox_policy G N policy = Inr q"
  shows "validate_and_canonicalize_sandbox_policy G N q = Inr q
    \<and> map_policy_endpoints (\<lambda>ep. ep\<lparr>ne_mcp := None\<rparr>) q = map_policy_endpoints (\<lambda>ep. ep\<lparr>ne_mcp := None\<rparr>) policy"
proof
  show "validate_and_canonicalize_sandbox_policy G N q = Inr q"
    using sandbox_boundary.boundary_idem [of G N policy q] assms
    by (simp add: validate_and_canonicalize_sandbox_policy_def canonical_policy_def)
  have q: "q = map_policy_endpoints canonical_endpoint policy"
    using assms by (simp add: validate_and_canonicalize_sandbox_policy_def
        flip: canonical_policy_def canonical_policy_eq)
  have "(\<lambda>ep. ep\<lparr>ne_mcp := None\<rparr>) \<circ> canonical_endpoint = (\<lambda>ep. ep\<lparr>ne_mcp := None\<rparr>)"
  proof
    fix ep
    obtain m where "canonical_endpoint ep = ep\<lparr>ne_mcp := m\<rparr>" using canonical_endpoint_frame by blast
    then show "((\<lambda>ep. ep\<lparr>ne_mcp := None\<rparr>) \<circ> canonical_endpoint) ep = ep\<lparr>ne_mcp := None\<rparr>" by simp
  qed
  then show "map_policy_endpoints (\<lambda>ep. ep\<lparr>ne_mcp := None\<rparr>) q
             = map_policy_endpoints (\<lambda>ep. ep\<lparr>ne_mcp := None\<rparr>) policy"
    by (simp add: q map_policy_endpoints_comp)
qed

theorem canonicalized_policy_stable_witness:
  "validate_and_canonicalize_sandbox_policy star_glob sample_dns (canonical_policy sample_policy)
   = Inr (canonical_policy sample_policy)"
  using canonicalized_policy_stable [OF sample_policy_boundary] by blast

text \<open>C39. Filesystem validation accepts exactly the path lists with at most 256 entries in total,
  every path absolute, at most 4096 bytes long and free of \<open>..\<close> components, and no read-write
  entry that names the filesystem root without a \<open>.\<close> component. A read-write entry such as \<open>/.\<close>,
  which \<open>normalize_path\<close> turns into the root as well, is accepted although the validator means to
  forbid read-write access to the root.\<close>
theorem validate_filesystem_paths_iff:
  "validate_filesystem_paths ro rw = Inr () \<longleftrightarrow>
     length ro + length rw \<le> 256 \<and> (\<forall>path\<in>set ro \<union> set rw. safe_path path)
     \<and> (\<forall>path\<in>set rw. normalize_path path = ''/'' \<longrightarrow> ''.'' \<in> set (split_on CHR ''/'' path))"
proof -
  have one: "filesystem_path_violations path = [] \<longleftrightarrow> safe_path path" for path
    by (auto simp: filesystem_path_violations_def safe_path_def MAX_PATH_LENGTH_def)
  have root: "(normalize_path path = ''/'' \<longrightarrow> ''.'' \<in> set (split_on CHR ''/'' path))
      \<longleftrightarrow> \<not> set path \<subseteq> {CHR ''/''}" if "safe_path path" for path
    using that normalize_path_root [of path] split_on_all_Nil [of "CHR ''/''" path]
    unfolding safe_path_def by blast
  show ?thesis
    unfolding validate_filesystem_paths_def violations_result_Inr append_is_Nil_conv concat_Nil_iff
      push_if_simps trim_end_matches_Nil MAX_FILESYSTEM_PATHS_def not_less
    using one root by (simp add: ball_Un) blast
qed

theorem validate_filesystem_paths_iff_witness:
  "validate_filesystem_paths [''/usr''] [''/tmp''] = Inr ()
   \<and> validate_filesystem_paths [] [''//''] \<noteq> Inr ()
   \<and> validate_filesystem_paths [] [''/.''] = Inr () \<and> normalize_path ''/.'' = ''/''"
proof -
  have "safe_path ''/usr'' \<and> safe_path ''/tmp'' \<and> normalize_path ''/tmp'' \<noteq> ''/'' \<and> safe_path ''/.''
    \<and> normalize_path ''/.'' = ''/'' \<and> ''.'' \<in> set (split_on CHR ''/'' ''/.'')
    \<and> normalize_path ''//'' = ''/'' \<and> ''.'' \<notin> set (split_on CHR ''/'' ''//'')" by code_simp
  then show ?thesis
    using validate_filesystem_paths_iff [of "[''/usr'']" "[''/tmp'']"]
      validate_filesystem_paths_iff [of "[]" "[''//'']"]
      validate_filesystem_paths_iff [of "[]" "[''/.'']"] by auto
qed

text \<open>C20. Every endpoint of a validated policy has at least one effective port, all of them in
  1..65535, and carries MCP options exactly when it speaks MCP, with a nonempty duplicate-free
  allowlist of supported revisions.\<close>
theorem validated_endpoints:
  assumes "validate_sandbox_policy G N policy = Inr ()"
    and "fmlookup (sp_network_policies policy) key = Some rule" and "ep \<in> set (nr_endpoints rule)"
  shows "effective_ports ep \<noteq> [] \<and> (\<forall>port\<in>set (effective_ports ep). 1 \<le> port \<and> port \<le> 65535)
    \<and> mcp_contract_ok ep"
proof -
  have "endpoint_ok G N RequireMaterialized ep"
    using assms by (auto simp: validate_sandbox_policy_def validate_sandbox_policy_Inr network_violations_Nil)
  then show ?thesis
    by (auto simp: endpoint_ok_def endpoint_violations_def endpoint_port_Nil collect_mcp_Nil
        mcp_contract_ok_def is_mcp_protocol_def split: option.splits if_splits)
      (metis option.distinct(1) version_known_iff)
qed

theorem validated_endpoints_witness:
  "mcp_contract_ok (canonical_endpoint sample_endpoint)"
proof -
  have v: "validate_sandbox_policy star_glob sample_dns (canonical_policy sample_policy) = Inr ()"
    by code_simp
  have l: "fmlookup (sp_network_policies (canonical_policy sample_policy)) ''mcp''
           = Some (map_rule_endpoints canonical_endpoint sample_rule)"
    by code_simp
  show ?thesis using validated_endpoints [OF v l]
    by (simp add: map_rule_endpoints_def sample_rule_def)
qed

text \<open>C4. In a validated policy a host that a fail-closed middleware selects is matched by the host
  pattern of no \<open>tls: skip\<close> endpoint: no endpoint scoped to such a host exempts it from the
  inspection the middleware requires. Endpoints without a host, which admit any host at the
  addresses they allow, and hosts that are not host patterns (brace alternates) match no host
  here and are outside the check, as \<open>hostless_skip_accepted\<close> shows.\<close>
theorem fail_closed_host_not_skipped:
  assumes "glob_literal G" and "validate_sandbox_policy G N policy = Inr ()"
    and "fmlookup (sp_network_middlewares policy) name = Some m" and "mc_on_error m \<in> {'''', ''fail_closed''}"
    and "mc_endpoints m = Some s" and "HostSelector_new G (ms_include s) (ms_exclude s) = Inr sel"
    and "fmlookup (sp_network_policies policy) key = Some rule" and "ep \<in> set (nr_endpoints rule)"
    and "HostSelector_matches G sel h" and "host_matches G (ne_host ep) h = Inr True"
  shows "ne_tls ep \<noteq> TLS_SKIP"
  using assms middleware_skip_disjoint [of G policy name m s sel key rule ep h]
  by (auto simp: validate_sandbox_policy_def validate_sandbox_policy_Inr requires_inspection_def)

definition sample_middleware :: NetworkMiddlewareConfig where
  "sample_middleware = \<lparr>mc_name = ''pii'', mc_middleware = ''redact'', mc_config = None, mc_on_error = '''',
     mc_endpoints = Some \<lparr>ms_include = [''*.example.com''], ms_exclude = []\<rparr>, mc_order = 1\<rparr>"

theorem fail_closed_host_not_skipped_witness:
  "ne_tls (canonical_endpoint sample_endpoint) \<noteq> TLS_SKIP"
proof -
  let ?p = "(canonical_policy sample_policy)\<lparr>sp_network_middlewares := fmap_of_list [(''pii'', sample_middleware)]\<rparr>"
  let ?s = "\<lparr>ms_include = [''*.example.com''], ms_exclude = []\<rparr>"
  let ?sel = "\<lparr>hs_includes = [\<lparr>hp_source = ''*.example.com'',
      hp_labels = [Label ''*'' False, Label ''example'' True, Label ''com'' True]\<rparr>], hs_excludes = []\<rparr>"
  let ?r = "map_rule_endpoints canonical_endpoint sample_rule"
  have "validate_sandbox_policy star_glob sample_dns ?p = Inr ()" by code_simp
  moreover have "fmlookup (sp_network_middlewares ?p) ''pii'' = Some sample_middleware" by code_simp
  moreover have "mc_on_error sample_middleware \<in> {'''', ''fail_closed''}" by code_simp
  moreover have "mc_endpoints sample_middleware = Some ?s" by code_simp
  moreover have "HostSelector_new star_glob (ms_include ?s) (ms_exclude ?s) = Inr ?sel" by code_simp
  moreover have "fmlookup (sp_network_policies ?p) ''mcp'' = Some ?r" by code_simp
  moreover have "canonical_endpoint sample_endpoint \<in> set (nr_endpoints ?r)"
    by (simp add: map_rule_endpoints_def sample_rule_def)
  moreover have "HostSelector_matches star_glob ?sel ''mcp.example.com''" by code_simp
  moreover have "host_matches star_glob (ne_host (canonical_endpoint sample_endpoint)) ''mcp.example.com'' = Inr True"
    by code_simp
  ultimately show ?thesis by (rule fail_closed_host_not_skipped [OF star_glob_literal])
qed

text \<open>The comparison is between host patterns, so a \<open>tls: skip\<close> endpoint without a host is never a
  conflict: a policy with one, next to a fail-closed middleware that selects every host, is valid.\<close>

definition hostless_skip_policy :: SandboxPolicy where
  "hostless_skip_policy = restrictive_default_policy\<lparr>
     sp_network_policies := fmap_of_list [(''net'', \<lparr>nr_name = [],
       nr_endpoints = [endpoint_default\<lparr>ne_port := 443, ne_allowed_ips := [''203.0.113.0/24''], ne_tls := TLS_SKIP\<rparr>],
       nr_binaries = [\<lparr>nb_path = ''/usr/bin/curl''\<rparr>]\<rparr>)],
     sp_network_middlewares := fmap_of_list [(''pii'', sample_middleware\<lparr>
       mc_endpoints := Some \<lparr>ms_include = [''**''], ms_exclude = []\<rparr>\<rparr>)]\<rparr>"

lemma hostless_skip_accepted: "validate_sandbox_policy star_glob sample_dns hostless_skip_policy = Inr ()"
  by code_simp

text \<open>The SQL and GraphQL checks compare the spelling of the protocol, while the protocol parser of
  the L7 checks ignores case: an enforced endpoint with protocol \<open>SQL\<close> is accepted, the same
  endpoint with protocol \<open>sql\<close> is not.\<close>

lemma sql_enforcement_case_sensitive:
  "endpoint_l7_errors (endpoint_default\<lparr>ne_protocol := ''SQL'', ne_access := ACCESS_FULL, ne_enforcement := ENFORCEMENT_ENFORCE\<rparr>) = []"
  "endpoint_l7_errors (endpoint_default\<lparr>ne_protocol := ''sql'', ne_access := ACCESS_FULL, ne_enforcement := ENFORCEMENT_ENFORCE\<rparr>) \<noteq> []"
  by code_simp+

text \<open>The built-in restrictive default passes the strict validator and grants no network
  access at all.\<close>
theorem restrictive_default_valid:
  "validate_sandbox_policy G N restrictive_default_policy = Inr ()
   \<and> sp_network_policies restrictive_default_policy = fmempty"
proof -
  have "filesystem_violations restrictive_default_policy = []" by code_simp
  moreover have "landlock_violations restrictive_default_policy = []" by code_simp
  ultimately show ?thesis
    by (simp add: validate_sandbox_policy_def validate_sandbox_policy_Inr process_violations_def
        network_violations_def middleware_validate_def restrictive_default_policy_def fm_len_def)
qed

end
