(* ===== verification/Policy_Compose.thy ===== *)
theory Policy_Compose
  imports Policy_Types
begin

text \<open>
  Composition of a user-authored policy with provider layers
  (\<open>openshell-policy/src/compose.rs\<close>), and the search for an unused rule key that composition
  shares with the advisor rewrite of \<open>merge.rs\<close>.
\<close>

section \<open>Definitions\<close>

definition PROVIDER_RULE_NAME_PREFIX :: string where
  "PROVIDER_RULE_NAME_PREFIX = ''_provider_''"

record ProviderPolicyLayer =
  pl_rule_name :: string
  pl_rule :: NetworkPolicyRule

definition is_provider_rule_name :: "string \<Rightarrow> bool" where
  "is_provider_rule_name rule_name = starts_with PROVIDER_RULE_NAME_PREFIX rule_name"

definition provider_name_char :: "string \<Rightarrow> char" where
  "provider_name_char ch =
     (case ch of
        [c] \<Rightarrow> if is_ascii_alphanumeric c \<or> c = CHR ''_'' then ascii_lower c else CHR ''_''
      | _ \<Rightarrow> CHR ''_'')"

definition provider_rule_name :: "string \<Rightarrow> string" where
  "provider_rule_name provider_name =
     (let sanitized = trim_matches CHR ''_'' (map provider_name_char (utf8_chunks provider_name))
      in if sanitized = [] then PROVIDER_RULE_NAME_PREFIX @ ''unnamed''
         else PROVIDER_RULE_NAME_PREFIX @ sanitized)"

definition strip_provider_rule_names :: "SandboxPolicy \<Rightarrow> SandboxPolicy \<times> bool" where
  "strip_provider_rule_names policy =
     (let kept = fmfilter (\<lambda>key. \<not> is_provider_rule_name key) (sp_network_policies policy)
      in (policy\<lparr>sp_network_policies := kept\<rparr>,
          fm_len kept \<noteq> fm_len (sp_network_policies policy)))"

text \<open>
  The suffix loop. The fuel is one more than the number of keys in use, which the lemma
  \<open>unique_key_fresh\<close> shows to be enough; running out of it is \<open>None\<close>. The suffix stays below
  the number of keys plus three, far from the end of \<open>u32\<close>.
\<close>

fun free_suffix :: "nat \<Rightarrow> (string \<Rightarrow> bool) \<Rightarrow> string \<Rightarrow> nat \<Rightarrow> string option" where
  "free_suffix 0 taken preferred suffix = None"
| "free_suffix (Suc fuel) taken preferred suffix =
     (let candidate = preferred @ ''_'' @ show_nat suffix
      in if taken candidate then free_suffix fuel taken preferred (suffix + 1) else Some candidate)"

definition unique_key :: "nat \<Rightarrow> (string \<Rightarrow> bool) \<Rightarrow> string \<Rightarrow> string option" where
  "unique_key used taken preferred =
     (if \<not> taken preferred then Some preferred else free_suffix (used + 1) taken preferred 2)"

definition unique_provider_rule_key :: "SandboxPolicy \<Rightarrow> string \<Rightarrow> string option" where
  "unique_provider_rule_key policy preferred =
     unique_key (fm_len (sp_network_policies policy)) (fm_contains (sp_network_policies policy)) preferred"

definition compose_layer :: "SandboxPolicy \<Rightarrow> ProviderPolicyLayer \<Rightarrow> SandboxPolicy option" where
  "compose_layer effective layer =
     (case unique_provider_rule_key effective (pl_rule_name layer) of
        None \<Rightarrow> None
      | Some key \<Rightarrow>
          let rule = (if nr_name (pl_rule layer) = [] then (pl_rule layer)\<lparr>nr_name := key\<rparr> else pl_rule layer)
          in Some (effective\<lparr>sp_network_policies := fmupd key rule (sp_network_policies effective)\<rparr>))"

fun compose_effective_policy :: "SandboxPolicy \<Rightarrow> ProviderPolicyLayer list \<Rightarrow> SandboxPolicy option" where
  "compose_effective_policy effective [] = Some effective"
| "compose_effective_policy effective (layer # layers) =
     (case compose_layer effective layer of
        None \<Rightarrow> None
      | Some effective' \<Rightarrow> compose_effective_policy effective' layers)"

section \<open>Lemmas\<close>

subsection \<open>Decimal rendering is injective\<close>

definition digits_value :: "string \<Rightarrow> nat" where
  "digits_value s = foldl (\<lambda>acc c. acc * 10 + (byte c - 48)) 0 s"

lemma byte_digit_char: "d < 10 \<Longrightarrow> byte (digit_char d) = 48 + d"
  by (simp add: digit_char_def)

lemma digits_value_show_nat: "digits_value (show_nat n) = n"
proof (induction n rule: show_nat.induct)
  case (1 n)
  show ?case
    using 1 by (subst show_nat.simps) (auto simp: digits_value_def byte_digit_char)
qed

lemma show_nat_inject [simp]: "(show_nat a = show_nat b) = (a = b)"
  by (metis digits_value_show_nat)

subsection \<open>The suffix search\<close>

lemma free_suffix_Some:
  "free_suffix fuel taken p n = Some k \<Longrightarrow> \<not> taken k \<and> (\<exists>m. k = p @ ''_'' @ show_nat m)"
  by (induction fuel taken p n rule: free_suffix.induct) (auto simp: Let_def split: if_splits)

lemma free_suffix_None:
  "free_suffix fuel taken p n = None \<Longrightarrow> m < fuel \<Longrightarrow> taken (p @ ''_'' @ show_nat (n + m))"
proof (induction fuel taken p n arbitrary: m rule: free_suffix.induct)
  case (2 fuel taken p n)
  then show ?case by (cases m) (auto simp: Let_def split: if_splits)
qed simp

lemma unique_key_fresh:
  assumes "finite {k. taken k}" and "card {k. taken k} \<le> used"
  obtains k where "unique_key used taken preferred = Some k" and "\<not> taken k"
    and "\<exists>t. k = preferred @ t"
proof (cases "unique_key used taken preferred")
  case None
  then have n: "free_suffix (used + 1) taken preferred 2 = None"
    by (auto simp: unique_key_def split: if_splits)
  let ?f = "\<lambda>m. preferred @ ''_'' @ show_nat (2 + m)"
  have "?f ` {..used} \<subseteq> {k. taken k}"
    using free_suffix_None [OF n] by (auto simp: less_Suc_eq_le)
  moreover have "inj_on ?f {..used}" by (auto simp: inj_on_def)
  ultimately have "Suc used \<le> card {k. taken k}"
    using assms(1) card_mono card_image by (metis card_atMost)
  with assms(2) show ?thesis by simp
next
  case (Some k)
  then have "\<not> taken k \<and> (\<exists>t. k = preferred @ t)"
    using free_suffix_Some [of "used + 1" taken preferred 2 k]
    by (auto simp: unique_key_def simp del: free_suffix.simps split: if_splits)
  with Some that show ?thesis by blast
qed

lemma fm_contains_set: "{k. fm_contains m k} = fset (fmdom m)"
  by (auto simp: fm_contains_def fmlookup_dom_iff)

lemma unique_provider_rule_key_fresh:
  obtains k where "unique_provider_rule_key policy preferred = Some k"
    and "fmlookup (sp_network_policies policy) k = None" and "\<exists>t. k = preferred @ t"
proof -
  have "finite {k. fm_contains (sp_network_policies policy) k}"
    "card {k. fm_contains (sp_network_policies policy) k} \<le> fm_len (sp_network_policies policy)"
    by (simp_all add: fm_contains_set fm_len_card)
  then obtain k where "unique_provider_rule_key policy preferred = Some k"
    "\<not> fm_contains (sp_network_policies policy) k" "\<exists>t. k = preferred @ t"
    using unique_key_fresh unfolding unique_provider_rule_key_def by metis
  then show ?thesis using that by (simp add: fm_contains_def)
qed

subsection \<open>Composition\<close>

lemma is_provider_rule_name_append: "is_provider_rule_name p \<Longrightarrow> is_provider_rule_name (p @ t)"
  by (auto simp: is_provider_rule_name_def starts_with_iff)

definition layer_rule :: "string \<Rightarrow> ProviderPolicyLayer \<Rightarrow> NetworkPolicyRule" where
  "layer_rule key layer =
     (if nr_name (pl_rule layer) = [] then (pl_rule layer)\<lparr>nr_name := key\<rparr> else pl_rule layer)"

lemma compose_layer_step:
  obtains key t where
    "compose_layer p layer
       = Some (p\<lparr>sp_network_policies := fmupd key (layer_rule key layer) (sp_network_policies p)\<rparr>)"
    and "fmlookup (sp_network_policies p) key = None" and "key = pl_rule_name layer @ t"
proof -
  obtain k where k: "unique_provider_rule_key p (pl_rule_name layer) = Some k"
    "fmlookup (sp_network_policies p) k = None" "\<exists>t. k = pl_rule_name layer @ t"
    using unique_provider_rule_key_fresh by blast
  then show ?thesis using that by (auto simp: compose_layer_def layer_rule_def)
qed

lemma fm_len_fmupd_new: "fmlookup m k = None \<Longrightarrow> fm_len (fmupd k v m) = Suc (fm_len m)"
  by (simp add: fm_len_card fmlookup_dom_iff)

text \<open>
  The relation between a policy and its composition with layers: \<open>keys\<close> lists, layer by layer, the
  key its rule was inserted under.
\<close>

definition composed ::
  "SandboxPolicy \<Rightarrow> ProviderPolicyLayer list \<Rightarrow> string list \<Rightarrow> SandboxPolicy \<Rightarrow> bool" where
  "composed p layers keys e =
     (e\<lparr>sp_network_policies := sp_network_policies p\<rparr> = p
      \<and> list_all2 (\<lambda>layer key. \<exists>t. key = pl_rule_name layer @ t) layers keys
      \<and> distinct keys \<and> (\<forall>key\<in>set keys. fmlookup (sp_network_policies p) key = None)
      \<and> (\<forall>k. fmlookup (sp_network_policies e) k =
           (case map_of (zip keys (map2 layer_rule keys layers)) k of
              Some r \<Rightarrow> Some r | None \<Rightarrow> fmlookup (sp_network_policies p) k)))"

lemma composed_Cons:
  assumes q: "composed (p\<lparr>sp_network_policies := fmupd key (layer_rule key layer) (sp_network_policies p)\<rparr>)
                layers keys e" (is "composed ?q _ _ _")
    and new: "fmlookup (sp_network_policies p) key = None" and key: "key = pl_rule_name layer @ t"
  shows "composed p (layer # layers) (key # keys) e"
proof -
  have "(e\<lparr>sp_network_policies := sp_network_policies ?q\<rparr>)\<lparr>sp_network_policies := sp_network_policies p\<rparr>
        = ?q\<lparr>sp_network_policies := sp_network_policies p\<rparr>"
    using q by (simp only: composed_def)
  then have static: "e\<lparr>sp_network_policies := sp_network_policies p\<rparr> = p" by simp
  have free: "\<forall>k\<in>set keys. k \<noteq> key \<and> fmlookup (sp_network_policies p) k = None"
    using q by (auto simp: composed_def split: if_splits)
  then have "map_of (zip keys (map2 layer_rule keys layers)) key = None"
    by (auto simp: map_of_eq_None_iff dest: set_zip_leftD)
  moreover have "fmlookup (sp_network_policies e) k =
      (case map_of (zip keys (map2 layer_rule keys layers)) k of
         Some r \<Rightarrow> Some r | None \<Rightarrow> fmlookup (sp_network_policies ?q) k)" for k
    using q by (simp only: composed_def)
  ultimately have "fmlookup (sp_network_policies e) k =
      (case map_of (zip (key # keys) (map2 layer_rule (key # keys) (layer # layers))) k of
         Some r \<Rightarrow> Some r | None \<Rightarrow> fmlookup (sp_network_policies p) k)" for k
    by (cases "k = key") (simp_all split: option.splits)
  moreover have "distinct keys" "list_all2 (\<lambda>layer key. \<exists>t. key = pl_rule_name layer @ t) layers keys"
    using q by (simp_all only: composed_def)
  ultimately show ?thesis using static new key free unfolding composed_def by auto
qed

lemma compose_effective_policy_composed:
  "\<exists>e keys. compose_effective_policy p layers = Some e \<and> composed p layers keys e"
proof (induction layers arbitrary: p)
  case Nil
  show ?case by (simp add: composed_def)
next
  case (Cons layer layers)
  obtain key t where step: "compose_layer p layer
       = Some (p\<lparr>sp_network_policies := fmupd key (layer_rule key layer) (sp_network_policies p)\<rparr>)"
    and new: "fmlookup (sp_network_policies p) key = None" and key: "key = pl_rule_name layer @ t"
    by (rule compose_layer_step)
  let ?q = "p\<lparr>sp_network_policies := fmupd key (layer_rule key layer) (sp_network_policies p)\<rparr>"
  obtain e keys where e: "compose_effective_policy ?q layers = Some e" "composed ?q layers keys e"
    using Cons.IH by blast
  from composed_Cons [OF e(2) new key] step e(1) show ?case by fastforce
qed

lemma composed_length: "composed p layers keys e \<Longrightarrow> length keys = length layers"
  by (metis composed_def list_all2_lengthD)

lemma composed_keys_reserved:
  assumes "composed p layers keys e" and "\<forall>layer\<in>set layers. is_provider_rule_name (pl_rule_name layer)"
  shows "\<forall>key\<in>set keys. is_provider_rule_name key"
  using assms is_provider_rule_name_append
  by (fastforce simp: composed_def list_all2_conv_all_nth in_set_conv_nth)

lemma composed_lookup_user:
  assumes "composed p layers keys e" and "k \<notin> set keys"
  shows "fmlookup (sp_network_policies e) k = fmlookup (sp_network_policies p) k"
  using assms by (auto simp: composed_def split: option.splits dest!: map_of_SomeD set_zip_leftD)

lemma composed_lookup_layer:
  assumes "composed p layers keys e" and "i < length layers"
  shows "fmlookup (sp_network_policies e) (keys ! i) = Some (layer_rule (keys ! i) (layers ! i))"
proof -
  have "length keys = length layers" using assms(1) by (rule composed_length)
  moreover from this assms have
    "map_of (zip keys (map2 layer_rule keys layers)) (keys ! i) = Some (map2 layer_rule keys layers ! i)"
    by (intro map_of_zip_nth) (simp_all add: composed_def)
  ultimately show ?thesis using assms by (simp add: composed_def)
qed

lemma compose_effective_policy_len:
  "compose_effective_policy p layers = Some e
   \<Longrightarrow> fm_len (sp_network_policies e) = fm_len (sp_network_policies p) + length layers"
proof (induction layers arbitrary: p)
  case (Cons layer layers)
  obtain key t where "compose_layer p layer
       = Some (p\<lparr>sp_network_policies := fmupd key (layer_rule key layer) (sp_network_policies p)\<rparr>)"
    "fmlookup (sp_network_policies p) key = None"
    by (rule compose_layer_step)
  then show ?case using Cons by (auto simp: fm_len_fmupd_new)
qed simp

text \<open>A generated provider rule name is always reserved, whatever the provider is called, and
  none of its further characters leaves the alphabet of lower-case letters, digits and
  underscore.\<close>
lemma provider_rule_name_reserved:
  "is_provider_rule_name (provider_rule_name name)
   \<and> list_all (\<lambda>c. is_ascii_alphanumeric c \<and> ascii_lower c = c \<or> c = CHR ''_'') (provider_rule_name name)"
proof -
  let ?ok = "\<lambda>c. is_ascii_alphanumeric c \<and> ascii_lower c = c \<or> c = CHR ''_''"
  have alnum: "is_ascii_alphanumeric c \<Longrightarrow> is_ascii_alphanumeric (ascii_lower c)" for c
    by (auto simp: is_ascii_alphanumeric_def is_ascii_digit_def ascii_lower_def)
  have us: "ascii_lower CHR ''_'' = CHR ''_''" by code_simp
  have "?ok (provider_name_char ch)" for ch
    using alnum us by (auto simp: provider_name_char_def split: list.splits)
  then have all: "\<forall>c\<in>set (map provider_name_char (utf8_chunks name)). ?ok c" by auto
  have "set (trim_matches CHR ''_'' s) \<subseteq> set s" for s
    by (auto simp: trim_matches_def trim_end_matches_def dest!: set_dropWhileD)
  with all have "list_all ?ok (trim_matches CHR ''_'' (map provider_name_char (utf8_chunks name)))"
    unfolding list_all_iff by blast
  moreover have "list_all ?ok PROVIDER_RULE_NAME_PREFIX" "list_all ?ok ''unnamed''" by code_simp+
  ultimately show ?thesis
    by (auto simp: provider_rule_name_def is_provider_rule_name_def Let_def)
qed

section \<open>Properties\<close>

definition sample_user_rule :: NetworkPolicyRule where
  "sample_user_rule = \<lparr>nr_name = ''web'', nr_endpoints = [], nr_binaries = []\<rparr>"

definition sample_user_policy :: SandboxPolicy where
  "sample_user_policy = empty_policy\<lparr>sp_network_policies := fmap_of_list [(''web'', sample_user_rule)]\<rparr>"

definition sample_layers :: "ProviderPolicyLayer list" where
  "sample_layers =
     [\<lparr>pl_rule_name = provider_rule_name ''GitHub'', pl_rule = sample_user_rule\<lparr>nr_name := []\<rparr>\<rparr>,
      \<lparr>pl_rule_name = provider_rule_name ''github!'', pl_rule = sample_user_rule\<rparr>]"

text \<open>C37. Composition always succeeds (the \<open>unreachable!\<close> after the suffix search is never
  reached) and keeps the static fields. Each provider layer gets a key of its own, which extends
  the layer's rule name and is used by no user rule; the composed policy holds the layers' rules
  under these keys, the user rules under theirs, and nothing else. The key of a layer is reserved
  whenever its rule name is, as the names generated by \<open>provider_rule_name\<close> are.\<close>
theorem compose_preserves_and_adds:
  "\<exists>e keys. compose_effective_policy p layers = Some e
     \<and> e\<lparr>sp_network_policies := sp_network_policies p\<rparr> = p
     \<and> length keys = length layers \<and> distinct keys
     \<and> (\<forall>i < length layers. (\<exists>t. keys ! i = pl_rule_name (layers ! i) @ t)
          \<and> (is_provider_rule_name (pl_rule_name (layers ! i)) \<longrightarrow> is_provider_rule_name (keys ! i))
          \<and> (\<forall>name. pl_rule_name (layers ! i) = provider_rule_name name \<longrightarrow> is_provider_rule_name (keys ! i))
          \<and> fmlookup (sp_network_policies p) (keys ! i) = None
          \<and> fmlookup (sp_network_policies e) (keys ! i) = Some (layer_rule (keys ! i) (layers ! i)))
     \<and> (\<forall>k. k \<notin> set keys \<longrightarrow> fmlookup (sp_network_policies e) k = fmlookup (sp_network_policies p) k)"
proof -
  obtain e keys where c: "compose_effective_policy p layers = Some e" "composed p layers keys e"
    using compose_effective_policy_composed by blast
  note n = composed_length [OF c(2)]
  have ext: "\<exists>t. keys ! i = pl_rule_name (layers ! i) @ t" if "i < length layers" for i
  proof -
    have "list_all2 (\<lambda>layer key. \<exists>t. key = pl_rule_name layer @ t) layers keys"
      using c(2) by (simp only: composed_def)
    from list_all2_nthD [OF this that] show ?thesis .
  qed
  have res: "is_provider_rule_name (keys ! i)"
    if "i < length layers" "is_provider_rule_name (pl_rule_name (layers ! i))" for i
    using ext [OF that(1)] that(2) is_provider_rule_name_append by auto
  have new: "fmlookup (sp_network_policies p) (keys ! i) = None" if "i < length layers" for i
  proof -
    have "\<forall>key\<in>set keys. fmlookup (sp_network_policies p) key = None"
      using c(2) unfolding composed_def by blast
    then show ?thesis using that n by simp
  qed
  have d: "distinct keys" "e\<lparr>sp_network_policies := sp_network_policies p\<rparr> = p"
    using c(2) by (simp_all only: composed_def)
  show ?thesis
    by (intro exI [of _ e] exI [of _ keys] conjI allI impI)
      (rule c(1) n d | erule ext new res composed_lookup_user [OF c(2)] composed_lookup_layer [OF c(2)]
       | simp add: res provider_rule_name_reserved)+
qed

theorem compose_preserves_and_adds_witness:
  "\<exists>e key key'. compose_effective_policy sample_user_policy sample_layers = Some e
     \<and> fmlookup (sp_network_policies e) ''web'' = Some sample_user_rule
     \<and> is_provider_rule_name key \<and> is_provider_rule_name key' \<and> key \<noteq> key'
     \<and> fmlookup (sp_network_policies e) key = Some (sample_user_rule\<lparr>nr_name := key\<rparr>)
     \<and> fmlookup (sp_network_policies e) key' = Some sample_user_rule"
proof -
  have two: "length sample_layers = 2" by (simp add: sample_layers_def)
  obtain e keys where e: "compose_effective_policy sample_user_policy sample_layers = Some e"
    and n: "length keys = length sample_layers" and d: "distinct keys"
    and layer: "\<And>i. i < length sample_layers \<Longrightarrow>
          (is_provider_rule_name (pl_rule_name (sample_layers ! i)) \<longrightarrow> is_provider_rule_name (keys ! i))
          \<and> fmlookup (sp_network_policies e) (keys ! i) = Some (layer_rule (keys ! i) (sample_layers ! i))"
    and user: "\<And>k. k \<notin> set keys \<Longrightarrow>
          fmlookup (sp_network_policies e) k = fmlookup (sp_network_policies sample_user_policy) k"
    using compose_preserves_and_adds [of sample_user_policy sample_layers] by (elim exE conjE) simp
  have r: "is_provider_rule_name (pl_rule_name (sample_layers ! 0))"
    "is_provider_rule_name (pl_rule_name (sample_layers ! 1))" by code_simp+
  have l: "layer_rule k (sample_layers ! 0) = sample_user_rule\<lparr>nr_name := k\<rparr>"
    "layer_rule k (sample_layers ! 1) = sample_user_rule" for k
    by (simp_all add: layer_rule_def sample_layers_def sample_user_rule_def)
  have keys: "is_provider_rule_name (keys ! 0)" "is_provider_rule_name (keys ! 1)"
    "fmlookup (sp_network_policies e) (keys ! 0) = Some (sample_user_rule\<lparr>nr_name := keys ! 0\<rparr>)"
    "fmlookup (sp_network_policies e) (keys ! 1) = Some sample_user_rule"
    using layer [of 0] layer [of 1] r l two by simp_all
  have ne: "keys ! 0 \<noteq> keys ! 1" using d n two by (simp add: nth_eq_iff_index_eq)
  have "\<not> is_provider_rule_name ''web''" by code_simp
  then have "''web'' \<notin> set keys"
    using keys(1,2) n two by (metis One_nat_def in_set_conv_nth less_2_cases)
  moreover have "fmlookup (sp_network_policies sample_user_policy) ''web'' = Some sample_user_rule" by code_simp
  ultimately have "fmlookup (sp_network_policies e) ''web'' = Some sample_user_rule" using user by simp
  with e keys ne show ?thesis by (intro exI conjI)
qed

text \<open>Only the names of the layers make the keys reserved: a layer with another name is composed
  under that name.\<close>

lemma unreserved_layer_key:
  "map_option (\<lambda>e. fm_keys (sp_network_policies e))
     (compose_effective_policy empty_policy [\<lparr>pl_rule_name = ''plain'', pl_rule = sample_user_rule\<rparr>])
   = Some [''plain'']" "\<not> is_provider_rule_name ''plain''"
  by code_simp+

text \<open>C38. Stripping undoes composition: when the user policy uses no reserved key and every layer
  does, removing the provider rules of the composed policy gives the user policy back, and the
  returned flag tells whether there was any layer.\<close>
theorem strip_compose_roundtrip:
  assumes "compose_effective_policy p layers = Some e"
    and "\<forall>layer\<in>set layers. is_provider_rule_name (pl_rule_name layer)"
    and "\<forall>k. fm_contains (sp_network_policies p) k \<longrightarrow> \<not> is_provider_rule_name k"
  shows "strip_provider_rule_names e = (p, layers \<noteq> [])"
proof -
  obtain keys where c: "composed p layers keys e"
    using compose_effective_policy_composed [of p layers] assms(1) by auto
  have reserved: "\<forall>key\<in>set keys. is_provider_rule_name key" using composed_keys_reserved [OF c assms(2)] .
  have kept: "fmfilter (\<lambda>key. \<not> is_provider_rule_name key) (sp_network_policies e) = sp_network_policies p"
  proof (rule fmap_ext)
    fix k
    show "fmlookup (fmfilter (\<lambda>key. \<not> is_provider_rule_name key) (sp_network_policies e)) k
          = fmlookup (sp_network_policies p) k"
      using composed_lookup_user [OF c, of k] reserved assms(3)
      by (cases "fmlookup (sp_network_policies p) k") (auto simp: fm_contains_def)
  qed
  have "fm_len (sp_network_policies e) = fm_len (sp_network_policies p) + length layers"
    by (rule compose_effective_policy_len [OF assms(1)])
  then show ?thesis using c kept by (auto simp: strip_provider_rule_names_def composed_def)
qed

theorem strip_compose_roundtrip_witness:
  "\<exists>e. compose_effective_policy sample_user_policy sample_layers = Some e
       \<and> strip_provider_rule_names e = (sample_user_policy, True)"
proof -
  obtain e where e: "compose_effective_policy sample_user_policy sample_layers = Some e"
    using compose_effective_policy_composed by blast
  have l: "\<forall>layer\<in>set sample_layers. is_provider_rule_name (pl_rule_name layer)" by code_simp
  have web: "\<not> is_provider_rule_name ''web''" by code_simp
  have "k = ''web''" if "fm_contains (sp_network_policies sample_user_policy) k" for k
    using that by (simp add: sample_user_policy_def fm_contains_def split: if_splits)
  with web have u: "\<forall>k. fm_contains (sp_network_policies sample_user_policy) k \<longrightarrow> \<not> is_provider_rule_name k"
    by metis
  have "(sample_layers \<noteq> []) = True" by (simp add: sample_layers_def)
  with strip_compose_roundtrip [OF e l u]
  have "strip_provider_rule_names e = (sample_user_policy, True)" by (simp only:)
  with e show ?thesis by (intro exI conjI)
qed

end
