(* ===== verification/Merge_Types.thy ===== *)
theory Merge_Types
  imports Policy_Validate Policy_Compose
begin

text \<open>
  The operations, warnings and errors of the policy merge, with their messages
  (the declarations at the head of \<open>openshell-policy/src/merge.rs\<close>). The message of an error
  matters: a skipped fold carries the rendered conflict in its warning.
\<close>

section \<open>Definitions\<close>

definition ANY_BINARY_SCOPE :: string where "ANY_BINARY_SCOPE = ''any binary''"

datatype L7BinaryScope = AnyBinary | Restricted "NetworkBinary list"

record L7RuleTarget =
  lt_rule_name :: string
  lt_host :: string
  lt_ports :: "nat list"
  lt_path :: "string option"
  lt_binaries :: L7BinaryScope

datatype (plugins only: code size) PolicyMergeOp =
    AddRule string NetworkPolicyRule
  | RemoveEndpoint "string option" string nat
  | RemoveRule string
  | AddDenyRules L7RuleTarget "L7DenyRule list"
  | AddAllowRules L7RuleTarget "L7Rule list"
  | RemoveBinary string string

datatype (plugins only: code size) PolicyMergeWarning =
    ExistingProtocolRetained string nat string string
  | ExistingEnforcementRetained string nat string string
  | ExistingTlsRetained string nat string string
  | ExistingAccessRetained string nat string string
  | ExpandedAccessPreset string nat string
  | IgnoredIncomingAccessBecauseRulesExist string nat string
  | ExistingAnyBinaryScopeRetained string "string list"
  | KeptRequestedRuleNameToAvoidWidening string string string

definition at_port :: "string \<Rightarrow> nat \<Rightarrow> string" where
  "at_port host port = host @ '':'' @ show_nat port"

definition retained_text :: "string \<Rightarrow> nat \<Rightarrow> string \<Rightarrow> string \<Rightarrow> string \<Rightarrow> string" where
  "retained_text host port field existing incoming =
     ''endpoint '' @ at_port host port @ '' keeps existing '' @ field @ '' '' @ quoted existing
     @ '' and ignores incoming '' @ quoted incoming"

primrec warning_display :: "PolicyMergeWarning \<Rightarrow> string" where
  "warning_display (ExistingProtocolRetained host port existing incoming) =
     retained_text host port ''protocol'' existing incoming"
| "warning_display (ExistingEnforcementRetained host port existing incoming) =
     retained_text host port ''enforcement'' existing incoming"
| "warning_display (ExistingTlsRetained host port existing incoming) =
     retained_text host port ''tls mode'' existing incoming"
| "warning_display (ExistingAccessRetained host port existing incoming) =
     retained_text host port ''access preset'' existing incoming"
| "warning_display (ExpandedAccessPreset host port access) =
     ''expanded access preset '' @ quoted access @ '' to explicit rules for endpoint ''
     @ at_port host port"
| "warning_display (IgnoredIncomingAccessBecauseRulesExist host port incoming) =
     ''endpoint '' @ at_port host port @ '' already uses explicit rules; incoming access preset ''
     @ quoted incoming @ '' was ignored''"
| "warning_display (ExistingAnyBinaryScopeRetained rule_name incoming) =
     ''rule '' @ quoted rule_name
     @ '' already authorizes any binary; kept that scope instead of narrowing it to ''
     @ join '', '' incoming"
| "warning_display (KeptRequestedRuleNameToAvoidWidening rule_name overlapping reason) =
     ''kept add-rule '' @ quoted rule_name
     @ '' on its own rule instead of folding it into overlapping rule '' @ quoted overlapping
     @ '': '' @ reason"

datatype (plugins only: code size) PolicyMergeError =
    InvalidInputPolicy "PolicyViolation list"
  | InvalidOperationPolicy nat "PolicyViolation list"
  | MissingRuleNameForAddRule
  | EmptyAddRuleEndpoints nat string
  | McpContractConflict nat string nat string string
  | NewBinaryWouldInheritAuthorization nat string string string "nat list"
  | ExistingBinariesWouldInheritAuthorization nat string string "nat list" "string list"
  | UndeclaredPortWouldChange nat string string "nat list"
  | ConflictingInspectionContracts string nat "string list"
  | InvalidL7Target nat string
  | L7TargetNotFound string string "nat list" "string option"
  | AmbiguousL7Target string string "nat list" "string list"
  | L7BinaryScopeMismatch string "string list" "string list"
  | L7PortScopeMismatch string string "nat list" "nat list"
  | CannotRemoveBinaryFromAnyBinaryScope nat string string
  | InvalidMergedPolicy "PolicyViolation list"
  | InvalidEndpointReference string nat
  | EndpointNotFound string nat
  | EndpointHasNoL7Inspection string nat
  | UnsupportedEndpointProtocol string nat string
  | EndpointHasNoAllowBase string nat
  | UnsupportedAccessPreset string nat string

definition write_policy_violations :: "string \<Rightarrow> PolicyViolation list \<Rightarrow> string" where
  "write_policy_violations context violations =
     context @ concat (map (\<lambda>v. ''; '' @ violation_display v) violations)"

definition debug_option_str :: "string option \<Rightarrow> string" where
  "debug_option_str v = (case v of None \<Rightarrow> ''None'' | Some s \<Rightarrow> ''Some('' @ debug_str s @ '')'')"

abbreviation (input) debug_ports :: "nat list \<Rightarrow> string" where
  "debug_ports \<equiv> debug_list show_nat"

abbreviation (input) op_text :: "nat \<Rightarrow> string \<Rightarrow> string" where
  "op_text index rest \<equiv> ''merge operation '' @ show_nat index @ '' '' @ rest"

abbreviation (input) add_rule_text :: "nat \<Rightarrow> string \<Rightarrow> string \<Rightarrow> string" where
  "add_rule_text index name rest \<equiv> op_text index (''add-rule '' @ quoted name @ '' '' @ rest)"

abbreviation (input) target_text :: "string \<Rightarrow> string \<Rightarrow> string" where
  "target_text name rest \<equiv> ''L7 target in rule '' @ quoted name @ '' '' @ rest"

primrec error_display :: "PolicyMergeError \<Rightarrow> string" where
  "error_display (InvalidInputPolicy violations) =
     write_policy_violations ''current policy is invalid'' violations"
| "error_display (InvalidOperationPolicy index violations) =
     write_policy_violations (op_text index ''carries an invalid policy rule'') violations"
| "error_display MissingRuleNameForAddRule = ''add-rule operation requires a rule name''"
| "error_display (EmptyAddRuleEndpoints index name) =
     add_rule_text index name ''must contain at least one endpoint''"
| "error_display (McpContractConflict index host port existing incoming) =
     op_text index (''cannot combine MCP contracts at '' @ at_port host port @ '': existing ''
       @ existing @ '', incoming '' @ incoming)"
| "error_display (NewBinaryWouldInheritAuthorization index name scope host ports) =
     add_rule_text index name (''would grant '' @ scope @ '' undeclared authorization for '' @ host
       @ '' on ports '' @ debug_ports ports)"
| "error_display (ExistingBinariesWouldInheritAuthorization index name host ports undeclared) =
     add_rule_text index name (''would grant existing binaries new or changed authorization for ''
       @ host @ '' on ports '' @ debug_ports ports @ ''; also declare '' @ join '', '' undeclared)"
| "error_display (UndeclaredPortWouldChange index name host ports) =
     add_rule_text index name (''would change authorization for '' @ host @ '' on undeclared ports ''
       @ debug_ports ports @ ''; declare every port of the endpoint it modifies'')"
| "error_display (ConflictingInspectionContracts host port contracts) =
     at_port host port @ '' would carry more than one L7 inspection contract (''
     @ join '', '' contracts @ ''); the sandbox resolves one contract per host and port, so these ''
     @ ''cannot coexist even in different rules or under different paths''"
| "error_display (InvalidL7Target index reason) =
     op_text index (''has an invalid L7 target: '' @ reason)"
| "error_display (L7TargetNotFound name host ports path) =
     target_text name (''for '' @ host @ '' on ports '' @ debug_ports ports
       @ '' with endpoint path '' @ debug_option_str path @ '' was not found'')"
| "error_display (AmbiguousL7Target name host ports paths) =
     target_text name (''for '' @ host @ '' on ports '' @ debug_ports ports
       @ '' matches endpoint paths '' @ debug_list debug_str paths
       @ ''; declare the exact endpoint path'')"
| "error_display (L7BinaryScopeMismatch name expected declared) =
     target_text name (''declares binary scope '' @ debug_list debug_str declared
       @ '', but the append affects '' @ debug_list debug_str expected
       @ ''; declare the complete binary scope'')"
| "error_display (L7PortScopeMismatch name host expected declared) =
     target_text name (''for '' @ host @ '' declares ports '' @ debug_ports declared
       @ '', but the append affects '' @ debug_ports expected
       @ ''; declare the complete endpoint port set'')"
| "error_display (CannotRemoveBinaryFromAnyBinaryScope index name path) =
     op_text index (''cannot remove binary '' @ quoted path @ '' from rule '' @ quoted name
       @ '' because the rule authorizes any binary; replace the policy with an explicit binary ''
       @ ''list or remove the rule'')"
| "error_display (InvalidMergedPolicy violations) =
     write_policy_violations ''merge produced an invalid policy'' violations"
| "error_display (InvalidEndpointReference host port) =
     ''invalid endpoint reference '' @ quoted (at_port host port)"
| "error_display (EndpointNotFound host port) =
     ''endpoint '' @ at_port host port @ '' was not found in the current policy''"
| "error_display (EndpointHasNoL7Inspection host port) =
     ''endpoint '' @ at_port host port @ '' has no L7 inspection configured (protocol is empty)''"
| "error_display (UnsupportedEndpointProtocol host port protocol) =
     ''endpoint '' @ at_port host port @ '' uses unsupported protocol '' @ quoted protocol
     @ ''; this operation currently supports only protocol '' @ quoted ''rest'' @ '' or ''
     @ quoted ''websocket''"
| "error_display (EndpointHasNoAllowBase host port) =
     ''endpoint '' @ at_port host port
     @ '' has no base allow set; configure access or explicit allow rules before adding deny rules''"
| "error_display (UnsupportedAccessPreset host port access) =
     ''endpoint '' @ at_port host port @ '' uses unsupported access preset '' @ quoted access"

subsection \<open>Target validation\<close>

definition target_host_char_bad :: "nat \<Rightarrow> bool" where
  "target_host_char_bad c =
     (is_whitespace c \<or> is_control c \<or> c \<in> {47, 63, 35, 64})" \<comment> \<open>\<open>/ ? # @\<close>\<close>

definition L7RuleTarget_validate :: "L7RuleTarget \<Rightarrow> nat \<Rightarrow> PolicyMergeError + unit" where
  "L7RuleTarget_validate t index =
     (if str_trim (lt_rule_name t) = [] \<or> str_trim (lt_rule_name t) \<noteq> lt_rule_name t
         \<or> list_ex is_control (chars (lt_rule_name t))
      then Inl (InvalidL7Target index ''rule_name must name a sandbox-owned rule'')
      else if is_provider_rule_name (lt_rule_name t)
      then Inl (InvalidL7Target index ''provider-owned rules cannot receive L7 appends'')
      else if lt_host t = [] \<or> list_ex target_host_char_bad (chars (lt_host t))
              \<or> host_wildcard_shape_invalid (lt_host t)
      then Inl (InvalidL7Target index ''host must be a nonempty endpoint host selector'')
      else if lt_ports t = [] \<or> list_ex (\<lambda>port. \<not> (1 \<le> port \<and> port \<le> 65535)) (lt_ports t)
      then Inl (InvalidL7Target index ''ports must declare a nonempty set in 1..=65535'')
      else
        (case lt_binaries t of
           Restricted binaries \<Rightarrow>
             if binaries = [] \<or> list_ex (\<lambda>b. str_trim (nb_path b) = []) binaries
             then Inl (InvalidL7Target index
               (''restricted binary scope must contain nonempty binary paths; use Any for an ''
                @ ''any-binary rule''))
             else Inr ()
         | AnyBinary \<Rightarrow> Inr ()))"

definition is_authorization_inheritance_conflict :: "PolicyMergeError \<Rightarrow> bool" where
  "is_authorization_inheritance_conflict e =
     (case e of
        NewBinaryWouldInheritAuthorization _ _ _ _ _ \<Rightarrow> True
      | ExistingBinariesWouldInheritAuthorization _ _ _ _ _ \<Rightarrow> True
      | UndeclaredPortWouldChange _ _ _ _ \<Rightarrow> True
      | _ \<Rightarrow> False)"

end
