(* ===== verification/Merge_Endpoint.thy ===== *)
theory Merge_Endpoint
  imports Merge_Types
begin

text \<open>
  Endpoints under the merge (\<open>openshell-policy/src/merge.rs\<close>): normalization, coverage of one
  endpoint by another, MCP inspection contracts, and the field-by-field merge of an incoming
  endpoint into an existing one. Warnings pushed by a Rust function are returned beside its
  result, in order.
\<close>

section \<open>Definitions\<close>

definition DEFAULT_JSON_RPC_MAX_BODY_BYTES :: nat where
  "DEFAULT_JSON_RPC_MAX_BODY_BYTES = 64 * 1024"

subsection \<open>Ports, labels and normalization\<close>

definition canonical_ports :: "NetworkEndpoint \<Rightarrow> nat list" where
  "canonical_ports ep =
     (if ne_ports ep \<noteq> [] then ne_ports ep else if ne_port ep > 0 then [ne_port ep] else [])"

definition set_ports :: "nat list \<Rightarrow> NetworkEndpoint \<Rightarrow> NetworkEndpoint" where
  "set_ports ports ep = ep\<lparr>ne_port := first_or 0 ports, ne_ports := ports\<rparr>"

definition tls_label :: "int \<Rightarrow> string" where
  "tls_label value = (case network_tls_mode_to_str value of None \<Rightarrow> show_int value | Some s \<Rightarrow> s)"

definition enforcement_label :: "int \<Rightarrow> string" where
  "enforcement_label value =
     (case network_enforcement_mode_to_str value of None \<Rightarrow> show_int value | Some s \<Rightarrow> s)"

definition access_label :: "int \<Rightarrow> string" where
  "access_label value =
     (case network_access_preset_to_str value of None \<Rightarrow> show_int value | Some s \<Rightarrow> s)"

definition dedup_strings :: "string list \<Rightarrow> string list" where
  "dedup_strings values = dedup_by (\<lambda>v. v) {} values"

definition dedup_binaries :: "NetworkBinary list \<Rightarrow> NetworkBinary list" where
  "dedup_binaries values = dedup_by nb_path {} values"

definition dedup_l7_rules :: "L7Rule list \<Rightarrow> L7Rule list" where
  "dedup_l7_rules values = append_unique [] values"

definition dedup_deny_rules :: "L7DenyRule list \<Rightarrow> L7DenyRule list" where
  "dedup_deny_rules values = append_unique [] values"

definition normalize_endpoint :: "NetworkEndpoint \<Rightarrow> NetworkEndpoint" where
  "normalize_endpoint ep =
     (set_ports (sort_dedup (canonical_ports ep)) ep)
       \<lparr>ne_allowed_ips := dedup_strings (ne_allowed_ips ep),
        ne_rules := dedup_l7_rules (ne_rules ep),
        ne_deny_rules := dedup_deny_rules (ne_deny_rules ep),
        ne_mcp := map_option canonicalize_mcp_options (ne_mcp ep)\<rparr>"

definition normalize_rule :: "NetworkPolicyRule \<Rightarrow> NetworkPolicyRule" where
  "normalize_rule rule =
     rule\<lparr>nr_endpoints := map normalize_endpoint (nr_endpoints rule),
          nr_binaries := dedup_binaries (nr_binaries rule)\<rparr>"

definition append_unique_binaries :: "NetworkBinary list \<Rightarrow> NetworkBinary list \<Rightarrow> NetworkBinary list" where
  "append_unique_binaries existing incoming =
     existing @ dedup_by nb_path (set (map nb_path existing)) incoming"

definition append_unique_strings :: "string list \<Rightarrow> string list \<Rightarrow> string list" where
  "append_unique_strings existing incoming = existing @ dedup_by (\<lambda>v. v) (set existing) incoming"

definition append_unique_l7_rules :: "L7Rule list \<Rightarrow> L7Rule list \<Rightarrow> L7Rule list" where
  "append_unique_l7_rules existing incoming = append_unique existing incoming"

definition append_unique_deny_rules :: "L7DenyRule list \<Rightarrow> L7DenyRule list \<Rightarrow> L7DenyRule list" where
  "append_unique_deny_rules existing incoming = append_unique existing incoming"

subsection \<open>Inspection contracts\<close>

record EffectiveMcpContract =
  ec_versions :: "string list"
  ec_strict_tool_names :: bool
  ec_allow_all_known_mcp_methods :: bool
  ec_max_body_bytes :: nat

definition effective_json_rpc_max_body_bytes :: "nat \<Rightarrow> nat" where
  "effective_json_rpc_max_body_bytes value =
     (if value = 0 then DEFAULT_JSON_RPC_MAX_BODY_BYTES else value)"

definition effective_mcp_contract :: "NetworkEndpoint \<Rightarrow> EffectiveMcpContract option" where
  "effective_mcp_contract ep =
     (if \<not> eq_ignore_ascii_case (ne_protocol ep) ''mcp'' then None
      else case ne_mcp ep of
        None \<Rightarrow> None
      | Some mcp \<Rightarrow>
          let options = canonicalize_mcp_options mcp
          in Some \<lparr>ec_versions = mo_versions options,
                  ec_strict_tool_names =
                    (case mo_strict_tool_names options of None \<Rightarrow> True | Some b \<Rightarrow> b),
                  ec_allow_all_known_mcp_methods =
                    (case mo_allow_all_known_mcp_methods options of None \<Rightarrow> False | Some b \<Rightarrow> b),
                  ec_max_body_bytes = effective_json_rpc_max_body_bytes (ne_json_rpc_max_body_bytes ep)\<rparr>)"

definition endpoint_uses_mcp :: "NetworkEndpoint \<Rightarrow> bool" where
  "endpoint_uses_mcp ep = (eq_ignore_ascii_case (ne_protocol ep) ''mcp'' \<or> ne_mcp ep \<noteq> None)"

definition mcp_contracts_match :: "NetworkEndpoint \<Rightarrow> NetworkEndpoint \<Rightarrow> bool" where
  "mcp_contracts_match left right =
     (case (effective_mcp_contract left, effective_mcp_contract right) of
        (None, None) \<Rightarrow> \<not> endpoint_uses_mcp left \<and> \<not> endpoint_uses_mcp right
      | (Some l, Some r) \<Rightarrow> l = r
      | _ \<Rightarrow> False)"

definition describe_mcp_contract :: "NetworkEndpoint \<Rightarrow> string" where
  "describe_mcp_contract ep =
     (case effective_mcp_contract ep of
        None \<Rightarrow> ''non-mcp(protocol='' @ quoted (ne_protocol ep) @ '')''
      | Some contract \<Rightarrow>
          ''mcp(versions='' @ debug_list debug_str (ec_versions contract)
          @ '', strict_tool_names='' @ show_bool (ec_strict_tool_names contract)
          @ '', allow_all_known_mcp_methods='' @ show_bool (ec_allow_all_known_mcp_methods contract)
          @ '', max_body_bytes='' @ show_nat (ec_max_body_bytes contract) @ '')'')"

definition promotes_l4_endpoint_to_mcp :: "NetworkEndpoint \<Rightarrow> NetworkEndpoint \<Rightarrow> bool" where
  "promotes_l4_endpoint_to_mcp existing incoming =
     (ne_protocol existing = [] \<and> ne_mcp existing = None \<and> ne_json_rpc_max_body_bytes existing = 0
      \<and> effective_mcp_contract incoming \<noteq> None)"

definition ensure_mcp_contract_compatible ::
  "NetworkEndpoint \<Rightarrow> NetworkEndpoint \<Rightarrow> nat \<Rightarrow> string \<Rightarrow> nat \<Rightarrow> PolicyMergeError + unit" where
  "ensure_mcp_contract_compatible existing incoming index host port =
     (if promotes_l4_endpoint_to_mcp existing incoming \<or> mcp_contracts_match existing incoming then Inr ()
      else Inl (McpContractConflict index host port
             (describe_mcp_contract existing) (describe_mcp_contract incoming)))"

subsection \<open>Coverage\<close>

definition unset_or_equal :: "'a \<Rightarrow> 'a \<Rightarrow> ('a \<Rightarrow> bool) \<Rightarrow> bool" where
  "unset_or_equal proposed loaded is_unset = (is_unset proposed \<or> proposed = loaded)"

definition contains_all :: "'a list \<Rightarrow> 'a list \<Rightarrow> bool" where
  "contains_all loaded proposed = list_all (\<lambda>item. item \<in> set loaded) proposed"

definition flag_covers :: "bool \<Rightarrow> bool \<Rightarrow> bool" where
  "flag_covers loaded proposed = (loaded \<or> \<not> proposed)"

definition protocols_match :: "string \<Rightarrow> string \<Rightarrow> bool" where
  "protocols_match left right =
     (if eq_ignore_ascii_case left ''mcp'' \<or> eq_ignore_ascii_case right ''mcp''
      then eq_ignore_ascii_case left ''mcp'' \<and> eq_ignore_ascii_case right ''mcp''
      else left = right)"

definition effective_enforcement :: "int \<Rightarrow> int" where
  "effective_enforcement value =
     (if value = ENFORCEMENT_UNSPECIFIED then ENFORCEMENT_AUDIT else value)"

definition retained_fields_cover :: "NetworkEndpoint \<Rightarrow> NetworkEndpoint \<Rightarrow> bool" where
  "retained_fields_cover loaded proposed =
     ((ne_protocol proposed \<noteq> [] \<longrightarrow> protocols_match (ne_protocol loaded) (ne_protocol proposed))
      \<and> (ne_tls proposed \<noteq> TLS_UNSPECIFIED \<longrightarrow> ne_tls loaded = ne_tls proposed)
      \<and> (ne_enforcement proposed \<noteq> ENFORCEMENT_UNSPECIFIED
          \<longrightarrow> effective_enforcement (ne_enforcement loaded) = effective_enforcement (ne_enforcement proposed))
      \<and> (ne_access proposed \<noteq> ACCESS_UNSPECIFIED \<longrightarrow> ne_access loaded = ne_access proposed))"

definition widened_fields_cover :: "NetworkEndpoint \<Rightarrow> NetworkEndpoint \<Rightarrow> bool" where
  "widened_fields_cover loaded proposed =
     (contains_all (ne_rules loaded) (ne_rules proposed)
      \<and> contains_all (ne_deny_rules loaded) (ne_deny_rules proposed)
      \<and> contains_all (ne_allowed_ips loaded) (ne_allowed_ips proposed)
      \<and> flag_covers (ne_allow_encoded_slash loaded) (ne_allow_encoded_slash proposed)
      \<and> flag_covers (ne_websocket_credential_rewrite loaded) (ne_websocket_credential_rewrite proposed)
      \<and> flag_covers (ne_request_body_credential_rewrite loaded) (ne_request_body_credential_rewrite proposed)
      \<and> flag_covers (ne_allow_uninspected_credentials loaded) (ne_allow_uninspected_credentials proposed))"

definition dropped_fields_cover :: "NetworkEndpoint \<Rightarrow> NetworkEndpoint \<Rightarrow> bool" where
  "dropped_fields_cover loaded proposed =
     (unset_or_equal (ne_persisted_queries proposed) (ne_persisted_queries loaded) (\<lambda>s. s = [])
      \<and> unset_or_equal (ne_graphql_persisted_queries proposed) (ne_graphql_persisted_queries loaded) fm_is_empty
      \<and> unset_or_equal (ne_graphql_max_body_bytes proposed) (ne_graphql_max_body_bytes loaded) (\<lambda>v. v = 0)
      \<and> unset_or_equal (ne_credential_signing proposed) (ne_credential_signing loaded) (\<lambda>s. s = [])
      \<and> unset_or_equal (ne_signing_service proposed) (ne_signing_service loaded) (\<lambda>s. s = [])
      \<and> unset_or_equal (ne_signing_region proposed) (ne_signing_region loaded) (\<lambda>s. s = [])
      \<and> (endpoint_uses_mcp loaded
          \<or> unset_or_equal (ne_json_rpc_max_body_bytes proposed) (ne_json_rpc_max_body_bytes loaded) (\<lambda>v. v = 0)))"

definition endpoint_attributes_cover :: "NetworkEndpoint \<Rightarrow> NetworkEndpoint \<Rightarrow> bool" where
  "endpoint_attributes_cover loaded proposed =
     (eq_ignore_ascii_case (ne_host loaded) (ne_host proposed) \<and> ne_path loaded = ne_path proposed
      \<and> retained_fields_cover loaded proposed
      \<and> mcp_contracts_match loaded proposed
      \<and> widened_fields_cover loaded proposed
      \<and> dropped_fields_cover loaded proposed)"

definition endpoint_authorization_covers_port ::
  "NetworkEndpoint \<Rightarrow> NetworkEndpoint \<Rightarrow> nat option \<Rightarrow> bool" where
  "endpoint_authorization_covers_port loaded proposed port =
     ((case port of None \<Rightarrow> True | Some p \<Rightarrow> p \<in> set (canonical_ports loaded))
      \<and> endpoint_attributes_cover loaded proposed)"

definition authorization_ports :: "NetworkEndpoint \<Rightarrow> nat option list" where
  "authorization_ports ep =
     (if canonical_ports ep = [] then [None] else map Some (canonical_ports ep))"

definition binary_scope_covers :: "NetworkPolicyRule \<Rightarrow> NetworkBinary \<Rightarrow> bool" where
  "binary_scope_covers rule proposed =
     (nr_binaries rule = [] \<or> list_ex (\<lambda>b. nb_path b = nb_path proposed) (nr_binaries rule))"

definition rule_authorizes :: "NetworkPolicyRule \<Rightarrow> NetworkEndpoint \<Rightarrow> nat option \<Rightarrow> bool" where
  "rule_authorizes rule proposed port =
     list_ex (\<lambda>ep. endpoint_authorization_covers_port ep proposed port) (nr_endpoints rule)"

definition authorization_unit_unchanged ::
  "NetworkEndpoint \<Rightarrow> NetworkEndpoint \<Rightarrow> nat option \<Rightarrow> bool" where
  "authorization_unit_unchanged existing merged port =
     (ne_advisor_proposed existing = ne_advisor_proposed merged
      \<and> endpoint_authorization_covers_port existing merged port
      \<and> endpoint_authorization_covers_port merged existing port)"

definition adopt_unset_retained_fields :: "NetworkEndpoint \<Rightarrow> NetworkEndpoint \<Rightarrow> NetworkEndpoint" where
  "adopt_unset_retained_fields declared merged =
     declared\<lparr>
       ne_protocol := (if ne_protocol declared = [] then ne_protocol merged else ne_protocol declared),
       ne_tls := (if ne_tls declared = TLS_UNSPECIFIED then ne_tls merged else ne_tls declared),
       ne_enforcement :=
         (if ne_enforcement declared = ENFORCEMENT_UNSPECIFIED then ne_enforcement merged
          else ne_enforcement declared),
       ne_access :=
         (if ne_access declared = ACCESS_UNSPECIFIED \<and> ne_rules declared = [] then ne_access merged
          else ne_access declared),
       ne_persisted_queries :=
         (if ne_persisted_queries declared = [] then ne_persisted_queries merged
          else ne_persisted_queries declared),
       ne_graphql_persisted_queries :=
         (if fm_is_empty (ne_graphql_persisted_queries declared) then ne_graphql_persisted_queries merged
          else ne_graphql_persisted_queries declared),
       ne_graphql_max_body_bytes :=
         (if ne_graphql_max_body_bytes declared = 0 then ne_graphql_max_body_bytes merged
          else ne_graphql_max_body_bytes declared),
       ne_credential_signing :=
         (if ne_credential_signing declared = [] then ne_credential_signing merged
          else ne_credential_signing declared),
       ne_signing_service :=
         (if ne_signing_service declared = [] then ne_signing_service merged
          else ne_signing_service declared),
       ne_signing_region :=
         (if ne_signing_region declared = [] then ne_signing_region merged
          else ne_signing_region declared),
       ne_json_rpc_max_body_bytes :=
         (if ne_json_rpc_max_body_bytes declared = 0 then ne_json_rpc_max_body_bytes merged
          else ne_json_rpc_max_body_bytes declared)\<rparr>"

definition endpoints_overlap :: "NetworkEndpoint \<Rightarrow> NetworkEndpoint \<Rightarrow> bool" where
  "endpoints_overlap left right =
     (eq_ignore_ascii_case (ne_host left) (ne_host right)
      \<and> ne_path left = ne_path right
      \<and> list_ex (\<lambda>port. port \<in> set (canonical_ports right)) (canonical_ports left))"

definition endpoint_matches_host_port :: "NetworkEndpoint \<Rightarrow> string \<Rightarrow> nat \<Rightarrow> bool" where
  "endpoint_matches_host_port ep host port =
     (eq_ignore_ascii_case (ne_host ep) host \<and> port \<in> set (canonical_ports ep))"

subsection \<open>Field merges\<close>

definition merge_string_field ::
  "string \<Rightarrow> string \<Rightarrow> PolicyMergeWarning \<Rightarrow> string \<times> PolicyMergeWarning list" where
  "merge_string_field existing incoming warning =
     (if incoming = [] then (existing, [])
      else if existing = [] then (incoming, [])
      else (existing, push_if (existing \<noteq> incoming) warning))"

definition merge_enum_field :: "int \<Rightarrow> int \<Rightarrow> PolicyMergeWarning \<Rightarrow> int \<times> PolicyMergeWarning list" where
  "merge_enum_field existing incoming warning =
     (if incoming = 0 then (existing, [])
      else if existing = 0 then (incoming, [])
      else (existing, push_if (existing \<noteq> incoming) warning))"

definition merge_endpoint_ports :: "NetworkEndpoint \<Rightarrow> NetworkEndpoint \<Rightarrow> NetworkEndpoint" where
  "merge_endpoint_ports existing incoming =
     set_ports (sort_dedup (append_unique (canonical_ports existing) (canonical_ports incoming))) existing"

definition expand_access_preset :: "string \<Rightarrow> string \<Rightarrow> L7Rule list option" where
  "expand_access_preset protocol access =
     map_option
       (map (\<lambda>method. \<lparr>lr_allow = Some (allow_default\<lparr>la_method := method, la_path := ''**''\<rparr>)\<rparr>))
       (schema_expand_access_preset protocol access)"

definition expand_existing_access ::
  "NetworkEndpoint \<Rightarrow> string \<Rightarrow> nat \<Rightarrow> PolicyMergeError + (NetworkEndpoint \<times> PolicyMergeWarning list)" where
  "expand_existing_access ep host port =
     (if ne_access ep = ACCESS_UNSPECIFIED then Inr (ep, [])
      else
        let access = access_label (ne_access ep)
        in case expand_access_preset (ne_protocol ep) access of
             None \<Rightarrow> Inl (UnsupportedAccessPreset host port access)
           | Some expanded \<Rightarrow>
               Inr (ep\<lparr>ne_access := ACCESS_UNSPECIFIED,
                       ne_rules := append_unique_l7_rules (ne_rules ep) expanded\<rparr>,
                    [ExpandedAccessPreset host port access]))"

definition ensure_method_path_endpoint ::
  "NetworkEndpoint \<Rightarrow> string \<Rightarrow> nat \<Rightarrow> PolicyMergeError + unit" where
  "ensure_method_path_endpoint ep host port =
     (if ne_protocol ep = [] then Inl (EndpointHasNoL7Inspection host port)
      else if ne_protocol ep \<notin> {''rest'', ''websocket''}
      then Inl (UnsupportedEndpointProtocol host port (ne_protocol ep))
      else Inr ())"

subsection \<open>Endpoint merge\<close>

text \<open>The host and port that warnings and conflicts of one endpoint merge name.\<close>

definition merge_host :: "NetworkEndpoint \<Rightarrow> NetworkEndpoint \<Rightarrow> string" where
  "merge_host existing incoming = (if ne_host existing = [] then ne_host incoming else ne_host existing)"

definition merge_port :: "NetworkEndpoint \<Rightarrow> NetworkEndpoint \<Rightarrow> nat" where
  "merge_port existing incoming =
     (case List.find (\<lambda>p. p \<in> set (canonical_ports incoming)) (canonical_ports existing) of
        Some p \<Rightarrow> p
      | None \<Rightarrow> first_or 0 (canonical_ports incoming))"

text \<open>Host, path, ports, protocol and, on promotion, the MCP contract; then enforcement and TLS.\<close>

definition merge_endpoint_identity ::
  "NetworkEndpoint \<Rightarrow> NetworkEndpoint \<Rightarrow> NetworkEndpoint \<times> PolicyMergeWarning list" where
  "merge_endpoint_identity existing incoming =
     (let host = merge_host existing incoming;
          port = merge_port existing incoming;
          promotes = promotes_l4_endpoint_to_mcp existing incoming;
          e = existing\<lparr>ne_host := host,
                       ne_path := (if ne_path existing = [] then ne_path incoming else ne_path existing)\<rparr>;
          e = merge_endpoint_ports e incoming;
          (protocol, w1) = merge_string_field (ne_protocol existing) (ne_protocol incoming)
             (ExistingProtocolRetained host port (ne_protocol existing) (ne_protocol incoming));
          e = e\<lparr>ne_protocol := protocol\<rparr>;
          e = (if promotes
               then e\<lparr>ne_mcp := ne_mcp incoming,
                      ne_json_rpc_max_body_bytes := ne_json_rpc_max_body_bytes incoming\<rparr>
               else e);
          (enforcement, w2) = merge_enum_field (ne_enforcement existing) (ne_enforcement incoming)
             (ExistingEnforcementRetained host port (enforcement_label (ne_enforcement existing))
                (enforcement_label (ne_enforcement incoming)));
          (tls, w3) = merge_enum_field (ne_tls existing) (ne_tls incoming)
             (ExistingTlsRetained host port (tls_label (ne_tls existing)) (tls_label (ne_tls incoming)))
      in (e\<lparr>ne_enforcement := enforcement, ne_tls := tls\<rparr>, w1 @ w2 @ w3))"

text \<open>Access presets and explicit allow rules.\<close>

definition merge_endpoint_access ::
  "NetworkEndpoint \<Rightarrow> NetworkEndpoint \<Rightarrow> string \<Rightarrow> nat
   \<Rightarrow> PolicyMergeError + (NetworkEndpoint \<times> PolicyMergeWarning list)" where
  "merge_endpoint_access e incoming host port =
     (if ne_rules incoming \<noteq> [] then
        bindE (expand_existing_access e host port) (\<lambda>(e, w).
          Inr (e\<lparr>ne_rules := append_unique_l7_rules (ne_rules e) (ne_rules incoming)\<rparr>,
               w @ push_if (ne_access incoming \<noteq> ACCESS_UNSPECIFIED)
                     (IgnoredIncomingAccessBecauseRulesExist host port (access_label (ne_access incoming)))))
      else if ne_access incoming \<noteq> ACCESS_UNSPECIFIED then
        (if ne_rules e \<noteq> [] then
           Inr (e, [IgnoredIncomingAccessBecauseRulesExist host port (access_label (ne_access incoming))])
         else if ne_access e = ACCESS_UNSPECIFIED then Inr (e\<lparr>ne_access := ne_access incoming\<rparr>, [])
         else if ne_access e \<noteq> ne_access incoming then
           Inr (e, [ExistingAccessRetained host port (access_label (ne_access e))
                      (access_label (ne_access incoming))])
         else Inr (e, []))
      else Inr (e, []))"

text \<open>Lists and flags that only ever widen, then provenance and normalization.\<close>

definition merge_endpoint_widen :: "NetworkEndpoint \<Rightarrow> NetworkEndpoint \<Rightarrow> NetworkEndpoint" where
  "merge_endpoint_widen e incoming =
     normalize_endpoint
       (e\<lparr>ne_deny_rules := append_unique_deny_rules (ne_deny_rules e) (ne_deny_rules incoming),
          ne_allowed_ips := append_unique_strings (ne_allowed_ips e) (ne_allowed_ips incoming),
          ne_allow_encoded_slash := (ne_allow_encoded_slash e \<or> ne_allow_encoded_slash incoming),
          ne_websocket_credential_rewrite :=
            (ne_websocket_credential_rewrite e \<or> ne_websocket_credential_rewrite incoming),
          ne_request_body_credential_rewrite :=
            (ne_request_body_credential_rewrite e \<or> ne_request_body_credential_rewrite incoming),
          ne_allow_uninspected_credentials :=
            (ne_allow_uninspected_credentials e \<or> ne_allow_uninspected_credentials incoming),
          ne_advisor_proposed := (ne_advisor_proposed e \<and> ne_advisor_proposed incoming)\<rparr>)"

definition merge_endpoint ::
  "NetworkEndpoint \<Rightarrow> NetworkEndpoint \<Rightarrow> nat
   \<Rightarrow> PolicyMergeError + (NetworkEndpoint \<times> PolicyMergeWarning list)" where
  "merge_endpoint existing incoming index =
     (let host = merge_host existing incoming;
          port = merge_port existing incoming
      in bindE (ensure_mcp_contract_compatible existing incoming index host port) (\<lambda>_.
         case merge_endpoint_identity existing incoming of
           (e, w1) \<Rightarrow>
             bindE (merge_endpoint_access e incoming host port) (\<lambda>(e, w2).
               Inr (merge_endpoint_widen e incoming, w1 @ w2))))"

section \<open>Lemmas\<close>

subsection \<open>Ports and normalization\<close>

lemma canonical_ports_effective: "canonical_ports ep = effective_ports ep"
  by (simp add: canonical_ports_def effective_ports_def)

lemma canonical_ports_set_ports [simp]: "canonical_ports (set_ports ports ep) = ports"
  by (cases ports) (simp_all add: canonical_ports_def set_ports_def first_or_def)

lemma canonical_ports_cong:
  "ne_ports a = ne_ports b \<Longrightarrow> ne_port a = ne_port b \<Longrightarrow> canonical_ports a = canonical_ports b"
  by (simp add: canonical_ports_def)

lemma set_ports_frame [simp]:
  "ne_host (set_ports ports ep) = ne_host ep" "ne_path (set_ports ports ep) = ne_path ep"
  "ne_protocol (set_ports ports ep) = ne_protocol ep" "ne_mcp (set_ports ports ep) = ne_mcp ep"
  "ne_json_rpc_max_body_bytes (set_ports ports ep) = ne_json_rpc_max_body_bytes ep"
  by (simp_all add: set_ports_def)

lemma canonical_ports_normalize [simp]:
  "canonical_ports (normalize_endpoint ep) = sort_dedup (canonical_ports ep)"
proof -
  have "canonical_ports (normalize_endpoint ep) = canonical_ports (set_ports (sort_dedup (canonical_ports ep)) ep)"
    by (intro canonical_ports_cong) (simp_all add: normalize_endpoint_def)
  then show ?thesis by simp
qed

lemma set_dedup_by_all: "inj key \<Longrightarrow> set (dedup_by key {} xs) = set xs"
  using keys_dedup_by [of key "{}" xs] by (metis Diff_empty inj_image_eq_iff)

lemma normalize_endpoint_frame [simp]:
  "ne_host (normalize_endpoint ep) = ne_host ep" "ne_path (normalize_endpoint ep) = ne_path ep"
  "ne_protocol (normalize_endpoint ep) = ne_protocol ep" "ne_tls (normalize_endpoint ep) = ne_tls ep"
  "ne_enforcement (normalize_endpoint ep) = ne_enforcement ep"
  "ne_access (normalize_endpoint ep) = ne_access ep"
  "ne_advisor_proposed (normalize_endpoint ep) = ne_advisor_proposed ep"
  "ne_json_rpc_max_body_bytes (normalize_endpoint ep) = ne_json_rpc_max_body_bytes ep"
  "ne_mcp (normalize_endpoint ep) = map_option canonicalize_mcp_options (ne_mcp ep)"
  "set (ne_rules (normalize_endpoint ep)) = set (ne_rules ep)"
  "set (ne_deny_rules (normalize_endpoint ep)) = set (ne_deny_rules ep)"
  "set (ne_allowed_ips (normalize_endpoint ep)) = set (ne_allowed_ips ep)"
  "ne_allow_encoded_slash (normalize_endpoint ep) = ne_allow_encoded_slash ep"
  "ne_websocket_credential_rewrite (normalize_endpoint ep) = ne_websocket_credential_rewrite ep"
  "ne_request_body_credential_rewrite (normalize_endpoint ep) = ne_request_body_credential_rewrite ep"
  "ne_allow_uninspected_credentials (normalize_endpoint ep) = ne_allow_uninspected_credentials ep"
  by (simp_all add: normalize_endpoint_def set_ports_def dedup_l7_rules_def dedup_deny_rules_def
      dedup_strings_def set_dedup_by_ident)

lemma canonicalize_mcp_options_idem [simp]:
  "canonicalize_mcp_options (canonicalize_mcp_options m) = canonicalize_mcp_options m"
  by (simp add: canonicalize_mcp_options_def)

lemma append_unique_Nil_idem: "append_unique [] (append_unique [] xs) = append_unique [] xs"
  by (rule append_unique_distinct_id) simp

lemma normalize_endpoint_idem: "normalize_endpoint (normalize_endpoint ep) = normalize_endpoint ep"
proof -
  have "canonical_ports (normalize_endpoint ep) = sort_dedup (canonical_ports ep)" by simp
  then show ?thesis
    unfolding normalize_endpoint_def [of "normalize_endpoint ep"]
    by (simp add: normalize_endpoint_def set_ports_def dedup_l7_rules_def dedup_deny_rules_def
        dedup_strings_def append_unique_Nil_idem dedup_by_idem option.map_comp o_def)
qed

subsection \<open>Contracts\<close>

text \<open>
  The MCP part of a checked endpoint: options exactly on MCP endpoints, with a nonempty
  allowlist in canonical order.
\<close>

definition mcp_wf :: "NetworkEndpoint \<Rightarrow> bool" where
  "mcp_wf ep =
     (if is_mcp_protocol (ne_protocol ep)
      then (case ne_mcp ep of
              None \<Rightarrow> False
            | Some m \<Rightarrow> mo_versions m \<noteq> [] \<and> canonicalize_mcp_options m = m)
      else ne_mcp ep = None)"

lemma endpoint_mcp_update_id: "ne_mcp ep = m \<Longrightarrow> ep\<lparr>ne_mcp := m\<rparr> = ep"
  by (cases ep) simp

lemma mcp_wf_canonical:
  assumes "mcp_wf ep"
  shows "canonical_endpoint ep = ep"
proof (cases "ne_mcp ep")
  case None
  then show ?thesis using assms
    by (simp add: mcp_wf_def canonical_endpoint_def canonicalize_endpoint_versions_def
        materialize_endpoint_def split: if_splits)
next
  case (Some m)
  then have m: "is_mcp_protocol (ne_protocol ep)" "mo_versions m \<noteq> []" "canonicalize_mcp_options m = m"
    using assms by (simp_all add: mcp_wf_def split: if_splits)
  then show ?thesis using Some endpoint_mcp_update_id [OF Some]
    by (simp add: canonical_endpoint_def canonicalize_endpoint_versions_def materialize_endpoint_def)
qed

lemma canonicalize_versions_Nil [simp]:
  "mo_versions (canonicalize_mcp_options m) = [] \<longleftrightarrow> mo_versions m = []"
  by (simp add: canonicalize_mcp_options_def)

lemma mcp_wf_normalize [simp]:
  assumes "mcp_wf ep"
  shows "mcp_wf (normalize_endpoint ep)"
  using assms by (cases "ne_mcp ep") (simp_all add: mcp_wf_def split: if_splits)

lemma not_mcp_Nil [simp]: "\<not> is_mcp_protocol []"
  by (simp add: is_mcp_protocol_def eq_ignore_ascii_case_def to_ascii_lowercase_def)

lemma effective_mcp_contract_None_iff:
  "mcp_wf ep \<Longrightarrow> effective_mcp_contract ep = None \<longleftrightarrow> \<not> is_mcp_protocol (ne_protocol ep)"
  by (auto simp: mcp_wf_def effective_mcp_contract_def is_mcp_protocol_def Let_def split: option.splits if_splits)

lemma endpoint_uses_mcp_iff: "mcp_wf ep \<Longrightarrow> endpoint_uses_mcp ep \<longleftrightarrow> is_mcp_protocol (ne_protocol ep)"
  by (auto simp: mcp_wf_def endpoint_uses_mcp_def is_mcp_protocol_def split: option.splits if_splits)

lemma mcp_contracts_match_refl: "mcp_wf ep \<Longrightarrow> mcp_contracts_match ep ep"
  using effective_mcp_contract_None_iff [of ep] endpoint_uses_mcp_iff [of ep]
  by (auto simp: mcp_contracts_match_def split: option.splits)

lemma endpoint_attributes_cover_refl: "mcp_wf ep \<Longrightarrow> endpoint_attributes_cover ep ep"
  by (simp add: endpoint_attributes_cover_def retained_fields_cover_def widened_fields_cover_def
      dropped_fields_cover_def protocols_match_def contains_all_def list_all_iff flag_covers_def
      unset_or_equal_def mcp_contracts_match_refl)

subsection \<open>The endpoint merge\<close>

lemma merge_endpoint_cases:
  assumes "merge_endpoint existing incoming index = Inr (m, ws)"
  obtains e w1 e' w2 where
    "promotes_l4_endpoint_to_mcp existing incoming \<or> mcp_contracts_match existing incoming"
    and "merge_endpoint_identity existing incoming = (e, w1)"
    and "merge_endpoint_access e incoming (merge_host existing incoming) (merge_port existing incoming) = Inr (e', w2)"
    and "m = merge_endpoint_widen e' incoming" and "ws = w1 @ w2"
  using assms
  by (auto simp: merge_endpoint_def ensure_mcp_contract_compatible_def Let_def split: if_splits prod.splits)

lemma merge_endpoint_identity_frame:
  assumes "merge_endpoint_identity existing incoming = (e, w)"
  shows "ne_host e = merge_host existing incoming"
    "ne_path e = (if ne_path existing = [] then ne_path incoming else ne_path existing)"
    "set (canonical_ports e) = set (canonical_ports existing) \<union> set (canonical_ports incoming)"
    "ne_protocol e = (if ne_protocol existing = [] then ne_protocol incoming else ne_protocol existing)"
    "ne_mcp e = (if promotes_l4_endpoint_to_mcp existing incoming then ne_mcp incoming else ne_mcp existing)"
    "ne_rules e = ne_rules existing" "ne_deny_rules e = ne_deny_rules existing"
    "ne_allowed_ips e = ne_allowed_ips existing" "ne_access e = ne_access existing"
    "ne_allow_encoded_slash e = ne_allow_encoded_slash existing"
    "ne_websocket_credential_rewrite e = ne_websocket_credential_rewrite existing"
    "ne_request_body_credential_rewrite e = ne_request_body_credential_rewrite existing"
    "ne_allow_uninspected_credentials e = ne_allow_uninspected_credentials existing"
    "ne_advisor_proposed e = ne_advisor_proposed existing"
proof -
  let ?x = "existing\<lparr>ne_host := merge_host existing incoming,
      ne_path := (if ne_path existing = [] then ne_path incoming else ne_path existing)\<rparr>"
  let ?y = "merge_endpoint_ports ?x incoming"
  have ports: "canonical_ports ?x = canonical_ports existing"
    by (intro canonical_ports_cong) simp_all
  have y: "set (canonical_ports ?y) = set (canonical_ports existing) \<union> set (canonical_ports incoming)"
    by (simp add: merge_endpoint_ports_def ports)
  have "canonical_ports e = canonical_ports ?y"
    using assms by (intro canonical_ports_cong)
      (auto simp: merge_endpoint_identity_def Let_def split: prod.splits if_splits)
  with y show "set (canonical_ports e) = set (canonical_ports existing) \<union> set (canonical_ports incoming)"
    by simp
qed (use assms in \<open>auto simp: merge_endpoint_identity_def merge_endpoint_ports_def merge_string_field_def
      Let_def set_ports_def split: prod.splits if_splits\<close>)

lemma expand_existing_access_frame:
  assumes "expand_existing_access e host port = Inr (e', w)"
  shows "e' = e\<lparr>ne_access := ne_access e', ne_rules := ne_rules e'\<rparr>"
    and "set (ne_rules e) \<subseteq> set (ne_rules e')" and "ne_access e' = ACCESS_UNSPECIFIED"
    and "ne_access e \<noteq> ACCESS_UNSPECIFIED \<Longrightarrow>
      \<exists>rs. expand_access_preset (ne_protocol e) (access_label (ne_access e)) = Some rs \<and> set rs \<subseteq> set (ne_rules e')"
  using assms
  by (auto simp: expand_existing_access_def append_unique_l7_rules_def Let_def
      split: if_splits option.splits)

lemma merge_endpoint_access_frame:
  assumes "merge_endpoint_access e incoming host port = Inr (e', w)"
  shows "e' = e\<lparr>ne_access := ne_access e', ne_rules := ne_rules e'\<rparr>"
    and "set (ne_rules e) \<union> set (ne_rules incoming) \<subseteq> set (ne_rules e')"
    and "ne_access e \<noteq> ACCESS_UNSPECIFIED \<Longrightarrow> ne_access e' = ne_access e \<or>
      (\<exists>rs. expand_access_preset (ne_protocol e) (access_label (ne_access e)) = Some rs \<and> set rs \<subseteq> set (ne_rules e'))"
proof -
  show "e' = e\<lparr>ne_access := ne_access e', ne_rules := ne_rules e'\<rparr>"
  proof (cases "ne_rules incoming = []")
    case True
    then show ?thesis using assms by (auto simp: merge_endpoint_access_def split: if_splits)
  next
    case False
    then obtain a b where a: "expand_existing_access e host port = Inr (a, b)"
      and e': "e' = a\<lparr>ne_rules := append_unique_l7_rules (ne_rules a) (ne_rules incoming)\<rparr>"
      using assms by (auto simp: merge_endpoint_access_def)
    have "e' = e\<lparr>ne_access := ne_access a, ne_rules := ne_rules a\<rparr>
                 \<lparr>ne_rules := append_unique_l7_rules (ne_rules a) (ne_rules incoming)\<rparr>"
      unfolding e' using expand_existing_access_frame(1) [OF a] by (rule arg_cong)
    then show ?thesis by simp
  qed
  show "set (ne_rules e) \<union> set (ne_rules incoming) \<subseteq> set (ne_rules e')"
    using assms by (auto simp: merge_endpoint_access_def append_unique_l7_rules_def
        dest: expand_existing_access_frame(2) [THEN subsetD] split: if_splits)
  show "ne_access e' = ne_access e \<or>
      (\<exists>rs. expand_access_preset (ne_protocol e) (access_label (ne_access e)) = Some rs \<and> set rs \<subseteq> set (ne_rules e'))"
    if "ne_access e \<noteq> ACCESS_UNSPECIFIED"
    using assms that by (fastforce simp: merge_endpoint_access_def append_unique_l7_rules_def
        dest: expand_existing_access_frame(4) split: if_splits)
qed

lemma merge_endpoint_widen_frame [simp]:
  "ne_host (merge_endpoint_widen e i) = ne_host e" "ne_path (merge_endpoint_widen e i) = ne_path e"
  "ne_protocol (merge_endpoint_widen e i) = ne_protocol e" "ne_access (merge_endpoint_widen e i) = ne_access e"
  "ne_mcp (merge_endpoint_widen e i) = map_option canonicalize_mcp_options (ne_mcp e)"
  "set (canonical_ports (merge_endpoint_widen e i)) = set (canonical_ports e)"
  "set (ne_rules (merge_endpoint_widen e i)) = set (ne_rules e)"
  "set (ne_deny_rules (merge_endpoint_widen e i)) = set (ne_deny_rules e) \<union> set (ne_deny_rules i)"
  "set (ne_allowed_ips (merge_endpoint_widen e i)) = set (ne_allowed_ips e) \<union> set (ne_allowed_ips i)"
  "ne_allow_encoded_slash (merge_endpoint_widen e i) = (ne_allow_encoded_slash e \<or> ne_allow_encoded_slash i)"
  "ne_websocket_credential_rewrite (merge_endpoint_widen e i)
     = (ne_websocket_credential_rewrite e \<or> ne_websocket_credential_rewrite i)"
  "ne_request_body_credential_rewrite (merge_endpoint_widen e i)
     = (ne_request_body_credential_rewrite e \<or> ne_request_body_credential_rewrite i)"
  "ne_allow_uninspected_credentials (merge_endpoint_widen e i)
     = (ne_allow_uninspected_credentials e \<or> ne_allow_uninspected_credentials i)"
  "ne_advisor_proposed (merge_endpoint_widen e i) = (ne_advisor_proposed e \<and> ne_advisor_proposed i)"
proof -
  have ports: "canonical_ports (merge_endpoint_widen e i) = sort_dedup (canonical_ports e)"
    unfolding merge_endpoint_widen_def canonical_ports_normalize
    by (intro arg_cong [where f = sort_dedup] canonical_ports_cong) simp_all
  then show "set (canonical_ports (merge_endpoint_widen e i)) = set (canonical_ports e)" by simp
  show "set (ne_allowed_ips (merge_endpoint_widen e i)) = set (ne_allowed_ips e) \<union> set (ne_allowed_ips i)"
    using keys_dedup_by [of "\<lambda>v. v" "set (ne_allowed_ips e)" "ne_allowed_ips i"]
    by (auto simp: merge_endpoint_widen_def append_unique_strings_def)
qed (simp_all add: merge_endpoint_widen_def append_unique_deny_rules_def)

text \<open>What one endpoint merge does to the fields that identify or authorize.\<close>

lemma merge_endpoint_frame:
  assumes "merge_endpoint existing incoming index = Inr (m, ws)"
  shows "ne_host m = merge_host existing incoming"
    and "ne_path m = (if ne_path existing = [] then ne_path incoming else ne_path existing)"
    and "set (canonical_ports m) = set (canonical_ports existing) \<union> set (canonical_ports incoming)"
    and "ne_protocol m = (if ne_protocol existing = [] then ne_protocol incoming else ne_protocol existing)"
    and "ne_mcp m = map_option canonicalize_mcp_options
           (if promotes_l4_endpoint_to_mcp existing incoming then ne_mcp incoming else ne_mcp existing)"
    and "widened_fields_cover m existing" and "widened_fields_cover m incoming"
    and "ne_advisor_proposed m = (ne_advisor_proposed existing \<and> ne_advisor_proposed incoming)"
proof -
  obtain e w1 e' w2 where e: "merge_endpoint_identity existing incoming = (e, w1)"
    and e': "merge_endpoint_access e incoming (merge_host existing incoming) (merge_port existing incoming) = Inr (e', w2)"
    and m: "m = merge_endpoint_widen e' incoming"
    using assms by (rule merge_endpoint_cases)
  note id = merge_endpoint_identity_frame [OF e]
  note up = merge_endpoint_access_frame(1) [OF e']
  have rules: "set (ne_rules existing) \<union> set (ne_rules incoming) \<subseteq> set (ne_rules e')"
    using merge_endpoint_access_frame(2) [OF e'] id by simp
  obtain a r where u: "e' = e\<lparr>ne_access := a, ne_rules := r\<rparr>" using up by blast
  have ports: "canonical_ports e' = canonical_ports e" using u by (simp add: canonical_ports_def)
  show "ne_host m = merge_host existing incoming"
    "ne_path m = (if ne_path existing = [] then ne_path incoming else ne_path existing)"
    "ne_protocol m = (if ne_protocol existing = [] then ne_protocol incoming else ne_protocol existing)"
    "ne_mcp m = map_option canonicalize_mcp_options
           (if promotes_l4_endpoint_to_mcp existing incoming then ne_mcp incoming else ne_mcp existing)"
    "ne_advisor_proposed m = (ne_advisor_proposed existing \<and> ne_advisor_proposed incoming)"
    using id u by (simp_all add: m)
  show "set (canonical_ports m) = set (canonical_ports existing) \<union> set (canonical_ports incoming)"
    using id ports by (simp add: m)
  show "widened_fields_cover m existing" "widened_fields_cover m incoming"
    using id u rules
    by (auto simp: m widened_fields_cover_def contains_all_def list_all_iff flag_covers_def)
qed

lemma overlap_identity:
  assumes "endpoints_overlap existing incoming"
  shows "merge_host existing incoming = ne_host existing"
    and "(if ne_path existing = [] then ne_path incoming else ne_path existing) = ne_path existing"
  using assms
  by (auto simp: endpoints_overlap_def merge_host_def eq_ignore_ascii_case_def) (metis to_ascii_lowercase_Nil)

lemma mcp_wf_merge:
  assumes wf: "mcp_wf existing" "mcp_wf incoming"
    and m: "merge_endpoint existing incoming index = Inr (m, ws)"
  shows "mcp_wf m"
proof -
  note f = merge_endpoint_frame(4,5) [OF m]
  have "promotes_l4_endpoint_to_mcp existing incoming \<or> mcp_contracts_match existing incoming"
    using m by (rule merge_endpoint_cases)
  then show ?thesis
  proof
    assume p: "promotes_l4_endpoint_to_mcp existing incoming"
    then have "ne_protocol m = ne_protocol incoming"
      "ne_mcp m = map_option canonicalize_mcp_options (ne_mcp incoming)"
      using f by (simp_all add: promotes_l4_endpoint_to_mcp_def)
    then show ?thesis using wf(2) by (auto simp: mcp_wf_def split: if_splits option.splits)
  next
    assume c: "mcp_contracts_match existing incoming"
    have np: "promotes_l4_endpoint_to_mcp existing incoming \<Longrightarrow> False"
      using c wf effective_mcp_contract_None_iff [OF wf(1)] effective_mcp_contract_None_iff [OF wf(2)]
      by (auto simp: promotes_l4_endpoint_to_mcp_def mcp_contracts_match_def endpoint_uses_mcp_iff
          split: option.splits)
    have same: "is_mcp_protocol (ne_protocol existing) = is_mcp_protocol (ne_protocol incoming)"
      using c effective_mcp_contract_None_iff [OF wf(1)] effective_mcp_contract_None_iff [OF wf(2)]
      by (auto simp: mcp_contracts_match_def split: option.splits)
    have "is_mcp_protocol (ne_protocol m) = is_mcp_protocol (ne_protocol existing)"
      using f same by simp
    moreover have "ne_mcp m = map_option canonicalize_mcp_options (ne_mcp existing)"
      using f np by auto
    ultimately show ?thesis using wf(1) by (auto simp: mcp_wf_def split: if_splits option.splits)
  qed
qed

end
