(* ===== verification/Merge_Rule.thy ===== *)
theory Merge_Rule
  imports Merge_Endpoint
begin

text \<open>
  Merging one incoming rule into an existing one (\<open>merge_rules\<close> and
  \<open>ensure_authorization_inheritance_is_declared\<close> of \<open>openshell-policy/src/merge.rs\<close>). A rule
  authorizes the product of its binaries and its endpoints, so a merge that adds to one factor
  may grant pairs nobody asked for. The main lemma is that an accepted merge grants none.
\<close>

section \<open>Definitions\<close>

definition undeclared_existing_binaries :: "NetworkPolicyRule \<Rightarrow> NetworkPolicyRule \<Rightarrow> string list" where
  "undeclared_existing_binaries existing_rule incoming_rule =
     (if nr_binaries incoming_rule = [] then []
      else if nr_binaries existing_rule = [] then [''the existing any-binary scope'']
      else map nb_path
             (filter (\<lambda>existing. \<not> list_ex (\<lambda>incoming. nb_path incoming = nb_path existing)
                                     (nr_binaries incoming_rule))
                (nr_binaries existing_rule)))"

definition operation_names_port :: "NetworkPolicyRule \<Rightarrow> NetworkEndpoint \<Rightarrow> nat option \<Rightarrow> bool" where
  "operation_names_port incoming_rule merged port =
     list_ex (\<lambda>declared.
       eq_ignore_ascii_case (ne_host declared) (ne_host merged)
       \<and> ne_path declared = ne_path merged
       \<and> (case port of None \<Rightarrow> True | Some p \<Rightarrow> p \<in> set (canonical_ports declared)))
       (nr_endpoints incoming_rule)"

definition operation_declares :: "NetworkEndpoint list \<Rightarrow> NetworkEndpoint \<Rightarrow> nat option \<Rightarrow> bool" where
  "operation_declares declarations merged port =
     list_ex (\<lambda>declared. endpoint_authorization_covers_port declared merged port) declarations"

definition new_binary_scope :: "NetworkPolicyRule \<Rightarrow> NetworkPolicyRule \<Rightarrow> string option" where
  "new_binary_scope existing_rule incoming_rule =
     (if nr_binaries existing_rule = [] then None
      else if nr_binaries incoming_rule = [] then Some ANY_BINARY_SCOPE
      else map_option (\<lambda>b. ''binary '' @ quoted (nb_path b))
             (List.find (\<lambda>b. nb_path b \<notin> set (map nb_path (nr_binaries existing_rule)))
                (nr_binaries incoming_rule)))"

definition flatten_ports :: "nat option list \<Rightarrow> nat list" where
  "flatten_ports ports = concat (map (\<lambda>p. case p of None \<Rightarrow> [] | Some n \<Rightarrow> [n]) ports)"

definition changed_ports :: "NetworkPolicyRule \<Rightarrow> NetworkEndpoint \<Rightarrow> nat option list" where
  "changed_ports existing_rule ep =
     filter (\<lambda>port. \<not> list_ex (\<lambda>existing. authorization_unit_unchanged existing ep port)
                        (nr_endpoints existing_rule))
       (authorization_ports ep)"

text \<open>The body of the loop over the merged endpoints.\<close>

definition check_merged_endpoint ::
  "NetworkPolicyRule \<Rightarrow> NetworkPolicyRule \<Rightarrow> nat \<Rightarrow> string \<Rightarrow> NetworkEndpoint \<Rightarrow> PolicyMergeError + unit" where
  "check_merged_endpoint existing_rule incoming_rule index rule_name ep =
     (let units = authorization_ports ep;
          undeclared_binaries = undeclared_existing_binaries existing_rule incoming_rule
      in bindE
        (case new_binary_scope existing_rule incoming_rule of
           None \<Rightarrow> Inr ()
         | Some scope \<Rightarrow>
             let declarations = map (\<lambda>declared. adopt_unset_retained_fields declared ep) (nr_endpoints incoming_rule);
                 undeclared_ports = filter (\<lambda>port. \<not> operation_declares declarations ep port) units
             in if undeclared_ports \<noteq> []
                then Inl (NewBinaryWouldInheritAuthorization index rule_name scope (ne_host ep)
                            (flatten_ports undeclared_ports))
                else Inr ())
        (\<lambda>_.
          let changed = changed_ports existing_rule ep;
              undeclared_changed = filter (\<lambda>port. \<not> operation_names_port incoming_rule ep port) changed
          in if undeclared_changed \<noteq> []
             then Inl (UndeclaredPortWouldChange index rule_name (ne_host ep) (flatten_ports undeclared_changed))
             else if changed \<noteq> [] \<and> undeclared_binaries \<noteq> []
             then Inl (ExistingBinariesWouldInheritAuthorization index rule_name (ne_host ep)
                         (flatten_ports changed) undeclared_binaries)
             else Inr ()))"

definition ensure_authorization_inheritance_is_declared ::
  "NetworkPolicyRule \<Rightarrow> NetworkPolicyRule \<Rightarrow> NetworkEndpoint list \<Rightarrow> nat \<Rightarrow> string \<Rightarrow> PolicyMergeError + unit" where
  "ensure_authorization_inheritance_is_declared existing_rule incoming_rule merged_endpoints index rule_name =
     foldE (\<lambda>_ ep. check_merged_endpoint existing_rule incoming_rule index rule_name ep) () merged_endpoints"

text \<open>
  One iteration of the endpoint loop of \<open>merge_rules\<close>: the first overlapping endpoint absorbs
  the incoming one, otherwise it is appended.
\<close>

fun merge_into_first ::
  "NetworkEndpoint list \<Rightarrow> NetworkEndpoint \<Rightarrow> nat
   \<Rightarrow> (PolicyMergeError + (NetworkEndpoint list \<times> PolicyMergeWarning list)) option" where
  "merge_into_first [] incoming index = None"
| "merge_into_first (ep # eps) incoming index =
     (if endpoints_overlap ep incoming
      then Some (bindE (merge_endpoint ep incoming index) (\<lambda>(ep', w). Inr (ep' # eps, w)))
      else map_option (\<lambda>r. bindE r (\<lambda>(eps', w). Inr (ep # eps', w))) (merge_into_first eps incoming index))"

definition merge_incoming_endpoint ::
  "nat \<Rightarrow> NetworkEndpoint list \<times> PolicyMergeWarning list \<Rightarrow> NetworkEndpoint
   \<Rightarrow> PolicyMergeError + (NetworkEndpoint list \<times> PolicyMergeWarning list)" where
  "merge_incoming_endpoint index acc incoming =
     (case acc of (merged, warnings) \<Rightarrow>
        let incoming = normalize_endpoint incoming
        in case merge_into_first merged incoming index of
             Some r \<Rightarrow> bindE r (\<lambda>(merged', w). Inr (merged', warnings @ w))
           | None \<Rightarrow> Inr (merged @ [incoming], warnings))"

definition merged_binaries ::
  "NetworkPolicyRule \<Rightarrow> NetworkPolicyRule \<Rightarrow> NetworkBinary list" where
  "merged_binaries existing_rule incoming_rule =
     (if nr_binaries existing_rule = [] then []
      else if nr_binaries incoming_rule = [] then []
      else append_unique_binaries (nr_binaries existing_rule) (nr_binaries incoming_rule))"

definition merge_rules ::
  "NetworkPolicyRule \<Rightarrow> NetworkPolicyRule \<Rightarrow> nat \<Rightarrow> string \<Rightarrow> string
   \<Rightarrow> PolicyMergeError + (NetworkPolicyRule \<times> PolicyMergeWarning list)" where
  "merge_rules existing_rule incoming_rule index rule_name target_rule_name =
     bindE (foldE (merge_incoming_endpoint index) (nr_endpoints existing_rule, []) (nr_endpoints incoming_rule))
       (\<lambda>(merged_endpoints, endpoint_warnings).
         bindE (ensure_authorization_inheritance_is_declared existing_rule incoming_rule merged_endpoints
                  index rule_name)
           (\<lambda>_. Inr (existing_rule\<lparr>nr_endpoints := merged_endpoints,
                                   nr_binaries := merged_binaries existing_rule incoming_rule\<rparr>,
                     push_if (nr_binaries existing_rule = [] \<and> nr_binaries incoming_rule \<noteq> [])
                       (ExistingAnyBinaryScopeRetained target_rule_name (map nb_path (nr_binaries incoming_rule)))
                     @ endpoint_warnings)))"

definition rules_share_endpoint :: "NetworkPolicyRule \<Rightarrow> NetworkPolicyRule \<Rightarrow> bool" where
  "rules_share_endpoint existing_rule incoming_rule =
     list_ex (\<lambda>incoming. list_ex (\<lambda>existing. endpoints_overlap existing incoming) (nr_endpoints existing_rule))
       (nr_endpoints incoming_rule)"

section \<open>Lemmas\<close>

subsection \<open>Binary scopes\<close>

text \<open>A rule authorizes a binary path when its list is empty or names the path.\<close>

definition in_scope :: "NetworkPolicyRule \<Rightarrow> string \<Rightarrow> bool" where
  "in_scope rule path = binary_scope_covers rule \<lparr>nb_path = path\<rparr>"

lemma in_scope_iff: "in_scope rule path \<longleftrightarrow> nr_binaries rule = [] \<or> path \<in> nb_path ` set (nr_binaries rule)"
  by (auto simp: in_scope_def binary_scope_covers_def list_ex_iff image_iff)

lemma set_append_unique_binaries:
  "nb_path ` set (append_unique_binaries xs ys) = nb_path ` set xs \<union> nb_path ` set ys"
  using keys_dedup_by [of nb_path "nb_path ` set xs" ys] by (auto simp: append_unique_binaries_def)

lemma merged_binaries_scope:
  "in_scope (existing\<lparr>nr_endpoints := eps, nr_binaries := merged_binaries existing incoming\<rparr>) path
   \<longleftrightarrow> in_scope existing path \<or> in_scope incoming path"
proof -
  have "append_unique_binaries (nr_binaries existing) ys = [] \<longleftrightarrow> nr_binaries existing = [] \<and> ys = []" for ys
    by (cases ys) (auto simp: append_unique_binaries_def)
  then show ?thesis
    by (auto simp: in_scope_iff merged_binaries_def set_append_unique_binaries)
qed

lemma undeclared_Nil_scope:
  "undeclared_existing_binaries existing incoming = [] \<Longrightarrow> in_scope existing path \<Longrightarrow> in_scope incoming path"
  by (auto simp: undeclared_existing_binaries_def in_scope_iff filter_empty_conv list_ex_iff image_iff
      split: if_splits) metis

lemma new_binary_scope_None:
  "new_binary_scope existing incoming = None \<Longrightarrow> in_scope incoming path \<Longrightarrow> in_scope existing path"
  by (auto simp: new_binary_scope_def in_scope_iff find_None_iff split: if_splits)

subsection \<open>The inheritance check\<close>

lemma adopt_identity [simp]:
  "ne_host (adopt_unset_retained_fields d m) = ne_host d" "ne_path (adopt_unset_retained_fields d m) = ne_path d"
  "canonical_ports (adopt_unset_retained_fields d m) = canonical_ports d"
  by (simp_all add: adopt_unset_retained_fields_def canonical_ports_def)

text \<open>The authorization a merged unit may have: declared in full, or addressed by the operation.\<close>

definition fully_declared :: "NetworkPolicyRule \<Rightarrow> NetworkEndpoint \<Rightarrow> nat option \<Rightarrow> bool" where
  "fully_declared incoming_rule ep port =
     (\<exists>d\<in>set (nr_endpoints incoming_rule).
        endpoint_authorization_covers_port (adopt_unset_retained_fields d ep) ep port)"

definition unit_unchanged :: "NetworkPolicyRule \<Rightarrow> NetworkEndpoint \<Rightarrow> nat option \<Rightarrow> bool" where
  "unit_unchanged existing_rule ep port =
     (\<exists>e\<in>set (nr_endpoints existing_rule). authorization_unit_unchanged e ep port)"

lemma fully_declared_names_port: "fully_declared incoming ep port \<Longrightarrow> operation_names_port incoming ep port"
  by (auto simp: fully_declared_def operation_names_port_def endpoint_authorization_covers_port_def
      endpoint_attributes_cover_def list_ex_iff split: option.splits)

lemma check_merged_endpoint_Inr:
  assumes "check_merged_endpoint existing incoming index name ep = Inr u"
    and "port \<in> set (authorization_ports ep)"
  shows "new_binary_scope existing incoming \<noteq> None \<Longrightarrow> fully_declared incoming ep port"
    and "\<not> unit_unchanged existing ep port \<Longrightarrow>
      operation_names_port incoming ep port \<and> undeclared_existing_binaries existing incoming = []"
proof -
  have ch: "port \<in> set (changed_ports existing ep) \<longleftrightarrow> \<not> unit_unchanged existing ep port"
    using assms(2) by (auto simp: changed_ports_def unit_unchanged_def list_ex_iff)
  show "fully_declared incoming ep port" if "new_binary_scope existing incoming \<noteq> None"
    using assms that
    by (auto simp: check_merged_endpoint_def Let_def fully_declared_def operation_declares_def
        list_ex_iff filter_empty_conv split: if_splits option.splits)
  show "operation_names_port incoming ep port \<and> undeclared_existing_binaries existing incoming = []"
    if "\<not> unit_unchanged existing ep port"
  proof -
    have "port \<in> set (changed_ports existing ep)" using that ch by simp
    moreover have "filter (\<lambda>port. \<not> operation_names_port incoming ep port) (changed_ports existing ep) = []"
      and "changed_ports existing ep = [] \<or> undeclared_existing_binaries existing incoming = []"
      using assms(1) by (auto simp: check_merged_endpoint_def Let_def split: if_splits)
    ultimately show ?thesis by (auto simp: filter_empty_conv)
  qed
qed

lemma ensure_inheritance_Inr:
  assumes "ensure_authorization_inheritance_is_declared existing incoming eps index name = Inr u"
    and "ep \<in> set eps"
  shows "check_merged_endpoint existing incoming index name ep = Inr ()"
proof -
  have "foldE (\<lambda>_ ep. check_merged_endpoint existing incoming index name ep) v xs = Inr u
        \<Longrightarrow> ep \<in> set xs \<Longrightarrow> check_merged_endpoint existing incoming index name ep = Inr ()" for v xs
    by (induction xs arbitrary: v) auto
  then show ?thesis using assms by (simp add: ensure_authorization_inheritance_is_declared_def)
qed

lemma merge_rules_cases:
  assumes "merge_rules existing incoming index name target = Inr (merged, ws)"
  obtains eps ew where
    "foldE (merge_incoming_endpoint index) (nr_endpoints existing, []) (nr_endpoints incoming) = Inr (eps, ew)"
    and "ensure_authorization_inheritance_is_declared existing incoming eps index name = Inr ()"
    and "merged = existing\<lparr>nr_endpoints := eps, nr_binaries := merged_binaries existing incoming\<rparr>"
  using assms by (auto simp: merge_rules_def split: prod.splits)

lemma merge_rules_grants:
  assumes m: "merge_rules existing incoming index name target = Inr (merged, ws)"
    and ep: "ep \<in> set (nr_endpoints merged)" and port: "port \<in> set (authorization_ports ep)"
    and path: "in_scope merged path"
  shows "(in_scope existing path \<and> unit_unchanged existing ep port)
    \<or> (in_scope incoming path \<and> operation_names_port incoming ep port
       \<and> (in_scope existing path \<or> fully_declared incoming ep port))"
proof -
  obtain eps where ok: "ensure_authorization_inheritance_is_declared existing incoming eps index name = Inr ()"
    and merged: "merged = existing\<lparr>nr_endpoints := eps, nr_binaries := merged_binaries existing incoming\<rparr>"
    using m by (rule merge_rules_cases)
  have c: "check_merged_endpoint existing incoming index name ep = Inr ()"
    using ensure_inheritance_Inr [OF ok] ep merged by simp
  note chk = check_merged_endpoint_Inr [OF c port]
  have "in_scope existing path \<or> in_scope incoming path"
    using path merged_binaries_scope merged by simp
  then show ?thesis
  proof
    assume "in_scope existing path"
    then show ?thesis using chk(2) undeclared_Nil_scope by blast
  next
    assume i: "in_scope incoming path"
    show ?thesis
    proof (cases "in_scope existing path")
      case True
      then show ?thesis using chk(2) i by blast
    next
      case False
      then have "new_binary_scope existing incoming \<noteq> None" using i new_binary_scope_None by blast
      then have "fully_declared incoming ep port" by (rule chk(1))
      then show ?thesis using i fully_declared_names_port by blast
    qed
  qed
qed

end
