(* ===== verification/Policy_Merge.thy ===== *)
theory Policy_Merge
  imports Merge_Rule "HOL-Library.Product_Lexorder"
begin

text \<open>
  The policy merge (\<open>merge_policy\<close> and its operations, and \<open>policy_covers_rule\<close> and
  \<open>canonicalize_advisor_add_rule\<close> of \<open>openshell-policy/src/merge.rs\<close>): the current policy is
  checked, each operation is checked and applied in request order to a private copy, no new
  inspection conflict may appear, and the result is checked again. The policy and the warnings
  are passed through explicitly.
\<close>

section \<open>Definitions\<close>

subsection \<open>Checked fragments\<close>

definition validate_rule_fragment ::
  "glob_lib \<Rightarrow> dns_lib \<Rightarrow> string \<Rightarrow> NetworkPolicyRule \<Rightarrow> PolicyViolation list + NetworkPolicyRule" where
  "validate_rule_fragment G N rule_name rule =
     (let fragment = restrictive_default_policy
            \<lparr>sp_network_policies := fmupd rule_name rule (sp_network_policies restrictive_default_policy)\<rparr>
      in bindE (validate_and_canonicalize_sandbox_policy G N fragment) (\<lambda>canonical.
           Inr (the (fmlookup (sp_network_policies canonical) rule_name))))"

definition validate_and_canonicalize_operation ::
  "glob_lib \<Rightarrow> dns_lib \<Rightarrow> nat \<Rightarrow> PolicyMergeOp \<Rightarrow> PolicyMergeError + PolicyMergeOp" where
  "validate_and_canonicalize_operation G N index operation =
     (case operation of
        AddRule rule_name rule \<Rightarrow>
          (case validate_rule_fragment G N rule_name rule of
             Inl violations \<Rightarrow> Inl (InvalidOperationPolicy index violations)
           | Inr rule' \<Rightarrow> Inr (AddRule rule_name rule'))
      | _ \<Rightarrow> Inr operation)"

definition validate_operation :: "nat \<Rightarrow> PolicyMergeOp \<Rightarrow> PolicyMergeError + unit" where
  "validate_operation index operation =
     (case operation of
        AddRule rule_name rule \<Rightarrow>
          if str_trim rule_name = [] then Inl MissingRuleNameForAddRule
          else if nr_endpoints rule = [] then Inl (EmptyAddRuleEndpoints index rule_name)
          else Inr ()
      | AddAllowRules target _ \<Rightarrow> L7RuleTarget_validate target index
      | AddDenyRules target _ \<Rightarrow> L7RuleTarget_validate target index
      | _ \<Rightarrow> Inr ())"

subsection \<open>L7 targets\<close>

definition l7_binary_paths :: "NetworkBinary list \<Rightarrow> string list" where
  "l7_binary_paths binaries = sort_dedup (map nb_path binaries)"

definition l7_candidates :: "NetworkPolicyRule \<Rightarrow> L7RuleTarget \<Rightarrow> nat list" where
  "l7_candidates rule target =
     map fst (filter (\<lambda>(_, ep).
         eq_ignore_ascii_case (ne_host ep) (lt_host target)
         \<and> list_ex (\<lambda>port. port \<in> set (lt_ports target)) (canonical_ports ep)
         \<and> (case lt_path target of None \<Rightarrow> True | Some path \<Rightarrow> ne_path ep = path))
       (enumerate 0 (nr_endpoints rule)))"

definition declared_binary_paths :: "L7RuleTarget \<Rightarrow> string list" where
  "declared_binary_paths target =
     (case lt_binaries target of AnyBinary \<Rightarrow> [] | Restricted binaries \<Rightarrow> l7_binary_paths binaries)"

definition resolve_l7_target ::
  "SandboxPolicy \<Rightarrow> L7RuleTarget \<Rightarrow> PolicyMergeError + (NetworkPolicyRule \<times> nat)" where
  "resolve_l7_target policy target =
     (let not_found = L7TargetNotFound (lt_rule_name target) (lt_host target) (lt_ports target) (lt_path target)
      in case fmlookup (sp_network_policies policy) (lt_rule_name target) of
           None \<Rightarrow> Inl not_found
         | Some rule \<Rightarrow>
             (case l7_candidates rule target of
                [] \<Rightarrow> Inl not_found
              | [index] \<Rightarrow>
                  let expected = l7_binary_paths (nr_binaries rule);
                      declared = declared_binary_paths target;
                      any_declared = (lt_binaries target = AnyBinary)
                  in if (nr_binaries rule = []) \<noteq> any_declared \<or> expected \<noteq> declared
                     then Inl (L7BinaryScopeMismatch (lt_rule_name target)
                            (if expected = [] then [ANY_BINARY_SCOPE] else expected)
                            (declared @ push_if any_declared ANY_BINARY_SCOPE))
                     else
                       let expected_ports = sort_dedup (canonical_ports (nr_endpoints rule ! index));
                           declared_ports = sort_dedup (lt_ports target)
                       in if expected_ports \<noteq> declared_ports
                          then Inl (L7PortScopeMismatch (lt_rule_name target) (lt_host target)
                                 expected_ports declared_ports)
                          else Inr (rule, index)
              | candidates \<Rightarrow>
                  Inl (AmbiguousL7Target (lt_rule_name target) (lt_host target) (lt_ports target)
                         (sort (map (\<lambda>i. ne_path (nr_endpoints rule ! i)) candidates)))))"

definition replace_endpoint ::
  "SandboxPolicy \<Rightarrow> string \<Rightarrow> NetworkPolicyRule \<Rightarrow> nat \<Rightarrow> NetworkEndpoint \<Rightarrow> SandboxPolicy" where
  "replace_endpoint policy rule_name rule index ep =
     policy\<lparr>sp_network_policies :=
       fmupd rule_name (rule\<lparr>nr_endpoints := (nr_endpoints rule)[index := ep]\<rparr>) (sp_network_policies policy)\<rparr>"

subsection \<open>Operations\<close>

type_synonym merge_state = "SandboxPolicy \<times> PolicyMergeWarning list"

definition insert_rule :: "string \<Rightarrow> NetworkPolicyRule \<Rightarrow> SandboxPolicy \<Rightarrow> SandboxPolicy" where
  "insert_rule key rule policy =
     policy\<lparr>sp_network_policies := fmupd key rule (sp_network_policies policy)\<rparr>"

definition remove_rule :: "string \<Rightarrow> SandboxPolicy \<Rightarrow> SandboxPolicy" where
  "remove_rule key policy = policy\<lparr>sp_network_policies := fmdrop key (sp_network_policies policy)\<rparr>"

definition prepare_incoming_rule :: "string \<Rightarrow> NetworkPolicyRule \<Rightarrow> NetworkPolicyRule" where
  "prepare_incoming_rule rule_name incoming_rule =
     (let rule = normalize_rule incoming_rule
      in if nr_name rule = [] then rule\<lparr>nr_name := rule_name\<rparr> else rule)"

definition add_rule_target :: "SandboxPolicy \<Rightarrow> string \<Rightarrow> NetworkPolicyRule \<Rightarrow> string option" where
  "add_rule_target policy rule_name incoming_rule =
     (if fm_contains (sp_network_policies policy) rule_name then Some rule_name
      else if list_all (\<lambda>ep. \<not> ne_advisor_proposed ep) (nr_endpoints incoming_rule) then
        List.find (\<lambda>key. case fmlookup (sp_network_policies policy) key of
                           None \<Rightarrow> False
                         | Some existing_rule \<Rightarrow> rules_share_endpoint existing_rule incoming_rule)
          (filter (\<lambda>k. \<not> is_provider_rule_name k) (fm_keys (sp_network_policies policy)))
      else None)"

definition add_rule ::
  "merge_state \<Rightarrow> nat \<Rightarrow> string \<Rightarrow> NetworkPolicyRule \<Rightarrow> PolicyMergeError + merge_state" where
  "add_rule st index rule_name incoming_rule0 =
     (case st of (policy, warnings) \<Rightarrow>
        let incoming_rule = prepare_incoming_rule rule_name incoming_rule0
        in case add_rule_target policy rule_name incoming_rule of
             None \<Rightarrow> Inr (insert_rule rule_name incoming_rule policy, warnings)
           | Some key \<Rightarrow>
               let merge = merge_rules (the (fmlookup (sp_network_policies policy) key)) incoming_rule
                             index rule_name key
               in if fm_contains (sp_network_policies policy) rule_name
                  then bindE merge (\<lambda>(rule, w). Inr (insert_rule key rule policy, warnings @ w))
                  else
                    (case merge of
                       Inr (candidate, w) \<Rightarrow> Inr (insert_rule key candidate policy, warnings @ w)
                     | Inl e \<Rightarrow>
                         if is_authorization_inheritance_conflict e
                         then Inr (insert_rule rule_name incoming_rule policy,
                                   warnings @ [KeptRequestedRuleNameToAvoidWidening rule_name key (error_display e)])
                         else Inl e))"

definition remove_endpoint_port :: "string \<Rightarrow> nat \<Rightarrow> NetworkEndpoint \<Rightarrow> NetworkEndpoint option" where
  "remove_endpoint_port host port ep =
     (if \<not> endpoint_matches_host_port ep host port then Some ep
      else
        let remaining = sort_dedup (filter (\<lambda>p. p \<noteq> port) (canonical_ports ep))
        in if remaining = [] then None else Some (set_ports remaining ep))"

definition remove_endpoint_key :: "string \<Rightarrow> nat \<Rightarrow> SandboxPolicy \<Rightarrow> string \<Rightarrow> SandboxPolicy" where
  "remove_endpoint_key host port policy key =
     (case fmlookup (sp_network_policies policy) key of
        None \<Rightarrow> policy
      | Some rule \<Rightarrow>
          insert_rule key (rule\<lparr>nr_endpoints := List.map_filter (remove_endpoint_port host port) (nr_endpoints rule)\<rparr>)
            policy)"

definition remove_endpoint :: "SandboxPolicy \<Rightarrow> string option \<Rightarrow> string \<Rightarrow> nat \<Rightarrow> SandboxPolicy" where
  "remove_endpoint policy rule_name host port =
     (let target_keys =
            (case rule_name of
               Some name \<Rightarrow> if fm_contains (sp_network_policies policy) name then [name] else []
             | None \<Rightarrow> fm_keys (sp_network_policies policy));
          edited = foldl (remove_endpoint_key host port) policy target_keys;
          empty_rules = filter (\<lambda>key. case fmlookup (sp_network_policies edited) key of
                                        None \<Rightarrow> False | Some rule \<Rightarrow> nr_endpoints rule = []) target_keys
      in foldl (\<lambda>p key. remove_rule key p) edited empty_rules)"

definition add_deny_rules ::
  "SandboxPolicy \<Rightarrow> L7RuleTarget \<Rightarrow> L7DenyRule list \<Rightarrow> PolicyMergeError + SandboxPolicy" where
  "add_deny_rules policy target deny_rules =
     bindE (resolve_l7_target policy target) (\<lambda>(rule, index).
       let ep = nr_endpoints rule ! index;
           port = first_or 0 (lt_ports target)
       in bindE (ensure_method_path_endpoint ep (lt_host target) port) (\<lambda>_.
          if ne_access ep = ACCESS_UNSPECIFIED \<and> ne_rules ep = []
          then Inl (EndpointHasNoAllowBase (lt_host target) port)
          else Inr (replace_endpoint policy (lt_rule_name target) rule index
                 (ep\<lparr>ne_deny_rules := append_unique_deny_rules (ne_deny_rules ep) deny_rules\<rparr>))))"

definition add_allow_rules ::
  "merge_state \<Rightarrow> L7RuleTarget \<Rightarrow> L7Rule list \<Rightarrow> PolicyMergeError + merge_state" where
  "add_allow_rules st target rules =
     (case st of (policy, warnings) \<Rightarrow>
       bindE (resolve_l7_target policy target) (\<lambda>(rule, index).
         let ep = nr_endpoints rule ! index;
             port = first_or 0 (lt_ports target)
         in bindE (ensure_method_path_endpoint ep (lt_host target) port) (\<lambda>_.
            bindE (expand_existing_access ep (lt_host target) port) (\<lambda>(ep', w).
              Inr (replace_endpoint policy (lt_rule_name target) rule index
                     (ep'\<lparr>ne_rules := append_unique_l7_rules (ne_rules ep') rules\<rparr>),
                   warnings @ w)))))"

definition remove_binary ::
  "SandboxPolicy \<Rightarrow> nat \<Rightarrow> string \<Rightarrow> string \<Rightarrow> PolicyMergeError + SandboxPolicy" where
  "remove_binary policy index rule_name binary_path =
     (case fmlookup (sp_network_policies policy) rule_name of
        None \<Rightarrow> Inr policy
      | Some rule \<Rightarrow>
          if nr_binaries rule = [] then Inl (CannotRemoveBinaryFromAnyBinaryScope index rule_name binary_path)
          else
            let kept = filter (\<lambda>b. nb_path b \<noteq> binary_path) (nr_binaries rule);
                policy' = insert_rule rule_name (rule\<lparr>nr_binaries := kept\<rparr>) policy
            in if length kept \<noteq> length (nr_binaries rule) \<and> kept = []
               then Inr (remove_rule rule_name policy')
               else Inr policy')"

definition apply_operation ::
  "merge_state \<Rightarrow> nat \<Rightarrow> PolicyMergeOp \<Rightarrow> PolicyMergeError + merge_state" where
  "apply_operation st index operation =
     (case operation of
        AddRule rule_name rule \<Rightarrow> add_rule st index rule_name rule
      | RemoveEndpoint rule_name host port \<Rightarrow> Inr (remove_endpoint (fst st) rule_name host port, snd st)
      | RemoveRule rule_name \<Rightarrow> Inr (remove_rule rule_name (fst st), snd st)
      | AddDenyRules target deny_rules \<Rightarrow>
          bindE (add_deny_rules (fst st) target deny_rules) (\<lambda>policy. Inr (policy, snd st))
      | AddAllowRules target rules \<Rightarrow> add_allow_rules st target rules
      | RemoveBinary rule_name binary_path \<Rightarrow>
          bindE (remove_binary (fst st) index rule_name binary_path) (\<lambda>policy. Inr (policy, snd st)))"

subsection \<open>Inspection conflicts\<close>

record EffectiveInspection =
  ei_protocol :: string
  ei_mcp :: "EffectiveMcpContract option"

definition endpoint_inspections ::
  "NetworkEndpoint \<Rightarrow> ((string \<times> nat) \<times> (EffectiveInspection \<times> string)) list" where
  "endpoint_inspections ep =
     (if ne_protocol ep = [] then []
      else
        let inspection = \<lparr>ei_protocol = to_ascii_lowercase (ne_protocol ep), ei_mcp = effective_mcp_contract ep\<rparr>
        in map (\<lambda>port. ((to_ascii_lowercase (ne_host ep), port), (inspection, describe_mcp_contract ep)))
             (canonical_ports ep))"

definition policy_inspections ::
  "SandboxPolicy \<Rightarrow> ((string \<times> nat) \<times> (EffectiveInspection \<times> string)) list" where
  "policy_inspections policy =
     concat (map (\<lambda>rule. concat (map endpoint_inspections (nr_endpoints rule)))
       (fm_values (sp_network_policies policy)))"

definition inspections_conflict :: "(EffectiveInspection \<times> string) list \<Rightarrow> bool" where
  "inspections_conflict found =
     (case List.map_filter (\<lambda>(inspection, _). ei_mcp inspection) found of
        [] \<Rightarrow> False
      | first # rest \<Rightarrow>
          list_ex (\<lambda>(inspection, _). ei_mcp inspection = None) found \<or> list_ex (\<lambda>c. c \<noteq> first) rest)"

definition inspections_at ::
  "SandboxPolicy \<Rightarrow> string \<times> nat \<Rightarrow> (EffectiveInspection \<times> string) list" where
  "inspections_at policy key = map snd (filter (\<lambda>(k, _). k = key) (policy_inspections policy))"

text \<open>The \<open>BTreeMap\<close> from host and port to the rendered contracts, in ascending key order.\<close>

definition conflicting_inspection_contracts ::
  "SandboxPolicy \<Rightarrow> ((string \<times> nat) \<times> string list) list" where
  "conflicting_inspection_contracts policy =
     List.map_filter (\<lambda>key.
       let found = inspections_at policy key
       in if inspections_conflict found then Some (key, sort_dedup (map snd found)) else None)
       (sort_dedup (map fst (policy_inspections policy)))"

definition ensure_no_new_inspection_conflicts ::
  "SandboxPolicy \<Rightarrow> ((string \<times> nat) \<times> string list) list \<Rightarrow> PolicyMergeError + unit" where
  "ensure_no_new_inspection_conflicts merged before =
     foldE (\<lambda>_ ((host, port), contracts).
       if (case map_of before (host, port) of
             None \<Rightarrow> False
           | Some prior \<Rightarrow> list_all (\<lambda>c. c \<in> set prior) contracts)
       then Inr ()
       else Inl (ConflictingInspectionContracts host port contracts))
       () (conflicting_inspection_contracts merged)"

subsection \<open>The merge\<close>

record PolicyMergeResult =
  mr_policy :: SandboxPolicy
  mr_warnings :: "PolicyMergeWarning list"
  mr_changed :: bool

definition merge_step ::
  "glob_lib \<Rightarrow> dns_lib \<Rightarrow> merge_state \<Rightarrow> nat \<times> PolicyMergeOp \<Rightarrow> PolicyMergeError + merge_state" where
  "merge_step G N st indexed =
     (case indexed of (index, operation) \<Rightarrow>
        bindE (validate_operation index operation) (\<lambda>_.
        bindE (validate_and_canonicalize_operation G N index operation) (\<lambda>operation'.
        apply_operation st index operation')))"

definition merge_policy ::
  "glob_lib \<Rightarrow> dns_lib \<Rightarrow> SandboxPolicy \<Rightarrow> PolicyMergeOp list \<Rightarrow> PolicyMergeError + PolicyMergeResult" where
  "merge_policy G N policy operations =
     (case validate_and_canonicalize_sandbox_policy G N policy of
        Inl violations \<Rightarrow> Inl (InvalidInputPolicy violations)
      | Inr canonical_input \<Rightarrow>
          let conflicts_before = conflicting_inspection_contracts canonical_input
          in bindE (foldE (merge_step G N) (canonical_input, []) (enumerate 0 operations))
               (\<lambda>(merged, warnings).
                 bindE (ensure_no_new_inspection_conflicts merged conflicts_before) (\<lambda>_.
                   case validate_and_canonicalize_sandbox_policy G N merged of
                     Inl violations \<Rightarrow> Inl (InvalidMergedPolicy violations)
                   | Inr merged' \<Rightarrow>
                       Inr \<lparr>mr_policy = merged', mr_warnings = warnings,
                            mr_changed = (merged' \<noteq> canonical_input)\<rparr>)))"

subsection \<open>Coverage of a proposal\<close>

definition policy_covers_rule ::
  "glob_lib \<Rightarrow> dns_lib \<Rightarrow> SandboxPolicy \<Rightarrow> NetworkPolicyRule \<Rightarrow> bool" where
  "policy_covers_rule G N policy0 proposed0 =
     (case validate_and_canonicalize_sandbox_policy G N policy0 of
        Inl _ \<Rightarrow> False
      | Inr policy \<Rightarrow>
          (case validate_rule_fragment G N ''coverage-proposal'' proposed0 of
             Inl _ \<Rightarrow> False
           | Inr proposed \<Rightarrow>
               if nr_endpoints proposed = [] then False
               else
                 list_all (\<lambda>target_endpoint.
                   list_all (\<lambda>target_port.
                     if nr_binaries proposed = [] then
                       list_ex (\<lambda>rule. nr_binaries rule = [] \<and> rule_authorizes rule target_endpoint target_port)
                         (fm_values (sp_network_policies policy))
                     else
                       list_all (\<lambda>target_binary.
                         list_ex (\<lambda>rule. binary_scope_covers rule target_binary
                                        \<and> rule_authorizes rule target_endpoint target_port)
                           (fm_values (sp_network_policies policy)))
                         (nr_binaries proposed))
                     (authorization_ports target_endpoint))
                   (nr_endpoints proposed)))"

subsection \<open>The advisor rewrite\<close>

definition strip_provenance :: "NetworkEndpoint \<Rightarrow> NetworkEndpoint" where
  "strip_provenance ep =
     ep\<lparr>ne_provider_credentialed := False, ne_advisor_proposed := False, ne_token_grant_owner := []\<rparr>"

definition advisor_contracts :: "SandboxPolicy \<Rightarrow> NetworkEndpoint \<Rightarrow> nat \<Rightarrow> NetworkEndpoint list" where
  "advisor_contracts effective_policy incoming_endpoint port =
     append_unique []
       (map (\<lambda>ep. normalize_endpoint ((strip_provenance ep)\<lparr>ne_port := port, ne_ports := [port]\<rparr>))
         (filter (\<lambda>ep. eq_ignore_ascii_case (ne_host ep) (ne_host incoming_endpoint)
                       \<and> port \<in> set (canonical_ports ep))
           (concat (map nr_endpoints (fm_values (sp_network_policies effective_policy))))))"

definition owns_contract :: "NetworkEndpoint \<Rightarrow> NetworkEndpoint \<Rightarrow> bool" where
  "owns_contract contract ep = (normalize_endpoint (strip_provenance ep) = contract)"

definition sandbox_owners ::
  "SandboxPolicy \<Rightarrow> NetworkEndpoint \<Rightarrow> NetworkPolicyRule \<Rightarrow> string list" where
  "sandbox_owners base_policy contract incoming_rule =
     map fst (filter (\<lambda>(name, rule).
         \<not> is_provider_rule_name name
         \<and> list_ex (owns_contract contract) (nr_endpoints rule)
         \<and> list_all (binary_scope_covers rule) (nr_binaries incoming_rule))
       (fm_items (sp_network_policies base_policy)))"

definition advisor_target ::
  "SandboxPolicy \<Rightarrow> SandboxPolicy \<Rightarrow> string \<Rightarrow> NetworkPolicyRule \<Rightarrow> NetworkEndpoint
   \<Rightarrow> (string \<times> NetworkEndpoint) option" where
  "advisor_target base_policy effective_policy requested_rule_name incoming_rule contract =
     (case sandbox_owners base_policy contract incoming_rule of
        owner # _ \<Rightarrow>
          (case List.find (owns_contract contract)
                  (nr_endpoints (the (fmlookup (sp_network_policies base_policy) owner))) of
             Some ep \<Rightarrow> Some (owner, contract\<lparr>ne_advisor_proposed := ne_advisor_proposed ep\<rparr>)
           | None \<Rightarrow> Some (owner, contract))
      | [] \<Rightarrow>
          map_option
            (\<lambda>candidate. (candidate,
               contract\<lparr>ne_advisor_proposed := ne_advisor_proposed (hd (nr_endpoints incoming_rule))\<rparr>))
            (unique_key
               (fm_len (sp_network_policies base_policy) + fm_len (sp_network_policies effective_policy))
               (\<lambda>k. fm_contains (sp_network_policies base_policy) k
                    \<or> fm_contains (sp_network_policies effective_policy) k)
               requested_rule_name))"

definition canonicalize_advisor_add_rule ::
  "SandboxPolicy \<Rightarrow> SandboxPolicy \<Rightarrow> string \<Rightarrow> NetworkPolicyRule
   \<Rightarrow> (string + (string \<times> NetworkPolicyRule)) option" where
  "canonicalize_advisor_add_rule base_policy effective_policy requested_rule_name incoming_rule =
     (if length (nr_endpoints incoming_rule) \<noteq> 1 \<or> nr_binaries incoming_rule = []
      then Some (Inr (requested_rule_name, incoming_rule))
      else
        let incoming_endpoint = hd (nr_endpoints incoming_rule);
            incoming_ports = canonical_ports incoming_endpoint
        in if str_trim (ne_host incoming_endpoint) = [] \<or> length incoming_ports \<noteq> 1
           then Some (Inr (requested_rule_name, incoming_rule))
           else
             let port = hd incoming_ports
             in case advisor_contracts effective_policy incoming_endpoint port of
                  [] \<Rightarrow> Some (Inr (requested_rule_name, incoming_rule))
                | [contract] \<Rightarrow>
                    map_option
                      (\<lambda>(target_name, contract).
                         Inr (target_name,
                              incoming_rule\<lparr>nr_name := target_name, nr_endpoints := [contract]\<rparr>))
                      (advisor_target base_policy effective_policy requested_rule_name incoming_rule contract)
                | _ \<Rightarrow> Some (Inl (''cannot infer one existing endpoint contract for ''
                             @ at_port (ne_host incoming_endpoint) port)))"

section \<open>Endpoint invariants\<close>

text \<open>
  A property of endpoints that normalization, the endpoint merge, the removal of ports and the
  L7 appends keep is kept by every operation of the merge for all endpoints of the policy.
\<close>

definition policy_all :: "(NetworkEndpoint \<Rightarrow> bool) \<Rightarrow> SandboxPolicy \<Rightarrow> bool" where
  "policy_all I policy =
     (\<forall>key rule. fmlookup (sp_network_policies policy) key = Some rule \<longrightarrow> (\<forall>ep\<in>set (nr_endpoints rule). I ep))"

definition op_all :: "(NetworkEndpoint \<Rightarrow> bool) \<Rightarrow> PolicyMergeOp \<Rightarrow> bool" where
  "op_all I operation =
     (case operation of AddRule _ rule \<Rightarrow> (\<forall>ep\<in>set (nr_endpoints rule). I ep) | _ \<Rightarrow> True)"

lemma policy_all_insert: "policy_all I p \<Longrightarrow> (\<forall>ep\<in>set (nr_endpoints rule). I ep) \<Longrightarrow> policy_all I (insert_rule key rule p)"
  by (auto simp: policy_all_def insert_rule_def)

lemma policy_all_remove: "policy_all I p \<Longrightarrow> policy_all I (remove_rule key p)"
  by (auto simp: policy_all_def remove_rule_def split: if_splits)

lemma policy_all_replace:
  assumes "policy_all I p" and "fmlookup (sp_network_policies p) key = Some rule" and "I ep"
  shows "policy_all I (replace_endpoint p key rule i ep)"
  using assms by (auto simp: policy_all_def replace_endpoint_def dest: set_update_subset_insert [THEN subsetD])

lemma resolve_l7_target_Inr:
  assumes "resolve_l7_target policy target = Inr (rule, index)"
  shows "fmlookup (sp_network_policies policy) (lt_rule_name target) = Some rule"
    and "l7_candidates rule target = [index]"
    and "(nr_binaries rule = []) = (lt_binaries target = AnyBinary)"
    and "l7_binary_paths (nr_binaries rule) = declared_binary_paths target"
    and "sort_dedup (canonical_ports (nr_endpoints rule ! index)) = sort_dedup (lt_ports target)"
  using assms
  by (auto simp: resolve_l7_target_def Let_def split: option.splits list.splits if_splits)

lemma l7_candidates_index:
  assumes "l7_candidates rule target = [index]"
  shows "index < length (nr_endpoints rule)"
    and "eq_ignore_ascii_case (ne_host (nr_endpoints rule ! index)) (lt_host target)"
    and "\<And>path. lt_path target = Some path \<Longrightarrow> ne_path (nr_endpoints rule ! index) = path"
proof -
  have "index \<in> set (l7_candidates rule target)" using assms by simp
  then obtain ep where ep: "(index, ep) \<in> set (enumerate 0 (nr_endpoints rule))"
    "eq_ignore_ascii_case (ne_host ep) (lt_host target)"
    "case lt_path target of None \<Rightarrow> True | Some path \<Rightarrow> ne_path ep = path"
    by (auto simp: l7_candidates_def)
  then have "index < length (nr_endpoints rule)" "nr_endpoints rule ! index = ep"
    by (auto simp: in_set_enumerate_eq)
  with ep show "index < length (nr_endpoints rule)"
    "eq_ignore_ascii_case (ne_host (nr_endpoints rule ! index)) (lt_host target)"
    "\<And>path. lt_path target = Some path \<Longrightarrow> ne_path (nr_endpoints rule ! index) = path"
    by simp_all
qed

locale endpoint_invariant =
  fixes I :: "NetworkEndpoint \<Rightarrow> bool"
  assumes inv_normalize: "I ep \<Longrightarrow> I (normalize_endpoint ep)"
    and inv_merge: "I existing \<Longrightarrow> I incoming \<Longrightarrow> endpoints_overlap existing incoming
      \<Longrightarrow> merge_endpoint existing incoming index = Inr (m, ws) \<Longrightarrow> I m"
    and inv_ports: "I ep \<Longrightarrow> ports \<noteq> [] \<Longrightarrow> set ports \<subseteq> set (canonical_ports ep) \<Longrightarrow> I (set_ports ports ep)"
    and inv_deny: "I ep \<Longrightarrow> I (ep\<lparr>ne_deny_rules := ds\<rparr>)"
    and inv_allow: "I ep \<Longrightarrow> I (ep\<lparr>ne_access := a, ne_rules := rs\<rparr>)"
begin

lemma merge_into_first_inv:
  "merge_into_first eps incoming index = Some (Inr (eps', w)) \<Longrightarrow> I incoming
   \<Longrightarrow> \<forall>ep\<in>set eps. I ep \<Longrightarrow> \<forall>ep\<in>set eps'. I ep"
proof (induction eps arbitrary: eps' w)
  case Nil
  then show ?case by simp
next
  case (Cons ep eps)
  show ?case
  proof (cases "endpoints_overlap ep incoming")
    case True
    then obtain m where "merge_endpoint ep incoming index = Inr (m, w)" "eps' = m # eps"
      using Cons.prems(1) by auto
    then show ?thesis using Cons.prems inv_merge [of ep incoming index m w] True by auto
  next
    case False
    then obtain eps'' where "merge_into_first eps incoming index = Some (Inr (eps'', w))" "eps' = ep # eps''"
      using Cons.prems(1) by auto
    then show ?thesis using Cons.IH Cons.prems by auto
  qed
qed

lemma merge_incoming_endpoint_inv:
  assumes "merge_incoming_endpoint index acc incoming = Inr acc'" and "I incoming" and "\<forall>ep\<in>set (fst acc). I ep"
  shows "\<forall>ep\<in>set (fst acc'). I ep"
  using assms inv_normalize [OF assms(2)]
  by (auto simp: merge_incoming_endpoint_def Let_def dest: merge_into_first_inv split: prod.splits option.splits)

lemma merge_rules_inv:
  assumes "merge_rules existing incoming index name target = Inr (merged, ws)"
    and "\<forall>ep\<in>set (nr_endpoints existing). I ep" and "\<forall>ep\<in>set (nr_endpoints incoming). I ep"
  shows "\<forall>ep\<in>set (nr_endpoints merged). I ep"
proof -
  obtain eps ew where f: "foldE (merge_incoming_endpoint index) (nr_endpoints existing, []) (nr_endpoints incoming) = Inr (eps, ew)"
    and m: "merged = existing\<lparr>nr_endpoints := eps, nr_binaries := merged_binaries existing incoming\<rparr>"
    using assms(1) by (rule merge_rules_cases)
  have "\<forall>ep\<in>set (fst (eps, ew)). I ep"
    by (rule foldE_invariant [where I = "\<lambda>acc. \<forall>ep\<in>set (fst acc). I ep", OF f])
      (use assms merge_incoming_endpoint_inv in auto)
  then show ?thesis by (simp add: m)
qed

lemma add_rule_inv:
  assumes "add_rule st index name rule = Inr st'" and "policy_all I (fst st)" and "\<forall>ep\<in>set (nr_endpoints rule). I ep"
  shows "policy_all I (fst st')"
proof -
  let ?inc = "prepare_incoming_rule name rule"
  obtain p ws where st: "st = (p, ws)" by (cases st)
  have inc: "\<forall>ep\<in>set (nr_endpoints ?inc). I ep"
    using assms(3) by (auto simp: prepare_incoming_rule_def normalize_rule_def Let_def inv_normalize)
  have target: "\<exists>old. fmlookup (sp_network_policies p) key = Some old"
    if "add_rule_target p name ?inc = Some key" for key
    using that by (auto simp: add_rule_target_def fm_contains_def find_Some_iff split: if_splits option.splits)
  have ok: "\<forall>ep\<in>set (nr_endpoints merged). I ep"
    if "add_rule_target p name ?inc = Some key"
      "merge_rules (the (fmlookup (sp_network_policies p) key)) ?inc index name key = Inr (merged, w)" for key merged w
    using target [OF that(1)] assms(2) merge_rules_inv [OF that(2)] inc
    by (auto simp: st policy_all_def)
  show ?thesis
    using assms(1,2) inc ok
    by (auto simp: st add_rule_def Let_def policy_all_insert split: option.splits if_splits sum.splits prod.splits)
qed

lemma remove_endpoint_key_inv: "policy_all I p \<Longrightarrow> policy_all I (remove_endpoint_key host port p key)"
proof -
  assume p: "policy_all I p"
  have one: "I ep'" if "I ep" "remove_endpoint_port host port ep = Some ep'" for ep ep'
    using that inv_ports [of ep] by (auto simp: remove_endpoint_port_def Let_def split: if_splits)
  show ?thesis
  proof (cases "fmlookup (sp_network_policies p) key")
    case (Some rule)
    have "\<forall>ep\<in>set (nr_endpoints rule). I ep" using p Some by (auto simp: policy_all_def)
    then have "\<forall>ep\<in>set (List.map_filter (remove_endpoint_port host port) (nr_endpoints rule)). I ep"
      using one by (fastforce simp: List.map_filter_def)
    then show ?thesis using Some policy_all_insert [OF p] by (simp add: remove_endpoint_key_def)
  qed (simp add: remove_endpoint_key_def p)
qed

lemma remove_endpoint_inv: "policy_all I p \<Longrightarrow> policy_all I (remove_endpoint p name host port)"
proof -
  assume p: "policy_all I p"
  have edit: "policy_all I q \<Longrightarrow> policy_all I (foldl (remove_endpoint_key host port) q keys)" for q keys
    by (induction keys arbitrary: q) (auto intro: remove_endpoint_key_inv)
  have drop: "policy_all I q \<Longrightarrow> policy_all I (foldl (\<lambda>p key. remove_rule key p) q keys)" for q keys
    by (induction keys arbitrary: q) (auto intro: policy_all_remove)
  show ?thesis unfolding remove_endpoint_def Let_def by (intro drop edit p)
qed

lemma apply_operation_inv:
  assumes "apply_operation st index operation = Inr st'" and "policy_all I (fst st)" and "op_all I operation"
  shows "policy_all I (fst st')"
proof (cases operation)
  case (AddRule name rule)
  then show ?thesis using assms add_rule_inv by (auto simp: apply_operation_def op_all_def)
next
  case (RemoveEndpoint name host port)
  then show ?thesis using assms remove_endpoint_inv by (auto simp: apply_operation_def)
next
  case (RemoveRule name)
  then show ?thesis using assms policy_all_remove by (auto simp: apply_operation_def)
next
  case (AddDenyRules target ds)
  then obtain rule i where r: "resolve_l7_target (fst st) target = Inr (rule, i)"
    and st': "fst st' = replace_endpoint (fst st) (lt_rule_name target) rule i
      ((nr_endpoints rule ! i)\<lparr>ne_deny_rules := append_unique_deny_rules (ne_deny_rules (nr_endpoints rule ! i)) ds\<rparr>)"
    using assms(1) by (auto simp: apply_operation_def add_deny_rules_def Let_def split: if_splits)
  have "I (nr_endpoints rule ! i)"
    using assms(2) resolve_l7_target_Inr [OF r] l7_candidates_index [of rule target i] nth_mem
    by (auto simp: policy_all_def)
  then show ?thesis unfolding st'
    using assms(2) resolve_l7_target_Inr(1) [OF r] by (intro policy_all_replace) (auto intro: inv_deny)
next
  case (AddAllowRules target rs)
  then obtain rule i ep' w where r: "resolve_l7_target (fst st) target = Inr (rule, i)"
    and e: "expand_existing_access (nr_endpoints rule ! i) (lt_host target) (first_or 0 (lt_ports target)) = Inr (ep', w)"
    and st': "fst st' = replace_endpoint (fst st) (lt_rule_name target) rule i
      (ep'\<lparr>ne_rules := append_unique_l7_rules (ne_rules ep') rs\<rparr>)"
    using assms(1) by (cases st) (auto simp: apply_operation_def add_allow_rules_def Let_def split: if_splits)
  have "I (nr_endpoints rule ! i)"
    using assms(2) resolve_l7_target_Inr [OF r] l7_candidates_index [of rule target i] nth_mem
    by (auto simp: policy_all_def)
  moreover obtain a x where "ep' = (nr_endpoints rule ! i)\<lparr>ne_access := a, ne_rules := x\<rparr>"
    using expand_existing_access_frame(1) [OF e] by blast
  ultimately have "I (ep'\<lparr>ne_rules := append_unique_l7_rules (ne_rules ep') rs\<rparr>)"
    using inv_allow by simp
  then show ?thesis unfolding st'
    using assms(2) resolve_l7_target_Inr(1) [OF r] by (intro policy_all_replace) auto
next
  case (RemoveBinary name path)
  then show ?thesis using assms
    by (auto simp: apply_operation_def remove_binary_def Let_def insert_rule_def remove_rule_def policy_all_def
        split: option.splits if_splits)
qed


end

section \<open>Lemmas\<close>

subsection \<open>Interpretations\<close>

interpretation mcp_invariant: endpoint_invariant mcp_wf
proof
  show "mcp_wf ep \<Longrightarrow> mcp_wf (normalize_endpoint ep)" for ep by simp
  show "mcp_wf existing \<Longrightarrow> mcp_wf incoming \<Longrightarrow> endpoints_overlap existing incoming
      \<Longrightarrow> merge_endpoint existing incoming index = Inr (m, ws) \<Longrightarrow> mcp_wf m" for existing incoming index m ws
    by (rule mcp_wf_merge)
qed (simp_all add: mcp_wf_def)

text \<open>Every endpoint reaches at least one port, and only real ones.\<close>

definition ports_wf :: "NetworkEndpoint \<Rightarrow> bool" where
  "ports_wf ep = (canonical_ports ep \<noteq> [] \<and> (\<forall>p\<in>set (canonical_ports ep). 1 \<le> p \<and> p \<le> 65535))"

lemma canonical_ports_update:
  "canonical_ports (ep\<lparr>ne_deny_rules := ds\<rparr>) = canonical_ports ep"
  "canonical_ports (ep\<lparr>ne_access := a, ne_rules := rs\<rparr>) = canonical_ports ep"
  by (simp_all add: canonical_ports_def)

interpretation ports_invariant: endpoint_invariant ports_wf
proof
  show "ports_wf ep \<Longrightarrow> ports_wf (normalize_endpoint ep)" for ep by (simp add: ports_wf_def)
  show "ports_wf m"
    if "ports_wf existing" "ports_wf incoming" "merge_endpoint existing incoming index = Inr (m, ws)"
    for existing incoming index m ws
    using that(1,2) merge_endpoint_frame(3) [OF that(3)] by (auto simp: ports_wf_def)
  show "ports_wf (ep\<lparr>ne_deny_rules := ds\<rparr>)" if "ports_wf ep" for ep ds
    using that by (simp add: ports_wf_def canonical_ports_update)
  show "ports_wf (ep\<lparr>ne_access := a, ne_rules := rs\<rparr>)" if "ports_wf ep" for ep a rs
    using that by (simp add: ports_wf_def canonical_ports_update)
qed (auto simp: ports_wf_def)

subsection \<open>Checked policies and fragments\<close>

lemma validated_mcp_wf:
  assumes "validate_and_canonicalize_sandbox_policy G N policy = Inr q"
  shows "policy_all mcp_wf q" and "policy_all ports_wf q"
proof -
  have p: "validate_sandbox_policy G N q = Inr ()" and q: "q = map_policy_endpoints canonical_endpoint policy"
    using assms sandbox_boundary.boundary_strict [of G N policy q]
    by (simp_all add: validate_and_canonicalize_sandbox_policy_def flip: canonical_policy_def canonical_policy_eq)
  have ok: "endpoint_ok G N RequireMaterialized ep"
    if "fmlookup (sp_network_policies q) key = Some rule" "ep \<in> set (nr_endpoints rule)" for key rule ep
    using p that by (auto simp: validate_sandbox_policy_def validate_sandbox_policy_Inr network_violations_Nil)
  have canon: "canonical_endpoint ep = ep"
    if "fmlookup (sp_network_policies q) key = Some rule" "ep \<in> set (nr_endpoints rule)" for key rule ep
    using that by (auto simp: q map_policy_endpoints_def map_rule_endpoints_def)
  have wf: "mcp_wf ep" if "endpoint_ok G N RequireMaterialized ep" "canonical_endpoint ep = ep" for ep
  proof (cases "ne_mcp ep")
    case None
    then show ?thesis using that(1)
      by (auto simp: mcp_wf_def endpoint_ok_def endpoint_violations_def collect_mcp_Nil split: if_splits)
  next
    case (Some m)
    have "ne_mcp (canonical_endpoint ep) = Some (canonicalize_mcp_options m)"
      using Some that(1)
      by (auto simp: canonical_endpoint_def canonicalize_endpoint_versions_def materialize_endpoint_def
          endpoint_ok_def endpoint_violations_def collect_mcp_Nil split: if_splits)
    with that Some show ?thesis
      by (auto simp: mcp_wf_def endpoint_ok_def endpoint_violations_def collect_mcp_Nil split: if_splits)
  qed
  show "policy_all mcp_wf q" unfolding policy_all_def using ok canon wf by blast
  show "policy_all ports_wf q" unfolding policy_all_def
    using ok by (auto simp: endpoint_ok_def endpoint_violations_def endpoint_port_Nil ports_wf_def
        canonical_ports_effective)
qed

lemma canonical_policy_id: "policy_all mcp_wf p \<Longrightarrow> canonical_policy p = p"
proof -
  assume wf: "policy_all mcp_wf p"
  have "fmmap (map_rule_endpoints canonical_endpoint) (sp_network_policies p) = sp_network_policies p"
  proof (rule fmap_ext)
    fix key
    show "fmlookup (fmmap (map_rule_endpoints canonical_endpoint) (sp_network_policies p)) key
          = fmlookup (sp_network_policies p) key"
    proof (cases "fmlookup (sp_network_policies p) key")
      case (Some rule)
      have "map canonical_endpoint (nr_endpoints rule) = nr_endpoints rule"
        using wf Some by (intro map_idI) (auto simp: policy_all_def intro: mcp_wf_canonical)
      then have "map_rule_endpoints canonical_endpoint rule = rule" by (simp add: map_rule_endpoints_def)
      then show ?thesis using Some by simp
    qed simp
  qed
  then show ?thesis by (simp add: canonical_policy_eq map_policy_endpoints_def)
qed

text \<open>The \<open>expect\<close> of \<open>validate_rule_fragment\<close> cannot fail, and the fragment it returns is checked.\<close>

lemma validate_rule_fragment_Inr:
  assumes "validate_rule_fragment G N name rule = Inr rule'"
  shows "rule' = map_rule_endpoints canonical_endpoint rule"
    and "\<forall>ep\<in>set (nr_endpoints rule'). mcp_wf ep" and "\<forall>ep\<in>set (nr_endpoints rule'). ports_wf ep"
proof -
  let ?f = "restrictive_default_policy
     \<lparr>sp_network_policies := fmupd name rule (sp_network_policies restrictive_default_policy)\<rparr>"
  obtain c where c: "validate_and_canonicalize_sandbox_policy G N ?f = Inr c"
    and r: "rule' = the (fmlookup (sp_network_policies c) name)"
    using assms by (auto simp: validate_rule_fragment_def)
  have "c = map_policy_endpoints canonical_endpoint ?f"
    using c by (simp add: validate_and_canonicalize_sandbox_policy_def flip: canonical_policy_def canonical_policy_eq)
  then have l: "fmlookup (sp_network_policies c) name = Some (map_rule_endpoints canonical_endpoint rule)"
    by (simp add: map_policy_endpoints_def)
  then show "rule' = map_rule_endpoints canonical_endpoint rule" by (simp add: r)
  show "\<forall>ep\<in>set (nr_endpoints rule'). mcp_wf ep" "\<forall>ep\<in>set (nr_endpoints rule'). ports_wf ep"
    using validated_mcp_wf [OF c] l by (simp_all add: r policy_all_def)
qed

lemma canonical_operation_all:
  assumes "validate_and_canonicalize_operation G N index operation = Inr operation'"
  shows "op_all mcp_wf operation'" and "op_all ports_wf operation'"
  using assms
  by (cases operation; auto simp: validate_and_canonicalize_operation_def op_all_def
      dest: validate_rule_fragment_Inr split: sum.splits)+

subsection \<open>The loop over the operations\<close>

lemma merge_step_inv:
  assumes "merge_step G N st (index, operation) = Inr st'"
    and "policy_all mcp_wf (fst st)" and "policy_all ports_wf (fst st)"
  shows "policy_all mcp_wf (fst st')" and "policy_all ports_wf (fst st')"
proof -
  obtain operation' where o: "validate_and_canonicalize_operation G N index operation = Inr operation'"
    and a: "apply_operation st index operation' = Inr st'"
    using assms(1) by (auto simp: merge_step_def)
  show "policy_all mcp_wf (fst st')" "policy_all ports_wf (fst st')"
    using mcp_invariant.apply_operation_inv [OF a assms(2)] ports_invariant.apply_operation_inv [OF a assms(3)]
      canonical_operation_all [OF o] by blast+
qed

lemma merge_policy_cases:
  assumes "merge_policy G N policy operations = Inr res"
  obtains input merged where
    "validate_and_canonicalize_sandbox_policy G N policy = Inr input"
    and "foldE (merge_step G N) (input, []) (enumerate 0 operations) = Inr (merged, mr_warnings res)"
    and "ensure_no_new_inspection_conflicts merged (conflicting_inspection_contracts input) = Inr ()"
    and "validate_sandbox_policy G N merged = Inr ()"
    and "mr_policy res = merged" and "mr_changed res = (merged \<noteq> input)"
proof -
  obtain input merged ws where i: "validate_and_canonicalize_sandbox_policy G N policy = Inr input"
    and f: "foldE (merge_step G N) (input, []) (enumerate 0 operations) = Inr (merged, ws)"
    and e: "ensure_no_new_inspection_conflicts merged (conflicting_inspection_contracts input) = Inr ()"
    and c: "(case validate_and_canonicalize_sandbox_policy G N merged of
               Inl violations \<Rightarrow> Inl (InvalidMergedPolicy violations)
             | Inr merged' \<Rightarrow> Inr \<lparr>mr_policy = merged', mr_warnings = ws, mr_changed = (merged' \<noteq> input)\<rparr>)
            = Inr res"
    using assms unfolding merge_policy_def Let_def
    by (cases "validate_and_canonicalize_sandbox_policy G N policy") auto
  then obtain merged' where v: "validate_and_canonicalize_sandbox_policy G N merged = Inr merged'"
    and res: "res = \<lparr>mr_policy = merged', mr_warnings = ws, mr_changed = (merged' \<noteq> input)\<rparr>"
    by (auto split: sum.split_asm)
  have "policy_all mcp_wf (fst (merged, ws)) \<and> policy_all ports_wf (fst (merged, ws))"
    by (rule foldE_invariant [where I = "\<lambda>st. policy_all mcp_wf (fst st) \<and> policy_all ports_wf (fst st)", OF f])
      (use validated_mcp_wf [OF i] merge_step_inv in fastforce)+
  then have "canonical_policy merged = merged" by (simp add: canonical_policy_id)
  then have same: "merged' = merged"
    using v by (simp add: validate_and_canonicalize_sandbox_policy_def flip: canonical_policy_def)
  have "validate_sandbox_policy G N merged = Inr ()"
    using sandbox_boundary.boundary_strict [of G N merged merged'] v same
    by (simp add: validate_and_canonicalize_sandbox_policy_def canonical_policy_def)
  with i f e res same show ?thesis by (intro that) simp_all
qed

end
