(* ===== verification/Merge_Properties.thy ===== *)
theory Merge_Properties
  imports Policy_Merge
begin

text \<open>
  What the policy merge guarantees, operation by operation and for a whole request: additions
  grant nothing that was not declared, removals remove exactly what they name, appends touch
  one fully declared endpoint, and a successful request leaves a valid policy without new
  inspection conflicts.
\<close>

section \<open>Lemmas\<close>

lemma insert_rule_lookup [simp]:
  "fmlookup (sp_network_policies (insert_rule key rule p)) k
   = (if k = key then Some rule else fmlookup (sp_network_policies p) k)"
  by (simp add: insert_rule_def)

lemma remove_rule_lookup [simp]:
  "fmlookup (sp_network_policies (remove_rule key p)) k
   = (if k = key then None else fmlookup (sp_network_policies p) k)"
  by (simp add: remove_rule_def)

lemma replace_endpoint_lookup [simp]:
  "fmlookup (sp_network_policies (replace_endpoint p key rule i ep)) k
   = (if k = key then Some (rule\<lparr>nr_endpoints := (nr_endpoints rule)[i := ep]\<rparr>)
      else fmlookup (sp_network_policies p) k)"
  by (simp add: replace_endpoint_def)

subsection \<open>Adding a rule\<close>

lemma add_rule_cases:
  assumes "add_rule (p, ws) index name rule = Inr (p', ws')"
  obtains (fresh) "fmlookup (sp_network_policies p) name = None"
      "p' = insert_rule name (prepare_incoming_rule name rule) p"
    | (merged) key old new w where "fmlookup (sp_network_policies p) key = Some old"
      "merge_rules old (prepare_incoming_rule name rule) index name key = Inr (new, w)"
      "p' = insert_rule key new p" "key = name \<or> \<not> is_provider_rule_name key"
proof -
  let ?inc = "prepare_incoming_rule name rule"
  show thesis
  proof (cases "add_rule_target p name ?inc")
    case None
    then have "fmlookup (sp_network_policies p) name = None"
      by (auto simp: add_rule_target_def fm_contains_def split: if_splits)
    then show thesis using None assms by (intro fresh) (auto simp: add_rule_def)
  next
    case (Some key)
    have k: "key = name \<or> \<not> is_provider_rule_name key"
      and old: "\<exists>old. fmlookup (sp_network_policies p) key = Some old"
      using Some by (auto simp: add_rule_target_def fm_contains_def find_Some_iff
          split: if_splits option.splits dest!: nth_mem)
    then obtain old where o: "fmlookup (sp_network_policies p) key = Some old" by blast
    show thesis
    proof (cases "merge_rules old ?inc index name key")
      case (Inr r)
      then obtain new w where "merge_rules old ?inc index name key = Inr (new, w)" by (cases r) auto
      then show thesis using assms Some o k
        by (intro merged [of key old new w]) (auto simp: add_rule_def Let_def split: if_splits)
    next
      case (Inl e)
      then show thesis using assms Some o
        by (intro fresh) (auto simp: add_rule_def Let_def fm_contains_def split: if_splits)
    qed
  qed
qed

lemma authorization_ports_own:
  "port \<in> set (authorization_ports ep)
   \<Longrightarrow> (case port of None \<Rightarrow> True | Some p \<Rightarrow> p \<in> set (canonical_ports ep))"
  by (auto simp: authorization_ports_def split: if_splits option.splits)

lemma own_endpoint_named:
  "ep \<in> set (nr_endpoints rule) \<Longrightarrow> port \<in> set (authorization_ports ep) \<Longrightarrow> operation_names_port rule ep port"
  unfolding operation_names_port_def list_ex_iff
  by (rule bexI [of _ ep]) (simp_all add: authorization_ports_own)

text \<open>An endpoint that keeps its identity and only gains ports, matchers, addresses and flags.\<close>

definition endpoint_extends :: "NetworkEndpoint \<Rightarrow> NetworkEndpoint \<Rightarrow> bool" where
  "endpoint_extends e e' =
     (ne_host e' = ne_host e \<and> ne_path e' = ne_path e
      \<and> set (canonical_ports e) \<subseteq> set (canonical_ports e')
      \<and> widened_fields_cover e' e
      \<and> (ne_protocol e \<noteq> [] \<longrightarrow> ne_protocol e' = ne_protocol e))"

lemma endpoint_extends_refl [simp]: "endpoint_extends e e"
  by (simp add: endpoint_extends_def widened_fields_cover_def contains_all_def list_all_iff flag_covers_def)

lemma endpoint_extends_self: "e \<in> set eps \<Longrightarrow> \<exists>e'\<in>set eps. endpoint_extends e e'"
  by (rule bexI [of _ e]) simp_all

lemma endpoint_extends_trans: "endpoint_extends a b \<Longrightarrow> endpoint_extends b c \<Longrightarrow> endpoint_extends a c"
  by (auto simp: endpoint_extends_def widened_fields_cover_def contains_all_def list_all_iff flag_covers_def)

lemma merge_endpoint_extends:
  assumes "endpoints_overlap e i" and "merge_endpoint e i index = Inr (m, ws)"
  shows "endpoint_extends e m"
  using merge_endpoint_frame [OF assms(2)] overlap_identity [OF assms(1)]
  by (simp add: endpoint_extends_def)

lemma merge_into_first_extends:
  "merge_into_first eps i index = Some (Inr (eps', w)) \<Longrightarrow> e \<in> set eps
   \<Longrightarrow> \<exists>e'\<in>set eps'. endpoint_extends e e'"
proof (induction eps arbitrary: eps' w)
  case Nil
  then show ?case by simp
next
  case (Cons ep eps)
  show ?case
  proof (cases "endpoints_overlap ep i")
    case True
    then obtain m where m: "merge_endpoint ep i index = Inr (m, w)" "eps' = m # eps"
      using Cons.prems(1) by auto
    then show ?thesis using Cons.prems(2) merge_endpoint_extends [OF True m(1)] by fastforce
  next
    case False
    then obtain eps'' where "merge_into_first eps i index = Some (Inr (eps'', w))" "eps' = ep # eps''"
      using Cons.prems(1) by auto
    then show ?thesis using Cons.IH Cons.prems(2) by fastforce
  qed
qed

lemma merge_incoming_endpoint_extends:
  assumes "merge_incoming_endpoint index acc i = Inr acc'" and "e \<in> set (fst acc)"
  shows "\<exists>e'\<in>set (fst acc'). endpoint_extends e e'"
  using assms
  by (fastforce simp: merge_incoming_endpoint_def Let_def dest: merge_into_first_extends
      split: prod.splits option.splits)

lemma merge_rules_extends:
  assumes "merge_rules old inc index name key = Inr (new, w)" and "e \<in> set (nr_endpoints old)"
  shows "\<exists>e'\<in>set (nr_endpoints new). endpoint_extends e e'"
proof -
  obtain eps ew where f: "foldE (merge_incoming_endpoint index) (nr_endpoints old, []) (nr_endpoints inc) = Inr (eps, ew)"
    and new: "new = old\<lparr>nr_endpoints := eps, nr_binaries := merged_binaries old inc\<rparr>"
    using assms(1) by (rule merge_rules_cases)
  have "\<exists>e'\<in>set (fst (eps, ew)). endpoint_extends e e'"
  proof (rule foldE_invariant [where I = "\<lambda>acc. \<exists>e'\<in>set (fst acc). endpoint_extends e e'", OF f])
    show "\<exists>e'\<in>set (fst (nr_endpoints old, [])). endpoint_extends e e'"
      using assms(2) by (auto intro: bexI [of _ e])
    show "\<exists>e'\<in>set (fst acc'). endpoint_extends e e'"
      if "\<exists>e'\<in>set (fst acc). endpoint_extends e e'" "merge_incoming_endpoint index acc i = Inr acc'" for acc i acc'
      using that merge_incoming_endpoint_extends [OF that(2)] endpoint_extends_trans by blast
  qed
  then show ?thesis by (simp add: new)
qed

lemma merge_rules_scope:
  assumes "merge_rules old inc index name key = Inr (new, w)"
  shows "in_scope new path \<longleftrightarrow> in_scope old path \<or> in_scope inc path"
  using assms by (rule merge_rules_cases) (simp add: merged_binaries_scope)

subsection \<open>Removing an endpoint\<close>

text \<open>
  The authorization units of a rule: an endpoint with its ports erased, and one port. This is
  the specification \<open>remove_endpoint\<close> is measured against.
\<close>

definition rule_units :: "NetworkPolicyRule \<Rightarrow> (NetworkEndpoint \<times> nat) set" where
  "rule_units rule = {(set_ports [] ep, q) |ep q. ep \<in> set (nr_endpoints rule) \<and> q \<in> set (canonical_ports ep)}"

definition units_at :: "SandboxPolicy \<Rightarrow> string \<Rightarrow> (NetworkEndpoint \<times> nat) set" where
  "units_at p key = (case fmlookup (sp_network_policies p) key of None \<Rightarrow> {} | Some rule \<Rightarrow> rule_units rule)"

definition edit_rule :: "string \<Rightarrow> nat \<Rightarrow> NetworkPolicyRule \<Rightarrow> NetworkPolicyRule" where
  "edit_rule host port rule =
     rule\<lparr>nr_endpoints := List.map_filter (remove_endpoint_port host port) (nr_endpoints rule)\<rparr>"

lemma set_ports_absorb [simp]: "set_ports a (set_ports b ep) = set_ports a ep"
  by (simp add: set_ports_def)

lemma remove_endpoint_port_units:
  "(\<exists>ep'. remove_endpoint_port host port ep = Some ep' \<and> set_ports [] ep' = e \<and> q \<in> set (canonical_ports ep'))
   \<longleftrightarrow> set_ports [] ep = e \<and> q \<in> set (canonical_ports ep) \<and> \<not> (eq_ignore_ascii_case (ne_host ep) host \<and> q = port)"
proof (cases "endpoint_matches_host_port ep host port")
  case True
  then have h: "eq_ignore_ascii_case (ne_host ep) host" by (simp add: endpoint_matches_host_port_def)
  show ?thesis
  proof (cases "filter (\<lambda>p. p \<noteq> port) (canonical_ports ep) = []")
    case e: True
    then show ?thesis using True h by (auto simp: remove_endpoint_port_def filter_empty_conv)
  next
    case False
    then show ?thesis using True h by (auto simp: remove_endpoint_port_def)
  qed
next
  case False
  then show ?thesis by (auto simp: remove_endpoint_port_def endpoint_matches_host_port_def)
qed

lemma rule_units_edit:
  "rule_units (edit_rule host port rule)
   = {(e, q) \<in> rule_units rule. \<not> (eq_ignore_ascii_case (ne_host e) host \<and> q = port)}"
proof -
  have "(e, q) \<in> rule_units (edit_rule host port rule) \<longleftrightarrow>
        (\<exists>ep\<in>set (nr_endpoints rule). \<exists>ep'. remove_endpoint_port host port ep = Some ep'
            \<and> set_ports [] ep' = e \<and> q \<in> set (canonical_ports ep'))" for e q
    by (force simp: rule_units_def edit_rule_def List.map_filter_def)
  then show ?thesis
    by (auto simp: remove_endpoint_port_units) (auto simp: rule_units_def)
qed

lemma remove_endpoint_key_lookup:
  "fmlookup (sp_network_policies (remove_endpoint_key host port p key)) k
   = (if k = key then map_option (edit_rule host port) (fmlookup (sp_network_policies p) k)
      else fmlookup (sp_network_policies p) k)"
  by (auto simp: remove_endpoint_key_def edit_rule_def split: option.splits)

lemma remove_endpoint_keys_lookup:
  "distinct keys \<Longrightarrow>
   fmlookup (sp_network_policies (foldl (remove_endpoint_key host port) p keys)) k
   = (if k \<in> set keys then map_option (edit_rule host port) (fmlookup (sp_network_policies p) k)
      else fmlookup (sp_network_policies p) k)"
  by (induction keys arbitrary: p) (auto simp: remove_endpoint_key_lookup)

lemma remove_rules_lookup:
  "fmlookup (sp_network_policies (foldl (\<lambda>p key. remove_rule key p) p keys)) k
   = (if k \<in> set keys then None else fmlookup (sp_network_policies p) k)"
  by (induction keys arbitrary: p) auto

definition removal_targets :: "SandboxPolicy \<Rightarrow> string option \<Rightarrow> string \<Rightarrow> bool" where
  "removal_targets p rule_name key = (rule_name = None \<or> rule_name = Some key)"

lemma remove_endpoint_units:
  "units_at (remove_endpoint p rule_name host port) key =
     (if removal_targets p rule_name key
      then {(e, q) \<in> units_at p key. \<not> (eq_ignore_ascii_case (ne_host e) host \<and> q = port)}
      else units_at p key)"
proof -
  define keys where "keys = (case rule_name of
      Some name \<Rightarrow> if fm_contains (sp_network_policies p) name then [name] else []
    | None \<Rightarrow> fm_keys (sp_network_policies p))"
  define edited where "edited = foldl (remove_endpoint_key host port) p keys"
  have d: "distinct keys" by (simp add: keys_def split: option.splits)
  have inkeys: "key \<in> set keys \<longleftrightarrow> removal_targets p rule_name key \<and> fm_contains (sp_network_policies p) key"
    by (auto simp: keys_def removal_targets_def fm_contains_def fmlookup_dom_iff split: option.splits)
  have edited: "fmlookup (sp_network_policies edited) key =
      (if key \<in> set keys then map_option (edit_rule host port) (fmlookup (sp_network_policies p) key)
       else fmlookup (sp_network_policies p) key)"
    unfolding edited_def by (rule remove_endpoint_keys_lookup [OF d])
  have r: "remove_endpoint p rule_name host port = foldl (\<lambda>p key. remove_rule key p) edited
      (filter (\<lambda>key. case fmlookup (sp_network_policies edited) key of None \<Rightarrow> False
                     | Some rule \<Rightarrow> nr_endpoints rule = []) keys)"
    by (simp add: remove_endpoint_def keys_def edited_def Let_def)
  have "units_at (remove_endpoint p rule_name host port) key = units_at edited key"
    by (auto simp: r units_at_def remove_rules_lookup rule_units_def split: option.splits)
  also have "\<dots> = (if removal_targets p rule_name key
      then {(e, q) \<in> units_at p key. \<not> (eq_ignore_ascii_case (ne_host e) host \<and> q = port)}
      else units_at p key)"
    using inkeys
    by (cases "fmlookup (sp_network_policies p) key") (auto simp: units_at_def edited rule_units_edit fm_contains_def)
  finally show ?thesis .
qed

subsection \<open>Inspection conflicts\<close>

lemma inspections_conflict_iff:
  "inspections_conflict found \<longleftrightarrow>
   (\<exists>a\<in>set found. \<exists>b\<in>set found. ei_mcp (fst a) \<noteq> None \<and> ei_mcp (fst b) \<noteq> ei_mcp (fst a))"
proof -
  have mem: "c \<in> set (List.map_filter (\<lambda>(i, _). ei_mcp i) found) \<longleftrightarrow> (\<exists>a\<in>set found. ei_mcp (fst a) = Some c)" for c
    by (force simp: List.map_filter_def)
  show ?thesis
  proof (cases "List.map_filter (\<lambda>(i, _). ei_mcp i) found")
    case Nil
    then have "\<forall>a\<in>set found. ei_mcp (fst a) = None" using mem by (metis empty_iff list.set(1) not_None_eq)
    then show ?thesis using Nil by (auto simp: inspections_conflict_def)
  next
    case (Cons first rest)
    then have ex: "\<exists>a\<in>set found. ei_mcp (fst a) = Some first" using mem [of first] by simp
    have rest: "c \<in> set (first # rest) \<longleftrightarrow> (\<exists>a\<in>set found. ei_mcp (fst a) = Some c)" for c
      using mem [of c] Cons by simp
    have none: "list_ex (\<lambda>(i, _). ei_mcp i = None) found \<longleftrightarrow> (\<exists>a\<in>set found. ei_mcp (fst a) = None)"
      by (auto simp: list_ex_iff case_prod_unfold)
    have conf: "inspections_conflict found \<longleftrightarrow> (\<exists>a\<in>set found. ei_mcp (fst a) = None) \<or> (\<exists>c\<in>set rest. c \<noteq> first)"
      using Cons none by (simp add: inspections_conflict_def list_ex_iff)
    show ?thesis
    proof
      assume "inspections_conflict found"
      then consider b where "b \<in> set found" "ei_mcp (fst b) = None" | c where "c \<in> set rest" "c \<noteq> first"
        using conf by blast
      then show "\<exists>a\<in>set found. \<exists>b\<in>set found. ei_mcp (fst a) \<noteq> None \<and> ei_mcp (fst b) \<noteq> ei_mcp (fst a)"
      proof cases
        case 1
        then show ?thesis using ex by (metis option.distinct(1))
      next
        case 2
        then have "\<exists>b\<in>set found. ei_mcp (fst b) = Some c" using rest [of c] by simp
        then show ?thesis using ex 2(2) by (metis option.distinct(1) option.inject)
      qed
    next
      assume "\<exists>a\<in>set found. \<exists>b\<in>set found. ei_mcp (fst a) \<noteq> None \<and> ei_mcp (fst b) \<noteq> ei_mcp (fst a)"
      then obtain a b x where ab: "a \<in> set found" "b \<in> set found" "ei_mcp (fst a) = Some x" "ei_mcp (fst b) \<noteq> Some x"
        by auto
      show "inspections_conflict found"
      proof (cases "ei_mcp (fst b)")
        case None
        then show ?thesis using conf ab(2) by blast
      next
        case (Some y)
        then have "x \<in> set (first # rest)" "y \<in> set (first # rest)" "x \<noteq> y" using rest ab by blast+
        then show ?thesis using conf by auto
      qed
    qed
  qed
qed

lemma no_conflict_agree:
  "\<not> inspections_conflict found \<Longrightarrow> a \<in> set found \<Longrightarrow> b \<in> set found \<Longrightarrow> ei_mcp (fst a) = ei_mcp (fst b)"
  unfolding inspections_conflict_iff by metis

lemma conflicting_keys:
  "(key, contracts) \<in> set (conflicting_inspection_contracts p) \<longleftrightarrow>
   inspections_conflict (inspections_at p key) \<and> contracts = sort_dedup (map snd (inspections_at p key))"
proof -
  have "inspections_conflict (inspections_at p key) \<Longrightarrow> key \<in> fst ` set (policy_inspections p)"
    by (force simp: inspections_conflict_iff inspections_at_def)
  then show ?thesis
    by (auto simp: conflicting_inspection_contracts_def List.map_filter_def Let_def)
qed

lemma in_concat_map: "a \<in> set as \<Longrightarrow> x \<in> set (f a) \<Longrightarrow> x \<in> set (concat (map f as))"
  by auto

lemma policy_inspections_endpoint:
  assumes "fmlookup (sp_network_policies p) key = Some rule" and "ep \<in> set (nr_endpoints rule)"
    and "(k, v) \<in> set (endpoint_inspections ep)"
  shows "v \<in> set (inspections_at p k)"
proof -
  have "rule \<in> set (fm_values (sp_network_policies p))"
    unfolding set_fm_values using assms(1) by (rule exI)
  then have "(k, v) \<in> set (policy_inspections p)"
    unfolding policy_inspections_def
    by (rule in_concat_map) (rule in_concat_map [where f = endpoint_inspections, OF assms(2,3)])
  then have "(k, v) \<in> set (filter (\<lambda>(k', _). k' = k) (policy_inspections p))" by simp
  then show ?thesis unfolding inspections_at_def set_map by (rule rev_image_eqI) simp
qed

lemma inspections_at_endpoint:
  assumes "fmlookup (sp_network_policies p) key = Some rule" and "ep \<in> set (nr_endpoints rule)"
    and "ne_protocol ep \<noteq> []" and "port \<in> set (canonical_ports ep)"
  shows "(\<lparr>ei_protocol = to_ascii_lowercase (ne_protocol ep), ei_mcp = effective_mcp_contract ep\<rparr>,
          describe_mcp_contract ep) \<in> set (inspections_at p (to_ascii_lowercase (ne_host ep), port))"
proof (rule policy_inspections_endpoint [OF assms(1,2)])
  show "((to_ascii_lowercase (ne_host ep), port),
      \<lparr>ei_protocol = to_ascii_lowercase (ne_protocol ep), ei_mcp = effective_mcp_contract ep\<rparr>,
      describe_mcp_contract ep) \<in> set (endpoint_inspections ep)"
    unfolding endpoint_inspections_def Let_def if_not_P [OF assms(3)] set_map
    by (rule image_eqI [OF refl assms(4)])
qed

lemma ensure_no_new_Inr:
  assumes "ensure_no_new_inspection_conflicts merged before = Inr u"
    and "(key, contracts) \<in> set (conflicting_inspection_contracts merged)"
  shows "\<exists>prior. map_of before key = Some prior \<and> set contracts \<subseteq> set prior"
proof -
  define f :: "unit \<Rightarrow> (string \<times> nat) \<times> string list \<Rightarrow> PolicyMergeError + unit" where
    "f = (\<lambda>_ ((host, port), contracts).
       if (case map_of before (host, port) of
             None \<Rightarrow> False
           | Some prior \<Rightarrow> list_all (\<lambda>c. c \<in> set prior) contracts)
       then Inr ()
       else Inl (ConflictingInspectionContracts host port contracts))"
  have all: "foldE f v xs = Inr u \<Longrightarrow> x \<in> set xs \<Longrightarrow> f () x = Inr ()" for v xs x
    by (induction xs arbitrary: v) auto
  have "foldE f () (conflicting_inspection_contracts merged) = Inr u"
    using assms(1) by (simp add: ensure_no_new_inspection_conflicts_def f_def)
  then have "f () (key, contracts) = Inr ()" using assms(2) by (rule all)
  then show ?thesis
    by (cases key) (auto simp: f_def list_all_iff split: if_splits option.splits)
qed

subsection \<open>Whole requests\<close>

lemma map_of_conflicting:
  "map_of (conflicting_inspection_contracts p) key = Some cs
   \<longleftrightarrow> (key, cs) \<in> set (conflicting_inspection_contracts p)"
proof
  assume k: "(key, cs) \<in> set (conflicting_inspection_contracts p)"
  then obtain cs' where "map_of (conflicting_inspection_contracts p) key = Some cs'"
    by (metis weak_map_of_SomeI)
  moreover from this have "(key, cs') \<in> set (conflicting_inspection_contracts p)" by (rule map_of_SomeD)
  ultimately show "map_of (conflicting_inspection_contracts p) key = Some cs" using k by (simp add: conflicting_keys)
qed (rule map_of_SomeD)

lemma ensure_no_new_refl: "ensure_no_new_inspection_conflicts p (conflicting_inspection_contracts p) = Inr ()"
proof -
  define f :: "unit \<Rightarrow> (string \<times> nat) \<times> string list \<Rightarrow> PolicyMergeError + unit" where
    "f = (\<lambda>_ ((host, port), contracts).
       if (case map_of (conflicting_inspection_contracts p) (host, port) of
             None \<Rightarrow> False
           | Some prior \<Rightarrow> list_all (\<lambda>c. c \<in> set prior) contracts)
       then Inr ()
       else Inl (ConflictingInspectionContracts host port contracts))"
  have all: "(\<And>x. x \<in> set xs \<Longrightarrow> f () x = Inr ()) \<Longrightarrow> foldE f () xs = Inr ()" for xs
    by (induction xs) auto
  have "f () x = Inr ()" if "x \<in> set (conflicting_inspection_contracts p)" for x
  proof -
    obtain host port cs where x: "x = ((host, port), cs)" by (metis surj_pair)
    then have "map_of (conflicting_inspection_contracts p) (host, port) = Some cs"
      using that map_of_conflicting by simp
    then show ?thesis by (simp add: x f_def list_all_iff)
  qed
  then show ?thesis unfolding ensure_no_new_inspection_conflicts_def f_def [symmetric] by (rule all)
qed

lemma merge_policy_canonical:
  assumes "merge_policy G N policy operations = Inr res"
  shows "validate_and_canonicalize_sandbox_policy G N (mr_policy res) = Inr (mr_policy res)"
proof -
  obtain merged ws input where c: "(case validate_and_canonicalize_sandbox_policy G N merged of
        Inl violations \<Rightarrow> Inl (InvalidMergedPolicy violations)
      | Inr merged' \<Rightarrow> Inr \<lparr>mr_policy = merged', mr_warnings = ws, mr_changed = (merged' \<noteq> input)\<rparr>) = Inr res"
    using assms by (cases "validate_and_canonicalize_sandbox_policy G N policy") (auto simp: merge_policy_def Let_def)
  then obtain q where "validate_and_canonicalize_sandbox_policy G N merged = Inr q" "mr_policy res = q"
    by (cases "validate_and_canonicalize_sandbox_policy G N merged") auto
  then show ?thesis using sandbox_boundary.boundary_idem [of G N merged q]
    by (simp add: validate_and_canonicalize_sandbox_policy_def canonical_policy_def)
qed

section \<open>Samples\<close>

definition sample_api_endpoint :: NetworkEndpoint where
  "sample_api_endpoint = endpoint_default\<lparr>ne_host := ''api.example.com'', ne_port := 443, ne_ports := [443],
     ne_protocol := ''rest'', ne_access := ACCESS_READ_ONLY\<rparr>"

definition sample_api_rule :: NetworkPolicyRule where
  "sample_api_rule = \<lparr>nr_name = ''api'', nr_endpoints = [sample_api_endpoint], nr_binaries = [\<lparr>nb_path = ''/usr/bin/curl''\<rparr>]\<rparr>"

definition sample_input :: SandboxPolicy where
  "sample_input = canonical_policy sample_policy"

definition sample_added :: SandboxPolicy where
  "sample_added = insert_rule ''mcp''
     \<lparr>nr_name = [], nr_endpoints = [canonical_endpoint sample_endpoint, sample_api_endpoint],
      nr_binaries = [\<lparr>nb_path = ''/usr/bin/curl''\<rparr>]\<rparr> sample_input"

definition sample_result :: PolicyMergeResult where
  "sample_result = \<lparr>mr_policy = sample_added, mr_warnings = [], mr_changed = True\<rparr>"

definition sample_advised_endpoint :: NetworkEndpoint where
  "sample_advised_endpoint = sample_endpoint\<lparr>ne_advisor_proposed := True\<rparr>"

definition sample_advised_rule :: NetworkPolicyRule where
  "sample_advised_rule = \<lparr>nr_name = ''advised'', nr_endpoints = [sample_advised_endpoint],
     nr_binaries = [\<lparr>nb_path = ''/usr/bin/python3''\<rparr>]\<rparr>"

definition sample_advised :: SandboxPolicy where
  "sample_advised = insert_rule ''advised''
     (prepare_incoming_rule ''advised'' (map_rule_endpoints canonical_endpoint sample_advised_rule)) sample_input"

lemma sample_add_rule: "add_rule (sample_input, []) 0 ''mcp'' sample_api_rule = Inr (sample_added, [])"
  by code_simp

lemma sample_merge: "merge_policy star_glob sample_dns sample_policy [AddRule ''mcp'' sample_api_rule] = Inr sample_result"
  by code_simp

lemma sample_added_lookup:
  "fmlookup (sp_network_policies sample_added) ''mcp'' = Some
     \<lparr>nr_name = [], nr_endpoints = [canonical_endpoint sample_endpoint, sample_api_endpoint],
      nr_binaries = [\<lparr>nb_path = ''/usr/bin/curl''\<rparr>]\<rparr>"
  by (simp add: sample_added_def)

section \<open>Properties\<close>

text \<open>C2. Adding a rule grants nothing implicitly. Take any binary path, endpoint and port that the
  policy authorizes after an \<open>AddRule\<close>. Either the rule under the same key authorized the binary
  before and the unit is unchanged (its endpoint was there, or an endpoint covers it in both
  directions with the same provenance), or the operation itself has the binary in scope and names
  the port of that endpoint, and then the binary was in scope of the old rule, or the operation
  declares the unit in full, or the operation created the rule.\<close>
theorem add_rule_no_implicit_grant:
  assumes "add_rule (p, ws) index name rule = Inr (p', ws')"
    and "fmlookup (sp_network_policies p') key = Some new" and "ep \<in> set (nr_endpoints new)"
    and "port \<in> set (authorization_ports ep)" and "in_scope new path"
  shows "let inc = prepare_incoming_rule name rule
         in (\<exists>old. fmlookup (sp_network_policies p) key = Some old \<and> in_scope old path
               \<and> (ep \<in> set (nr_endpoints old) \<or> unit_unchanged old ep port))
          \<or> in_scope inc path \<and> operation_names_port inc ep port
            \<and> (case fmlookup (sp_network_policies p) key of
                 None \<Rightarrow> ep \<in> set (nr_endpoints inc)
               | Some old \<Rightarrow> in_scope old path \<or> fully_declared inc ep port)"
  using assms(1)
proof (cases rule: add_rule_cases)
  case fresh
  then show ?thesis using assms(2-5) own_endpoint_named by (auto simp: Let_def split: if_splits)
next
  case (merged k old new' w)
  show ?thesis
  proof (cases "key = k")
    case True
    then have "new' = new" using merged(3) assms(2) by simp
    then show ?thesis using merge_rules_grants [OF merged(2), of ep port path] merged(1) assms(3-5) True
      by (auto simp: Let_def)
  next
    case False
    then show ?thesis using merged(3) assms(2,3,5) by (auto simp: Let_def)
  qed
qed

theorem add_rule_no_implicit_grant_witness:
  "let inc = prepare_incoming_rule ''mcp'' sample_api_rule
   in (\<exists>old. fmlookup (sp_network_policies sample_input) ''mcp'' = Some old \<and> in_scope old ''/usr/bin/curl''
         \<and> (sample_api_endpoint \<in> set (nr_endpoints old) \<or> unit_unchanged old sample_api_endpoint (Some 443)))
    \<or> in_scope inc ''/usr/bin/curl'' \<and> operation_names_port inc sample_api_endpoint (Some 443)
      \<and> (case fmlookup (sp_network_policies sample_input) ''mcp'' of
           None \<Rightarrow> sample_api_endpoint \<in> set (nr_endpoints inc)
         | Some old \<Rightarrow> in_scope old ''/usr/bin/curl'' \<or> fully_declared inc sample_api_endpoint (Some 443))"
  by (rule add_rule_no_implicit_grant [OF sample_add_rule sample_added_lookup])
    (simp_all add: in_scope_iff authorization_ports_def canonical_ports_def sample_api_endpoint_def)

text \<open>C15. Adding a rule takes nothing away and stays where it was addressed. Every rule of the policy
  is still there under its key, with every binary it had in scope, and each of its endpoints is
  kept or extended (same host, path and protocol; more ports, matchers, addresses and flags). A
  rule under a reserved provider key changes only when the operation names that key.\<close>
theorem add_rule_additive:
  assumes "add_rule (p, ws) index name rule = Inr (p', ws')"
    and "fmlookup (sp_network_policies p) key = Some old"
  shows "\<exists>new. fmlookup (sp_network_policies p') key = Some new
    \<and> (\<forall>path. in_scope old path \<longrightarrow> in_scope new path)
    \<and> (\<forall>e\<in>set (nr_endpoints old). \<exists>e'\<in>set (nr_endpoints new). endpoint_extends e e')
    \<and> (is_provider_rule_name key \<and> key \<noteq> name \<longrightarrow> new = old)"
  using assms(1)
proof (cases rule: add_rule_cases)
  case fresh
  then have "key \<noteq> name" using assms(2) by auto
  then show ?thesis using fresh(2) assms(2) by (auto intro: endpoint_extends_self)
next
  case (merged k old' new w)
  show ?thesis
  proof (cases "key = k")
    case True
    then have "old' = old" using merged(1) assms(2) by simp
    then show ?thesis
      using merged(3,4) True merge_rules_extends [OF merged(2)] merge_rules_scope [OF merged(2)] by auto
  next
    case False
    then show ?thesis using merged(3) assms(2) by (auto intro: endpoint_extends_self)
  qed
qed

theorem add_rule_additive_witness:
  "\<exists>old new. fmlookup (sp_network_policies sample_input) ''mcp'' = Some old
    \<and> fmlookup (sp_network_policies sample_added) ''mcp'' = Some new
    \<and> {path. in_scope old path} \<subseteq> {path. in_scope new path}"
proof -
  have "\<exists>old. fmlookup (sp_network_policies sample_input) ''mcp'' = Some old"
    by (simp add: sample_input_def canonical_policy_eq map_policy_endpoints_def sample_policy_def fmlookup_of_list)
  then show ?thesis using add_rule_additive [OF sample_add_rule] by blast
qed

text \<open>C3. A merge that succeeds returns the policy its operations built, in request order, from the
  canonical input: the final canonicalization changes nothing, the policy passes the strict
  validator, merging no further operation leaves it alone, and the changed flag says whether it
  differs from the canonical input.\<close>
theorem merge_policy_result:
  assumes "merge_policy G N policy operations = Inr res"
  shows "\<exists>input. validate_and_canonicalize_sandbox_policy G N policy = Inr input
    \<and> foldE (merge_step G N) (input, []) (enumerate 0 operations) = Inr (mr_policy res, mr_warnings res)
    \<and> validate_sandbox_policy G N (mr_policy res) = Inr ()
    \<and> merge_policy G N (mr_policy res) [] = Inr \<lparr>mr_policy = mr_policy res, mr_warnings = [], mr_changed = False\<rparr>
    \<and> (mr_changed res \<longleftrightarrow> mr_policy res \<noteq> input)"
  using assms
proof (cases rule: merge_policy_cases)
  case (1 input merged)
  have again: "validate_and_canonicalize_sandbox_policy G N (mr_policy res) = Inr (mr_policy res)"
    by (rule merge_policy_canonical [OF assms])
  have "merge_policy G N (mr_policy res) [] = Inr \<lparr>mr_policy = mr_policy res, mr_warnings = [], mr_changed = False\<rparr>"
    by (simp add: merge_policy_def again ensure_no_new_refl)
  then show ?thesis using 1 by auto
qed

theorem merge_policy_result_witness:
  "\<exists>input. validate_and_canonicalize_sandbox_policy star_glob sample_dns sample_policy = Inr input
    \<and> validate_sandbox_policy star_glob sample_dns (mr_policy sample_result) = Inr ()
    \<and> (mr_changed sample_result \<longleftrightarrow> mr_policy sample_result \<noteq> input)"
  using merge_policy_result [OF sample_merge] by blast

text \<open>C24. A merge introduces no inspection conflict. If the inspected endpoints at a host and port
  agreed on their MCP contract in the canonical input, then after the merge any two inspected
  endpoints at that host and port, whichever rules they belong to, have the same effective MCP
  contract.\<close>
theorem merge_no_new_inspection_conflict:
  assumes "merge_policy G N policy operations = Inr res"
    and "validate_and_canonicalize_sandbox_policy G N policy = Inr input"
    and "\<not> inspections_conflict (inspections_at input (host, port))"
    and "fmlookup (sp_network_policies (mr_policy res)) k1 = Some r1" and "e1 \<in> set (nr_endpoints r1)"
    and "fmlookup (sp_network_policies (mr_policy res)) k2 = Some r2" and "e2 \<in> set (nr_endpoints r2)"
    and "ne_protocol e1 \<noteq> []" and "to_ascii_lowercase (ne_host e1) = host" and "port \<in> set (canonical_ports e1)"
    and "ne_protocol e2 \<noteq> []" and "to_ascii_lowercase (ne_host e2) = host" and "port \<in> set (canonical_ports e2)"
  shows "effective_mcp_contract e1 = effective_mcp_contract e2"
proof -
  have ok: "ensure_no_new_inspection_conflicts (mr_policy res) (conflicting_inspection_contracts input) = Inr ()"
    using assms(1) by (rule merge_policy_cases) (use assms(2) in simp)
  have "\<not> inspections_conflict (inspections_at (mr_policy res) (host, port))"
  proof
    assume "inspections_conflict (inspections_at (mr_policy res) (host, port))"
    then obtain cs where "((host, port), cs) \<in> set (conflicting_inspection_contracts (mr_policy res))"
      by (simp add: conflicting_keys)
    then obtain prior where "map_of (conflicting_inspection_contracts input) (host, port) = Some prior"
      using ensure_no_new_Inr [OF ok] by blast
    then show False using assms(3) by (auto dest!: map_of_SomeD simp: conflicting_keys)
  qed
  then show ?thesis
    using no_conflict_agree inspections_at_endpoint [OF assms(4,5,8,10)] inspections_at_endpoint [OF assms(6,7,11,13)]
    unfolding assms(9,12) by (metis EffectiveInspection.select_convs(2) fst_conv)
qed

theorem merge_no_new_inspection_conflict_witness:
  "effective_mcp_contract (canonical_endpoint sample_endpoint)
   = effective_mcp_contract (normalize_endpoint (canonical_endpoint sample_advised_endpoint))"
proof -
  have n: "\<not> inspections_conflict (inspections_at sample_input (''mcp.example.com'', 443))" by code_simp
  have b: "validate_and_canonicalize_sandbox_policy star_glob sample_dns sample_policy = Inr sample_input"
    unfolding sample_input_def by (rule sample_policy_boundary)
  have m: "merge_policy star_glob sample_dns sample_policy [AddRule ''advised'' sample_advised_rule]
      = Inr \<lparr>mr_policy = sample_advised, mr_warnings = [], mr_changed = True\<rparr>" by code_simp
  show ?thesis
  proof (rule merge_no_new_inspection_conflict [OF m b n])
    show "fmlookup (sp_network_policies (mr_policy \<lparr>mr_policy = sample_advised, mr_warnings = [], mr_changed = True\<rparr>)) ''mcp''
        = Some (map_rule_endpoints canonical_endpoint sample_rule)"
      by (simp add: sample_advised_def sample_input_def canonical_policy_eq map_policy_endpoints_def sample_policy_def
          fmlookup_of_list)
    show "fmlookup (sp_network_policies (mr_policy \<lparr>mr_policy = sample_advised, mr_warnings = [], mr_changed = True\<rparr>)) ''advised''
        = Some (prepare_incoming_rule ''advised'' (map_rule_endpoints canonical_endpoint sample_advised_rule))"
      by (simp add: sample_advised_def)
  qed code_simp+
qed

end
