(* ===== verification/Merge_Operations.thy ===== *)
theory Merge_Operations
  imports Merge_Properties
begin

text \<open>
  Exact characterizations of the single merge operations: which endpoint an L7 append resolves
  to and what it changes, what a removal removes, what the coverage check and the advisor
  rewrite promise.
\<close>

section \<open>Specifications\<close>

text \<open>The binary paths a target declares, and the endpoints its host, ports and path match.\<close>

definition target_scope :: "L7RuleTarget \<Rightarrow> string \<Rightarrow> bool" where
  "target_scope target path =
     (case lt_binaries target of AnyBinary \<Rightarrow> True | Restricted bs \<Rightarrow> path \<in> nb_path ` set bs)"

definition l7_matches :: "L7RuleTarget \<Rightarrow> NetworkEndpoint \<Rightarrow> bool" where
  "l7_matches target ep =
     (eq_ignore_ascii_case (ne_host ep) (lt_host target)
      \<and> set (canonical_ports ep) \<inter> set (lt_ports target) \<noteq> {}
      \<and> (case lt_path target of None \<Rightarrow> True | Some path \<Rightarrow> ne_path ep = path))"

text \<open>A target names endpoint \<open>i\<close> of a rule when that is the only endpoint it matches and the target
  declares the full binary scope of the rule and the full port scope of the endpoint.\<close>

definition l7_target_names :: "SandboxPolicy \<Rightarrow> L7RuleTarget \<Rightarrow> NetworkPolicyRule \<Rightarrow> nat \<Rightarrow> bool" where
  "l7_target_names policy target rule i =
     (fmlookup (sp_network_policies policy) (lt_rule_name target) = Some rule
      \<and> i < length (nr_endpoints rule)
      \<and> (\<forall>j<length (nr_endpoints rule). l7_matches target (nr_endpoints rule ! j) \<longleftrightarrow> j = i)
      \<and> (\<forall>path. in_scope rule path \<longleftrightarrow> target_scope target path)
      \<and> set (canonical_ports (nr_endpoints rule ! i)) = set (lt_ports target))"

text \<open>Something for deny rules to be subtracted from: an access preset or allow rules.\<close>

definition has_allow_base :: "NetworkEndpoint \<Rightarrow> bool" where
  "has_allow_base ep = (ne_access ep \<noteq> ACCESS_UNSPECIFIED \<or> ne_rules ep \<noteq> [])"

text \<open>The allow rules of an endpoint once its access preset, if it has one, is written out.\<close>

definition spelled_out_rules :: "NetworkEndpoint \<Rightarrow> L7Rule list option" where
  "spelled_out_rules ep =
     (if ne_access ep = ACCESS_UNSPECIFIED then Some (ne_rules ep)
      else map_option (append_unique (ne_rules ep))
             (expand_access_preset (ne_protocol ep) (access_label (ne_access ep))))"

section \<open>Lemmas\<close>

lemma distinct_singleton: "distinct xs \<Longrightarrow> set xs = {i} \<Longrightarrow> xs = [i]"
  by (cases xs; cases "tl xs") auto

lemma filter_enumerate_single:
  "map fst (filter (\<lambda>(_, x). P x) (enumerate 0 xs)) = [i]
   \<longleftrightarrow> i < length xs \<and> (\<forall>j<length xs. P (xs ! j) \<longleftrightarrow> j = i)" (is "?idx = [i] \<longleftrightarrow> ?R")
proof -
  have s: "set ?idx = {j. j < length xs \<and> P (xs ! j)}"
    by (force simp: in_set_enumerate_eq)
  have d: "distinct ?idx"
    by (metis distinct_map_filter distinct_upt map_fst_enumerate)
  show ?thesis
  proof
    assume e: "?idx = [i]"
    have "{j. j < length xs \<and> P (xs ! j)} = {i}" using s unfolding e by simp
    then show ?R by blast
  next
    assume ?R
    then have "set ?idx = {i}" unfolding s by blast
    then show "?idx = [i]" using d by (intro distinct_singleton)
  qed
qed

lemma l7_candidates_single:
  "l7_candidates rule target = [i] \<longleftrightarrow>
   i < length (nr_endpoints rule) \<and> (\<forall>j<length (nr_endpoints rule). l7_matches target (nr_endpoints rule ! j) \<longleftrightarrow> j = i)"
proof -
  have "(\<lambda>(_ :: nat, ep). eq_ignore_ascii_case (ne_host ep) (lt_host target)
         \<and> list_ex (\<lambda>port. port \<in> set (lt_ports target)) (canonical_ports ep)
         \<and> (case lt_path target of None \<Rightarrow> True | Some path \<Rightarrow> ne_path ep = path))
       = (\<lambda>(_, ep). l7_matches target ep)"
    by (auto simp: fun_eq_iff l7_matches_def list_ex_iff split: option.splits)
  then show ?thesis unfolding l7_candidates_def by (simp add: filter_enumerate_single)
qed

lemma scope_declared_iff:
  "(nr_binaries rule = []) = (lt_binaries target = AnyBinary) \<and> l7_binary_paths (nr_binaries rule) = declared_binary_paths target
   \<longleftrightarrow> (\<forall>path. in_scope rule path \<longleftrightarrow> target_scope target path)"
proof -
  have fin: "\<exists>path. path \<notin> nb_path ` set bs" for bs :: "NetworkBinary list"
    using ex_new_if_finite [OF infinite_UNIV_listI, of "nb_path ` set bs"] by simp
  show ?thesis
  proof (cases "lt_binaries target")
    case AnyBinary
    then show ?thesis using fin [of "nr_binaries rule"]
      by (auto simp: in_scope_iff target_scope_def declared_binary_paths_def l7_binary_paths_def sort_dedup_def)
  next
    case (Restricted bs)
    have "l7_binary_paths (nr_binaries rule) = l7_binary_paths bs \<longleftrightarrow> nb_path ` set (nr_binaries rule) = nb_path ` set bs"
      by (simp add: l7_binary_paths_def sort_dedup_eq_iff)
    moreover have "nb_path ` set (nr_binaries rule) = nb_path ` set bs
        \<longleftrightarrow> (\<forall>path. path \<in> nb_path ` set (nr_binaries rule) \<longleftrightarrow> path \<in> nb_path ` set bs)" by (rule set_eq_iff)
    ultimately show ?thesis using fin [of bs] Restricted
      unfolding in_scope_iff target_scope_def declared_binary_paths_def
      by (cases "nr_binaries rule = []") simp_all
  qed
qed

lemma resolve_l7_target_iff:
  "resolve_l7_target policy target = Inr (rule, i) \<longleftrightarrow> l7_target_names policy target rule i"
proof
  assume "resolve_l7_target policy target = Inr (rule, i)"
  note r = resolve_l7_target_Inr [OF this]
  show "l7_target_names policy target rule i"
    using r(1) r(2) [unfolded l7_candidates_single] r(3-5) scope_declared_iff [of rule target]
    by (auto simp: l7_target_names_def sort_dedup_eq_iff)
next
  assume n: "l7_target_names policy target rule i"
  have c: "l7_candidates rule target = [i]" using n by (simp add: l7_target_names_def l7_candidates_single)
  have "(nr_binaries rule = []) = (lt_binaries target = AnyBinary)"
    "l7_binary_paths (nr_binaries rule) = declared_binary_paths target"
    using n scope_declared_iff [of rule target] by (simp_all add: l7_target_names_def)
  moreover have "sort_dedup (canonical_ports (nr_endpoints rule ! i)) = sort_dedup (lt_ports target)"
    using n by (simp add: l7_target_names_def sort_dedup_eq_iff)
  ultimately show "resolve_l7_target policy target = Inr (rule, i)"
    using n c by (simp add: resolve_l7_target_def l7_target_names_def Let_def)
qed

subsection \<open>Coverage\<close>

lemma normalize_endpoint_dropped [simp]:
  "ne_persisted_queries (normalize_endpoint ep) = ne_persisted_queries ep"
  "ne_graphql_persisted_queries (normalize_endpoint ep) = ne_graphql_persisted_queries ep"
  "ne_graphql_max_body_bytes (normalize_endpoint ep) = ne_graphql_max_body_bytes ep"
  "ne_credential_signing (normalize_endpoint ep) = ne_credential_signing ep"
  "ne_signing_service (normalize_endpoint ep) = ne_signing_service ep"
  "ne_signing_region (normalize_endpoint ep) = ne_signing_region ep"
  "ne_allow_encoded_slash (normalize_endpoint ep) = ne_allow_encoded_slash ep"
  "ne_websocket_credential_rewrite (normalize_endpoint ep) = ne_websocket_credential_rewrite ep"
  "ne_request_body_credential_rewrite (normalize_endpoint ep) = ne_request_body_credential_rewrite ep"
  "ne_allow_uninspected_credentials (normalize_endpoint ep) = ne_allow_uninspected_credentials ep"
  by (simp_all add: normalize_endpoint_def set_ports_def)

lemma normalize_endpoint_sets:
  "set (ne_rules (normalize_endpoint ep)) = set (ne_rules ep)"
  "set (ne_deny_rules (normalize_endpoint ep)) = set (ne_deny_rules ep)"
  "set (ne_allowed_ips (normalize_endpoint ep)) = set (ne_allowed_ips ep)"
  by (simp_all add: normalize_endpoint_def set_ports_def dedup_l7_rules_def dedup_deny_rules_def dedup_strings_def
      set_dedup_by_all)

lemma effective_contract_normalize: "effective_mcp_contract (normalize_endpoint ep) = effective_mcp_contract ep"
  by (cases "ne_mcp ep") (simp_all add: effective_mcp_contract_def Let_def normalize_endpoint_def set_ports_def)

lemma normalize_covers:
  assumes "mcp_wf ep" and "port \<in> set (authorization_ports ep)"
  shows "endpoint_authorization_covers_port (normalize_endpoint ep) ep port"
proof -
  have "mcp_contracts_match (normalize_endpoint ep) ep"
    using mcp_contracts_match_refl [OF assms(1)] endpoint_uses_mcp_iff [OF mcp_wf_normalize [OF assms(1)]]
      endpoint_uses_mcp_iff [OF assms(1)]
    by (simp add: mcp_contracts_match_def effective_contract_normalize split: option.splits)
  then have "endpoint_attributes_cover (normalize_endpoint ep) ep"
    by (simp add: endpoint_attributes_cover_def retained_fields_cover_def widened_fields_cover_def
        dropped_fields_cover_def protocols_match_def contains_all_def list_all_iff flag_covers_def
        unset_or_equal_def normalize_endpoint_sets)
  then show ?thesis using authorization_ports_own [OF assms(2)]
    by (cases port) (simp_all add: endpoint_authorization_covers_port_def)
qed

text \<open>Whether a rule is acceptable on its own does not depend on the name it is given.\<close>

lemma fragment_name_irrelevant:
  assumes "validate_rule_fragment G N name rule = Inr rule'"
  shows "validate_rule_fragment G N name' rule = Inr rule'"
proof -
  define frag where "frag n = restrictive_default_policy
     \<lparr>sp_network_policies := fmupd n rule (sp_network_policies restrictive_default_policy)\<rparr>" for n
  have look: "fmlookup (sp_network_policies (frag n)) k = (if k = n then Some rule else None)" for n k
    by (simp add: frag_def restrictive_default_policy_def)
  have mw: "middleware_validate G (frag n) = []" for n
    by (simp add: middleware_validate_def frag_def restrictive_default_policy_def MAX_MIDDLEWARE_CONFIGS_def
        fm_len_def fm_items_def sorted_list_of_fmap_def sorted_list_of_fset.rep_eq)
  have ok: "validate_sandbox_policy_with_mcp_presence G N (frag n) AllowDefaultable = Inr () \<longleftrightarrow>
      (\<forall>ep\<in>set (nr_endpoints rule). endpoint_ok G N AllowDefaultable ep)
      \<and> process_violations (frag []) = [] \<and> landlock_violations (frag []) = [] \<and> filesystem_violations (frag []) = []" for n
    unfolding validate_sandbox_policy_Inr network_violations_Nil mw look
    by (auto simp: process_violations_def landlock_violations_def filesystem_violations_def frag_def)
  have "validate_sandbox_policy_with_mcp_presence G N (frag name) AllowDefaultable = Inr ()"
    using assms by (auto simp: validate_rule_fragment_def validate_and_canonicalize_sandbox_policy_def
        frag_def [symmetric] Let_def)
  then have ok': "validate_sandbox_policy_with_mcp_presence G N (frag name') AllowDefaultable = Inr ()"
    unfolding ok .
  show ?thesis using validate_rule_fragment_Inr(1) [OF assms] ok'
    by (simp add: validate_rule_fragment_def Let_def validate_and_canonicalize_sandbox_policy_def
        frag_def [symmetric] canonical_policy_def [symmetric] canonical_policy_eq map_policy_endpoints_def look)
qed

lemma single_add_rule_cases:
  assumes "merge_policy G N policy [AddRule name rule] = Inr res"
    and "validate_and_canonicalize_sandbox_policy G N policy = Inr input"
  obtains rule' where "validate_rule_fragment G N name rule = Inr rule'"
    and "add_rule (input, []) 0 name rule' = Inr (mr_policy res, mr_warnings res)"
    and "nr_endpoints rule \<noteq> []"
  using assms(1)
proof (cases rule: merge_policy_cases)
  case (1 i m)
  then have "merge_step G N (input, []) (0, AddRule name rule) = Inr (mr_policy res, mr_warnings res)"
    using assms(2) by simp
  then show thesis
    by (cases "validate_rule_fragment G N name rule")
      (auto simp: merge_step_def validate_operation_def validate_and_canonicalize_operation_def
        apply_operation_def split: if_splits intro: that)
qed

lemma canonical_endpoint_advisor [simp]: "ne_advisor_proposed (canonical_endpoint ep) = ne_advisor_proposed ep"
proof -
  obtain m where "canonical_endpoint ep = ep\<lparr>ne_mcp := m\<rparr>" using canonical_endpoint_frame by blast
  then show ?thesis by simp
qed

text \<open>A rule inserted in normalized form is covered.\<close>

lemma prepared_rule_covers:
  assumes "\<forall>ep\<in>set (nr_endpoints rule). mcp_wf ep" and "ep \<in> set (nr_endpoints rule)"
    and "port \<in> set (authorization_ports ep)"
  shows "rule_authorizes (prepare_incoming_rule name rule) ep port"
proof -
  have "normalize_endpoint ep \<in> set (nr_endpoints (prepare_incoming_rule name rule))"
    using assms(2) by (simp add: prepare_incoming_rule_def normalize_rule_def Let_def)
  then show ?thesis
    using normalize_covers [of ep port] assms by (auto simp: rule_authorizes_def list_ex_iff)
qed

lemma prepared_rule_scope:
  "nr_binaries (prepare_incoming_rule name rule) = [] \<longleftrightarrow> nr_binaries rule = []"
  "b \<in> set (nr_binaries rule) \<Longrightarrow> binary_scope_covers (prepare_incoming_rule name rule) b"
proof -
  have b: "nr_binaries (prepare_incoming_rule name rule) = dedup_by nb_path {} (nr_binaries rule)"
    by (simp add: prepare_incoming_rule_def normalize_rule_def dedup_binaries_def Let_def)
  have k: "nb_path ` set (dedup_by nb_path {} (nr_binaries rule)) = nb_path ` set (nr_binaries rule)"
    using keys_dedup_by [of nb_path "{}" "nr_binaries rule"] by simp
  show "nr_binaries (prepare_incoming_rule name rule) = [] \<longleftrightarrow> nr_binaries rule = []"
    unfolding b using k by (metis image_is_empty set_empty)
  show "binary_scope_covers (prepare_incoming_rule name rule) b" if "b \<in> set (nr_binaries rule)"
    using k that unfolding binary_scope_covers_def b list_ex_iff by (metis (no_types, lifting) image_iff)
qed

subsection \<open>The advisor rewrite\<close>

text \<open>
  The endpoints of a policy at a host and port, the contract of such an endpoint at that port, and
  where a proposal rewritten to a contract may go: to a rule of the sandbox that has the contract
  and covers the proposed binaries already, or to a name that neither policy uses.
\<close>

definition endpoint_at :: "SandboxPolicy \<Rightarrow> string \<Rightarrow> nat \<Rightarrow> NetworkEndpoint \<Rightarrow> bool" where
  "endpoint_at policy host port ep =
     ((\<exists>key rule. fmlookup (sp_network_policies policy) key = Some rule \<and> ep \<in> set (nr_endpoints rule))
      \<and> eq_ignore_ascii_case (ne_host ep) host \<and> port \<in> set (canonical_ports ep))"

definition contract_at :: "nat \<Rightarrow> NetworkEndpoint \<Rightarrow> NetworkEndpoint" where
  "contract_at port ep = normalize_endpoint ((strip_provenance ep)\<lparr>ne_port := port, ne_ports := [port]\<rparr>)"

definition advisor_target_allowed ::
  "SandboxPolicy \<Rightarrow> SandboxPolicy \<Rightarrow> NetworkBinary list \<Rightarrow> NetworkEndpoint \<Rightarrow> string \<Rightarrow> bool" where
  "advisor_target_allowed base effective binaries contract target =
     (case fmlookup (sp_network_policies base) target of
        None \<Rightarrow> fmlookup (sp_network_policies effective) target = None
      | Some rule \<Rightarrow> \<not> is_provider_rule_name target \<and> (\<forall>b\<in>set binaries. in_scope rule (nb_path b))
          \<and> (\<exists>ep\<in>set (nr_endpoints rule).
               normalize_endpoint (strip_provenance ep) = contract\<lparr>ne_advisor_proposed := False\<rparr>
               \<and> ne_advisor_proposed ep = ne_advisor_proposed contract))"

lemma advisor_key_fresh:
  obtains k where "unique_key
      (fm_len (sp_network_policies base) + fm_len (sp_network_policies effective))
      (\<lambda>k. fm_contains (sp_network_policies base) k \<or> fm_contains (sp_network_policies effective) k) name = Some k"
    and "fmlookup (sp_network_policies base) k = None" and "fmlookup (sp_network_policies effective) k = None"
proof -
  let ?dom = "\<lambda>p. fset (fmdom (sp_network_policies p))"
  have eq: "{k. fm_contains (sp_network_policies base) k \<or> fm_contains (sp_network_policies effective) k} = ?dom base \<union> ?dom effective"
    by (auto simp: fm_contains_def fmlookup_dom_iff)
  have fin: "finite {k. fm_contains (sp_network_policies base) k \<or> fm_contains (sp_network_policies effective) k}"
    unfolding eq by simp
  have "card (?dom base \<union> ?dom effective) \<le> card (?dom base) + card (?dom effective)" by (rule card_Un_le)
  also have "\<dots> = fm_len (sp_network_policies base) + fm_len (sp_network_policies effective)"
    by (simp add: fm_len_card)
  finally have "card {k. fm_contains (sp_network_policies base) k \<or> fm_contains (sp_network_policies effective) k}
      \<le> fm_len (sp_network_policies base) + fm_len (sp_network_policies effective)" unfolding eq .
  from unique_key_fresh [OF fin this, of name] show thesis
    by (metis that fm_contains_def)
qed

lemma advisor_contracts_set:
  "set (advisor_contracts effective ep port) = contract_at port ` {e. endpoint_at effective (ne_host ep) port e}"
proof -
  have "set (concat (map nr_endpoints (fm_values (sp_network_policies effective))))
    = {e. \<exists>key rule. fmlookup (sp_network_policies effective) key = Some rule \<and> e \<in> set (nr_endpoints rule)}"
    by (auto simp: set_fm_values) (meson set_fm_values)+
  then show ?thesis by (auto simp: advisor_contracts_def contract_at_def endpoint_at_def)
qed

lemma contract_at_fields [simp]:
  "canonical_ports (contract_at port e) = [port]" "ne_host (contract_at port e) = ne_host e"
  "\<not> ne_provider_credentialed (contract_at port e)" "ne_token_grant_owner (contract_at port e) = []"
  "\<not> ne_advisor_proposed (contract_at port e)"
proof -
  have "canonical_ports ((strip_provenance e)\<lparr>ne_port := port, ne_ports := [port]\<rparr>) = [port]"
    by (simp add: canonical_ports_def)
  then show "canonical_ports (contract_at port e) = [port]" by (simp add: contract_at_def sort_dedup_def)
qed (simp_all add: contract_at_def strip_provenance_def normalize_endpoint_def set_ports_def)

lemma advisor_target_cases:
  assumes "advisor_target base effective name incoming c = Some (target, contract)"
    and c: "\<not> ne_advisor_proposed c"
  obtains b where "contract = c\<lparr>ne_advisor_proposed := b\<rparr>"
    and "advisor_target_allowed base effective (nr_binaries incoming) contract target"
proof (cases "sandbox_owners base c incoming")
  case Nil
  obtain k where k: "unique_key (fm_len (sp_network_policies base) + fm_len (sp_network_policies effective))
      (\<lambda>k. fm_contains (sp_network_policies base) k \<or> fm_contains (sp_network_policies effective) k) name = Some k"
    "fmlookup (sp_network_policies base) k = None" "fmlookup (sp_network_policies effective) k = None"
    by (rule advisor_key_fresh)
  then have "target = k" "contract = c\<lparr>ne_advisor_proposed := ne_advisor_proposed (hd (nr_endpoints incoming))\<rparr>"
    using assms Nil by (simp_all add: advisor_target_def)
  then show thesis using k(2,3) by (intro that) (simp_all add: advisor_target_allowed_def)
next
  case (Cons owner rest)
  then have "owner \<in> set (sandbox_owners base c incoming)" by simp
  then obtain rule where r: "fmlookup (sp_network_policies base) owner = Some rule" "\<not> is_provider_rule_name owner"
    "list_all (binary_scope_covers rule) (nr_binaries incoming)" "list_ex (owns_contract c) (nr_endpoints rule)"
    by (auto simp: sandbox_owners_def set_fm_items)
  then obtain ep where ep: "List.find (owns_contract c) (nr_endpoints rule) = Some ep"
    by (cases "List.find (owns_contract c) (nr_endpoints rule)") (auto simp: find_None_iff list_ex_iff)
  then have own: "ep \<in> set (nr_endpoints rule)" "owns_contract c ep" by (auto simp: find_Some_iff)
  have t: "target = owner" "contract = c\<lparr>ne_advisor_proposed := ne_advisor_proposed ep\<rparr>"
    using assms Cons r(1) ep by (simp_all add: advisor_target_def)
  have "c\<lparr>ne_advisor_proposed := False\<rparr> = c" using c by simp
  with own have "\<exists>e\<in>set (nr_endpoints rule). normalize_endpoint (strip_provenance e)
      = contract\<lparr>ne_advisor_proposed := False\<rparr> \<and> ne_advisor_proposed e = ne_advisor_proposed contract"
    by (intro bexI [of _ ep]) (simp_all add: t owns_contract_def)
  with r have "advisor_target_allowed base effective (nr_binaries incoming) contract owner"
    by (simp add: advisor_target_allowed_def in_scope_def list_all_iff binary_scope_covers_def)
  with t show thesis by (intro that) simp_all
qed

text \<open>When a proposal is left as it is, and what the rewritten one is otherwise.\<close>

definition advisor_skips :: "SandboxPolicy \<Rightarrow> NetworkPolicyRule \<Rightarrow> bool" where
  "advisor_skips effective incoming =
     (nr_binaries incoming = []
      \<or> (\<nexists>ep port. nr_endpoints incoming = [ep] \<and> str_trim (ne_host ep) \<noteq> [] \<and> canonical_ports ep = [port]
            \<and> (\<exists>e. endpoint_at effective (ne_host ep) port e)))"

lemma advisor_rewrite_cases:
  assumes "canonicalize_advisor_add_rule base effective name incoming = Some (Inr (target, rule))"
  obtains "(target, rule) = (name, incoming)" and "advisor_skips effective incoming"
  | ep port c contract where "nr_endpoints incoming = [ep]" and "canonical_ports ep = [port]"
    and "advisor_contracts effective ep port = [c]"
    and "advisor_target base effective name incoming c = Some (target, contract)"
    and "rule = incoming\<lparr>nr_name := target, nr_endpoints := [contract]\<rparr>"
proof (cases "length (nr_endpoints incoming) = 1 \<and> nr_binaries incoming \<noteq> []
    \<and> str_trim (ne_host (hd (nr_endpoints incoming))) \<noteq> []
    \<and> length (canonical_ports (hd (nr_endpoints incoming))) = 1")
  case False
  then have "(target, rule) = (name, incoming)" "advisor_skips effective incoming"
    using assms by (auto simp: canonicalize_advisor_add_rule_def Let_def advisor_skips_def split: if_splits)
  then show thesis by (rule that(1))
next
  case True
  then obtain ep port where ep: "nr_endpoints incoming = [ep]" and port: "canonical_ports ep = [port]"
    by (auto simp: length_Suc_conv)
  show thesis
  proof (cases "advisor_contracts effective ep port")
    case Nil
    have "\<not> endpoint_at effective (ne_host ep) port e" for e
      using advisor_contracts_set [of effective ep port] Nil by auto
    then have "advisor_skips effective incoming" using ep port by (simp add: advisor_skips_def)
    moreover have "(target, rule) = (name, incoming)"
      using Nil assms ep port True by (simp add: canonicalize_advisor_add_rule_def Let_def)
    ultimately show thesis by (intro that(1))
  next
    case (Cons c cs)
    then show thesis using assms ep port True
      by (cases cs) (auto simp: canonicalize_advisor_add_rule_def Let_def intro: that(2))
  qed
qed

section \<open>Properties\<close>

text \<open>C35. Appending deny rules is exact. It succeeds if and only if the target names one endpoint
  (unique match, full binary scope, full port scope) that speaks a method and path protocol and has
  an allow base, and then the policy changes in the deny rules of that endpoint only, which gain
  exactly the new ones.\<close>
theorem add_deny_rules_iff:
  "add_deny_rules policy target deny_rules = Inr policy' \<longleftrightarrow>
   (\<exists>rule i. l7_target_names policy target rule i
      \<and> ne_protocol (nr_endpoints rule ! i) \<in> {''rest'', ''websocket''}
      \<and> has_allow_base (nr_endpoints rule ! i)
      \<and> policy' = replace_endpoint policy (lt_rule_name target) rule i
           ((nr_endpoints rule ! i)\<lparr>ne_deny_rules :=
              append_unique_deny_rules (ne_deny_rules (nr_endpoints rule ! i)) deny_rules\<rparr>))"
proof (cases "resolve_l7_target policy target")
  case (Inl e)
  then have "\<not> l7_target_names policy target rule i" for rule i
    using resolve_l7_target_iff [of policy target rule i] by simp
  then show ?thesis using Inl by (simp add: add_deny_rules_def)
next
  case (Inr r)
  obtain rule i where r: "r = (rule, i)" by (cases r)
  have n: "l7_target_names policy target rule' j \<longleftrightarrow> rule' = rule \<and> j = i" for rule' j
    using resolve_l7_target_iff [of policy target rule' j] Inr r by auto
  show ?thesis using Inr
    by (auto simp: r n add_deny_rules_def Let_def ensure_method_path_endpoint_def has_allow_base_def)
qed

text \<open>C36. Appending allow rules is exact. It succeeds if and only if the target names one endpoint that
  speaks a method and path protocol and whose access preset, if any, can be written out. Then the
  policy changes in that endpoint only: the preset is cleared and the allow rules become the
  written-out rules followed by the new ones that were missing.\<close>
theorem add_allow_rules_iff:
  "(\<exists>ws'. add_allow_rules (policy, ws) target rules = Inr (policy', ws')) \<longleftrightarrow>
   (\<exists>rule i base. l7_target_names policy target rule i
      \<and> ne_protocol (nr_endpoints rule ! i) \<in> {''rest'', ''websocket''}
      \<and> spelled_out_rules (nr_endpoints rule ! i) = Some base
      \<and> policy' = replace_endpoint policy (lt_rule_name target) rule i
           ((nr_endpoints rule ! i)\<lparr>ne_access := ACCESS_UNSPECIFIED, ne_rules := append_unique base rules\<rparr>))"
proof (cases "resolve_l7_target policy target")
  case (Inl e)
  then have "\<not> l7_target_names policy target rule i" for rule i
    using resolve_l7_target_iff [of policy target rule i] by simp
  then show ?thesis using Inl by (simp add: add_allow_rules_def)
next
  case (Inr r)
  obtain rule i where r: "r = (rule, i)" by (cases r)
  let ?ep = "nr_endpoints rule ! i"
  have n: "l7_target_names policy target rule' j \<longleftrightarrow> rule' = rule \<and> j = i" for rule' j
    using resolve_l7_target_iff [of policy target rule' j] Inr r by auto
  have id: "ne_access ?ep = ACCESS_UNSPECIFIED \<Longrightarrow> ?ep\<lparr>ne_rules := rs\<rparr> = ?ep\<lparr>ne_access := ACCESS_UNSPECIFIED, ne_rules := rs\<rparr>" for rs
    by (cases ?ep) simp
  show ?thesis
  proof (cases "ne_access ?ep = ACCESS_UNSPECIFIED")
    case True
    then show ?thesis using Inr
      by (auto simp: id [OF True] r n add_allow_rules_def Let_def ensure_method_path_endpoint_def expand_existing_access_def
          spelled_out_rules_def append_unique_l7_rules_def)
  next
    case False
    then show ?thesis using Inr
      by (cases "expand_access_preset (ne_protocol ?ep) (access_label (ne_access ?ep))")
        (auto simp: r n add_allow_rules_def Let_def ensure_method_path_endpoint_def expand_existing_access_def
          spelled_out_rules_def append_unique_l7_rules_def)
  qed
qed

text \<open>C14. Removing a binary is exact and never widens. When it succeeds, every other rule is
  unchanged. The named rule, if it survives, authorizes precisely the paths it authorized before
  except the removed one; if it is gone, the removed path was the only one it authorized. In
  particular the removal of the last binary does not leave an empty list, which would mean any
  binary.\<close>
theorem remove_binary_exact:
  assumes "remove_binary policy index name path = Inr policy'"
  shows "(\<forall>key. key \<noteq> name \<longrightarrow> fmlookup (sp_network_policies policy') key = fmlookup (sp_network_policies policy) key)
    \<and> (case fmlookup (sp_network_policies policy) name of
         None \<Rightarrow> policy' = policy
       | Some old \<Rightarrow>
           (case fmlookup (sp_network_policies policy') name of
              None \<Rightarrow> \<forall>q. in_scope old q \<longleftrightarrow> q = path
            | Some new \<Rightarrow> nr_endpoints new = nr_endpoints old
                \<and> (\<forall>q. in_scope new q \<longleftrightarrow> in_scope old q \<and> q \<noteq> path)))"
proof (cases "fmlookup (sp_network_policies policy) name")
  case None
  then show ?thesis using assms by (simp add: remove_binary_def)
next
  case (Some old)
  define kept where "kept = filter (\<lambda>b. nb_path b \<noteq> path) (nr_binaries old)"
  have ne: "nr_binaries old \<noteq> []" using assms Some by (auto simp: remove_binary_def)
  have p': "policy' = (if kept = [] then remove_rule name (insert_rule name (old\<lparr>nr_binaries := kept\<rparr>) policy)
                       else insert_rule name (old\<lparr>nr_binaries := kept\<rparr>) policy)"
    using assms Some ne by (auto simp: remove_binary_def Let_def kept_def split: if_splits)
  have q: "q \<in> nb_path ` set kept \<longleftrightarrow> q \<in> nb_path ` set (nr_binaries old) \<and> q \<noteq> path" for q
    by (auto simp: kept_def)
  show ?thesis
  proof (cases "kept = []")
    case True
    then have "\<forall>b\<in>set (nr_binaries old). nb_path b = path" by (simp add: kept_def filter_empty_conv)
    then have "in_scope old q \<longleftrightarrow> q = path" for q
      using ne by (cases "nr_binaries old") (auto simp: in_scope_iff)
    then show ?thesis using Some p' True by simp
  next
    case False
    then show ?thesis using Some p' ne q by (simp add: in_scope_iff)
  qed
qed

theorem remove_binary_exact_witness:
  "fmlookup (sp_network_policies (remove_rule ''mcp'' sample_input)) ''mcp'' = None
   \<and> (\<exists>old. fmlookup (sp_network_policies sample_input) ''mcp'' = Some old
        \<and> {q. in_scope old q} = {''/usr/bin/curl''})"
proof -
  have "remove_binary sample_input 0 ''mcp'' ''/usr/bin/curl'' = Inr (remove_rule ''mcp'' sample_input)" by code_simp
  moreover have "fmlookup (sp_network_policies sample_input) ''mcp'' \<noteq> None" by code_simp
  ultimately show ?thesis using remove_binary_exact [of sample_input 0 "''mcp''" "''/usr/bin/curl''" "remove_rule ''mcp'' sample_input"]
    by (auto split: option.splits)
qed

text \<open>C23. Removing an endpoint is exact. In terms of the authorization units of a rule (an endpoint
  without its ports, and one port), the units at the removed host and port disappear from the
  rules the operation addresses, every other unit stays, and the other rules are untouched. The
  host is compared without regard to case.\<close>
theorem remove_endpoint_exact:
  "apply_operation (policy, ws) index (RemoveEndpoint rule_name host port) = Inr (remove_endpoint policy rule_name host port, ws)
   \<and> units_at (remove_endpoint policy rule_name host port) key =
     {(e, q) \<in> units_at policy key.
        \<not> ((rule_name = None \<or> rule_name = Some key) \<and> eq_ignore_ascii_case (ne_host e) host \<and> q = port)}"
  by (auto simp: apply_operation_def remove_endpoint_units removal_targets_def)

text \<open>A merged proposal is recognised as loaded. When a request that adds an advisor-proposed rule
  under a fresh key succeeds, the coverage check finds the proposed rule in the resulting policy,
  whatever name the proposal has there, so a client that polls for coverage is answered.\<close>
lemma merged_proposal_covered:
  assumes "merge_policy G N policy [AddRule name rule] = Inr res"
    and "validate_and_canonicalize_sandbox_policy G N policy = Inr input"
    and "fmlookup (sp_network_policies input) name = None"
    and "list_ex ne_advisor_proposed (nr_endpoints rule)"
  shows "policy_covers_rule G N (mr_policy res) rule"
proof -
  obtain rule' where f: "validate_rule_fragment G N name rule = Inr rule'"
    and a: "add_rule (input, []) 0 name rule' = Inr (mr_policy res, mr_warnings res)"
    and eps: "nr_endpoints rule \<noteq> []"
    by (rule single_add_rule_cases [OF assms(1,2)])
  note rule' = validate_rule_fragment_Inr [OF f]
  let ?inc = "prepare_incoming_rule name rule'"
  have "list_ex ne_advisor_proposed (nr_endpoints ?inc)"
    using assms(4)
    by (auto simp: rule'(1) prepare_incoming_rule_def normalize_rule_def map_rule_endpoints_def Let_def list_ex_iff)
  then have "add_rule_target input name ?inc = None"
    using assms(3) by (auto simp: add_rule_target_def fm_contains_def list_ex_iff list_all_iff)
  then have p: "mr_policy res = insert_rule name ?inc input" using a by (simp add: add_rule_def Let_def)
  have inc: "?inc \<in> set (fm_values (sp_network_policies (mr_policy res)))"
    unfolding set_fm_values p by (rule exI [of _ name]) simp
  have ne: "nr_endpoints rule' \<noteq> []" using eps by (simp add: rule'(1) map_rule_endpoints_def)
  have one: "list_ex P (fm_values (sp_network_policies (mr_policy res)))" if "P ?inc" for P
    using inc that by (auto simp: list_ex_iff)
  show ?thesis
    unfolding policy_covers_rule_def merge_policy_canonical [OF assms(1)] sum.case
      fragment_name_irrelevant [OF f, of "''coverage-proposal''"] if_not_P [OF ne] list_all_iff
    using prepared_rule_covers [OF rule'(2)] prepared_rule_scope
    by (auto intro!: one)
qed

text \<open>The advisor rewrite always returns: its search for an unused rule name ends, because the
  names already taken by the two policies are finitely many and the candidates are pairwise
  different.\<close>
lemma advisor_rewrite_returns:
  "\<exists>r. canonicalize_advisor_add_rule base effective name incoming = Some r"
proof -
  have "\<exists>t. advisor_target base effective name incoming contract = Some t" for contract
  proof (cases "sandbox_owners base contract incoming")
    case Nil
    then show ?thesis using advisor_key_fresh [of base effective name]
      by (auto simp: advisor_target_def)
  qed (auto simp: advisor_target_def split: option.splits)
  then show ?thesis
    unfolding canonicalize_advisor_add_rule_def Let_def
    by (auto split: list.splits)
qed

text \<open>C25. The advisor rewrite hands a proposal the contract already in force. It leaves a proposal
  alone only when that has no binary, is not for one host and one port, or asks for a place where
  the effective policy has no endpoint. Otherwise the binaries stay, and the single endpoint of
  the proposal becomes the contract that every effective endpoint at that host has at that port,
  without provider credential or token grant and without sibling ports. The rule it is sent to is
  either a sandbox-owned rule that declares this very contract and authorizes every proposed binary
  already, or one under a name used in neither policy.\<close>
theorem advisor_rewrite_safe:
  assumes "canonicalize_advisor_add_rule base effective name incoming = Some (Inr (target, rule))"
  shows "((target, rule) = (name, incoming) \<and> advisor_skips effective incoming)
    \<or> (\<exists>ep port contract. nr_endpoints incoming = [ep] \<and> canonical_ports ep = [port]
         \<and> rule = incoming\<lparr>nr_name := target, nr_endpoints := [contract]\<rparr>
         \<and> canonical_ports contract = [port] \<and> eq_ignore_ascii_case (ne_host contract) (ne_host ep)
         \<and> \<not> ne_provider_credentialed contract \<and> ne_token_grant_owner contract = []
         \<and> (\<exists>e. endpoint_at effective (ne_host ep) port e)
         \<and> (\<forall>e. endpoint_at effective (ne_host ep) port e
               \<longrightarrow> contract\<lparr>ne_advisor_proposed := False\<rparr> = contract_at port e)
         \<and> advisor_target_allowed base effective (nr_binaries incoming) contract target)"
  using assms
proof (cases rule: advisor_rewrite_cases)
  case (2 ep port c contract)
  have cs: "{c} = contract_at port ` {e. endpoint_at effective (ne_host ep) port e}"
    using advisor_contracts_set [of effective ep port] 2(3) by simp
  then obtain e where e: "endpoint_at effective (ne_host ep) port e" "c = contract_at port e" by auto
  have all: "contract_at port e' = c" if "endpoint_at effective (ne_host ep) port e'" for e'
    using cs that by auto
  have "\<not> ne_advisor_proposed c" by (simp add: e(2))
  obtain b where b: "contract = c\<lparr>ne_advisor_proposed := b\<rparr>"
    and t: "advisor_target_allowed base effective (nr_binaries incoming) contract target"
    using 2(4) \<open>\<not> ne_advisor_proposed c\<close> by (rule advisor_target_cases)
  have "canonical_ports contract = canonical_ports (contract_at port e)"
    by (simp add: b e(2) canonical_ports_def)
  then have "canonical_ports contract = [port]" by simp
  moreover have "contract\<lparr>ne_advisor_proposed := False\<rparr> = c" using \<open>\<not> ne_advisor_proposed c\<close> by (simp add: b)
  moreover have "eq_ignore_ascii_case (ne_host contract) (ne_host ep)"
    using e(1) by (simp add: b e(2) endpoint_at_def)
  moreover have "\<not> ne_provider_credentialed contract" "ne_token_grant_owner contract = []"
    by (simp_all add: b e(2))
  ultimately show ?thesis using 2(1,2,5) e(1) all t
    by (intro disjI2 exI [of _ ep] exI [of _ port] exI [of _ contract]) auto
qed simp

theorem advisor_rewrite_safe_witness:
  "advisor_target_allowed sample_input sample_input (nr_binaries sample_advised_rule)
     (normalize_endpoint (canonical_endpoint sample_advised_endpoint)) ''mcp_2''"
proof -
  have "canonicalize_advisor_add_rule sample_input sample_input ''mcp'' sample_advised_rule
    = Some (Inr (''mcp_2'', sample_advised_rule\<lparr>nr_name := ''mcp_2'',
        nr_endpoints := [normalize_endpoint (canonical_endpoint sample_advised_endpoint)]\<rparr>))" by code_simp
  from advisor_rewrite_safe [OF this] show ?thesis by (auto simp: sample_advised_rule_def)
qed

section \<open>The credential binding is outside the merge\<close>

text \<open>No step of the merge reads or writes the credential binding of an incoming endpoint that
  overlaps an existing one, and coverage does not compare it either: a proposal that differs from
  the loaded endpoint in its binding alone is reported as covered.\<close>

lemma merge_endpoint_keeps_binding:
  assumes "merge_endpoint existing incoming index = Inr (m, ws)"
  shows "ne_credential_binding m = ne_credential_binding existing"
  using assms
proof (rule merge_endpoint_cases)
  fix e w1 e' w2
  assume "merge_endpoint_identity existing incoming = (e, w1)"
    and "merge_endpoint_access e incoming (merge_host existing incoming) (merge_port existing incoming) = Inr (e', w2)"
    and "m = merge_endpoint_widen e' incoming"
  moreover from this have "ne_credential_binding e = ne_credential_binding existing"
    by (auto simp: merge_endpoint_identity_def merge_endpoint_ports_def set_ports_def Let_def split: prod.splits if_splits)
  moreover from calculation have "ne_credential_binding e' = ne_credential_binding e"
    by (auto simp: merge_endpoint_access_def expand_existing_access_def Let_def split: option.splits if_splits)
  ultimately show ?thesis by (simp add: merge_endpoint_widen_def normalize_endpoint_def set_ports_def)
qed

lemma coverage_ignores_binding:
  "endpoint_attributes_cover loaded (proposed\<lparr>ne_credential_binding := b\<rparr>) = endpoint_attributes_cover loaded proposed"
proof -
  have "effective_mcp_contract (proposed\<lparr>ne_credential_binding := b\<rparr>) = effective_mcp_contract proposed"
    "endpoint_uses_mcp (proposed\<lparr>ne_credential_binding := b\<rparr>) = endpoint_uses_mcp proposed"
    by (simp_all add: effective_mcp_contract_def endpoint_uses_mcp_def Let_def split: option.split)
  then have "mcp_contracts_match loaded (proposed\<lparr>ne_credential_binding := b\<rparr>) = mcp_contracts_match loaded proposed"
    by (simp only: mcp_contracts_match_def)
  then show ?thesis
    by (simp add: endpoint_attributes_cover_def retained_fields_cover_def widened_fields_cover_def dropped_fields_cover_def)
qed

end
