(* ===== verification/L7_Path.thy ===== *)
theory L7_Path
  imports Prelude
begin

text \<open>
  Canonicalization of HTTP request targets (\<open>crates/openshell-supervisor-network/src/l7/path.rs\<close>):
  the path the policy is evaluated on and the bytes written to the upstream. A byte is a
  \<open>char\<close>; the URI parser of the \<open>http\<close> crate is a parameter.
\<close>

section \<open>Definitions\<close>

datatype CanonicalizeError =
    NullOrControlByte
  | InvalidPercentEncoding
  | EncodedSlashNotAllowed
  | FragmentInRequestTarget
  | NonAscii
  | TraversalAboveRoot
  | ResidualDotSegment
  | PathTooLong
  | MalformedTarget

record CanonicalizeOptions =
  co_allow_encoded_slash :: bool
  co_strip_path_parameters :: bool

definition canonicalize_options_default :: CanonicalizeOptions where
  "canonicalize_options_default = \<lparr>co_allow_encoded_slash = False, co_strip_path_parameters = True\<rparr>"

record CanonicalPath =
  cp_path :: string
  cp_rewritten :: bool

definition MAX_PATH_LEN :: nat where "MAX_PATH_LEN = 4 * 1024"

definition ENCODED_SLASH_SENTINEL :: char where "ENCODED_SLASH_SENTINEL = CHR 0x01"

text \<open>\<open>str::parse::<http::Uri>\<close>: for a string that parses, its scheme and its path.\<close>

record uri_lib =
  uri_parse :: "string \<Rightarrow> (string option \<times> string) option"

subsection \<open>Bytes\<close>

definition is_pchar_unreserved :: "char \<Rightarrow> bool" where
  "is_pchar_unreserved b = (is_ascii_alphanumeric b \<or> b \<in> set ''-._~!$&'()*+,;=:@'')"

definition decode_hex :: "char \<Rightarrow> nat option" where
  "decode_hex b =
     (if 48 \<le> byte b \<and> byte b \<le> 57 then Some (byte b - 48)
      else if 97 \<le> byte b \<and> byte b \<le> 102 then Some (byte b - 97 + 10)
      else if 65 \<le> byte b \<and> byte b \<le> 70 then Some (byte b - 65 + 10)
      else None)"

definition upper_hex_nibble :: "nat \<Rightarrow> char" where
  "upper_hex_nibble n = (if n \<le> 9 then char_of (48 + n) else char_of (65 + (n - 10)))"

subsection \<open>Stages\<close>

fun check_target_bytes :: "string \<Rightarrow> CanonicalizeError + unit" where
  "check_target_bytes [] = Inr ()"
| "check_target_bytes (b # bs) =
     (if byte b = 0 \<or> byte b = 10 \<or> byte b = 13 \<or> byte b = 9 \<or> byte b = 0x7F then Inl NullOrControlByte
      else if byte b < 0x20 then Inl NullOrControlByte
      else if byte b \<ge> 0x80 then Inl NonAscii
      else check_target_bytes bs)"

definition target_raw_path :: "uri_lib \<Rightarrow> string \<Rightarrow> string" where
  "target_raw_path U path_part =
     (let raw_path =
        (case uri_parse U path_part of
           Some (Some scheme, path) \<Rightarrow> if path \<noteq> [] then path else ''/''
         | _ \<Rightarrow> path_part)
      in if raw_path = [] then ''/'' else raw_path)"

fun percent_decode_with_sentinel :: "bool \<Rightarrow> string \<Rightarrow> CanonicalizeError + string" where
  "percent_decode_with_sentinel allow [] = Inr []"
| "percent_decode_with_sentinel allow (b # raw) =
     (if b = ENCODED_SLASH_SENTINEL then Inl NullOrControlByte
      else if b = CHR ''%'' then
        (case raw of
           h # l # raw' \<Rightarrow>
             (case (decode_hex h, decode_hex l) of
                (Some hi, Some lo) \<Rightarrow>
                  (let decoded = hi * 16 + lo
                   in if decoded = byte (CHR ''/'') then
                        if \<not> allow then Inl EncodedSlashNotAllowed
                        else bindE (percent_decode_with_sentinel allow raw') (\<lambda>out. Inr (ENCODED_SLASH_SENTINEL # out))
                      else if decoded = 0 \<or> decoded = 0x7F \<or> (decoded < 0x20 \<and> decoded \<noteq> 9) then Inl NullOrControlByte
                      else if decoded = 10 \<or> decoded = 13 \<or> decoded = 9 then Inl NullOrControlByte
                      else bindE (percent_decode_with_sentinel allow raw') (\<lambda>out. Inr (char_of decoded # out)))
              | _ \<Rightarrow> Inl InvalidPercentEncoding)
         | _ \<Rightarrow> Inl InvalidPercentEncoding)
      else bindE (percent_decode_with_sentinel allow raw) (\<lambda>out. Inr (b # out)))"

definition strip_path_parameters :: "string \<Rightarrow> string" where
  "strip_path_parameters seg = takeWhile (\<lambda>b. b \<noteq> CHR '';'') seg"

definition split_path_segments :: "string \<Rightarrow> string list" where
  "split_path_segments decoded = split_on (CHR ''/'') (tl decoded)"

text \<open>The stack is a vector: the top is the last element. \<open>rest = []\<close> says the segment is the last one.\<close>

fun resolve_dot_loop :: "string list \<Rightarrow> string list \<Rightarrow> CanonicalizeError + string list" where
  "resolve_dot_loop stack [] = Inr stack"
| "resolve_dot_loop stack (seg # rest) =
     (let last_push = (\<lambda>st. if rest = [] then st @ [[]] else st)
      in if seg = ''..'' then
           if stack = [] then Inl TraversalAboveRoot
           else resolve_dot_loop (last_push (butlast stack)) rest
         else if seg = ''.'' then resolve_dot_loop (last_push stack) rest
         else if seg = [] \<and> rest \<noteq> [] then resolve_dot_loop stack rest
         else resolve_dot_loop (stack @ [seg]) rest)"

definition resolve_dot_segments :: "string list \<Rightarrow> CanonicalizeError + string list" where
  "resolve_dot_segments segments = resolve_dot_loop [] segments"

definition has_residual_dot :: "string list \<Rightarrow> bool" where
  "has_residual_dot resolved =
     list_ex (\<lambda>seg. list_ex (\<lambda>part. part = ''..'' \<or> part = ''.'') (split_on ENCODED_SLASH_SENTINEL seg)) resolved"

definition encode_byte :: "char \<Rightarrow> string" where
  "encode_byte b =
     (if b = ENCODED_SLASH_SENTINEL then ''%2F''
      else if is_pchar_unreserved b then [b]
      else [CHR ''%'', upper_hex_nibble (byte b div 16), upper_hex_nibble (byte b mod 16)])"

definition build_canonical_path :: "string list \<Rightarrow> CanonicalizeOptions \<Rightarrow> string" where
  "build_canonical_path segments opts =
     ''/'' @ join ''/'' (map (\<lambda>seg. concat (map encode_byte
        (if co_strip_path_parameters opts then strip_path_parameters seg else seg))) segments)"

definition stripped_segments :: "CanonicalizeOptions \<Rightarrow> string \<Rightarrow> string list" where
  "stripped_segments opts decoded =
     (let segments = split_path_segments decoded
      in if co_strip_path_parameters opts then map strip_path_parameters segments else segments)"

definition canonicalize_raw_path :: "string \<Rightarrow> CanonicalizeOptions \<Rightarrow> CanonicalizeError + CanonicalPath" where
  "canonicalize_raw_path raw_path opts =
     (if \<not> starts_with ''/'' raw_path then Inl MalformedTarget
      else if length raw_path > MAX_PATH_LEN then Inl PathTooLong
      else
        bindE (percent_decode_with_sentinel (co_allow_encoded_slash opts) raw_path) (\<lambda>decoded.
        bindE (resolve_dot_segments (stripped_segments opts decoded)) (\<lambda>resolved.
        if has_residual_dot resolved then Inl ResidualDotSegment
        else
          let canonical = build_canonical_path resolved opts
          in Inr \<lparr>cp_path = canonical, cp_rewritten = (canonical \<noteq> raw_path)\<rparr>)))"

definition canonicalize_request_target ::
  "uri_lib \<Rightarrow> string \<Rightarrow> CanonicalizeOptions \<Rightarrow> CanonicalizeError + (CanonicalPath \<times> string option)" where
  "canonicalize_request_target U target opts =
     bindE (check_target_bytes target) (\<lambda>_.
     if CHR ''#'' \<in> set target then Inl FragmentInRequestTarget
     else
       let (path_part, query_part) =
             (case split_once (CHR ''?'') target of Some (p, q) \<Rightarrow> (p, Some q) | None \<Rightarrow> (target, None))
       in bindE (canonicalize_raw_path (target_raw_path U path_part) opts) (\<lambda>canonical.
            Inr (canonical, query_part)))"

definition canonical_path_has_encoded_slash :: "string \<Rightarrow> bool" where
  "canonical_path_has_encoded_slash canonical_path = contains_sub ''%2F'' canonical_path"

section \<open>Lemmas\<close>

subsection \<open>Bytes and their encoding\<close>

text \<open>The bytes a decoded segment can hold.\<close>

definition segment_byte :: "char \<Rightarrow> bool" where
  "segment_byte c = (c \<noteq> CHR ''/'' \<and> (c = ENCODED_SLASH_SENTINEL \<or> (0x20 \<le> byte c \<and> byte c \<noteq> 0x7F)))"

text \<open>The encoding of one byte of a path whose separators are literal.\<close>

definition encode_path_byte :: "char \<Rightarrow> string" where
  "encode_path_byte c = (if c = CHR ''/'' then ''/'' else encode_byte c)"

lemma nibble_less: "byte c div 16 < 16" "byte c mod 16 < 16"
  using byte_less [of c] by (auto intro: less_mult_imp_div_less)

lemma decode_upper_hex:
  assumes "n < 16"
  shows "decode_hex (upper_hex_nibble n) = Some n"
proof -
  have "list_all (\<lambda>n. decode_hex (upper_hex_nibble n) = Some n) [0..<16]" by code_simp
  then show ?thesis using assms by (simp add: list_all_iff)
qed

lemma upper_hex_not_percent:
  assumes "n < 16"
  shows "upper_hex_nibble n \<noteq> CHR ''%''" and "upper_hex_nibble n \<noteq> CHR ''/''"
    and "is_pchar_unreserved (upper_hex_nibble n)"
proof -
  have "list_all (\<lambda>n. upper_hex_nibble n \<noteq> CHR ''%'' \<and> upper_hex_nibble n \<noteq> CHR ''/''
      \<and> is_pchar_unreserved (upper_hex_nibble n)) [0..<16]" by code_simp
  then show "upper_hex_nibble n \<noteq> CHR ''%''" "upper_hex_nibble n \<noteq> CHR ''/''" "is_pchar_unreserved (upper_hex_nibble n)"
    using assms by (simp_all add: list_all_iff)
qed

lemma pchar_not_special [simp]:
  "\<not> is_pchar_unreserved (CHR ''%'')" "\<not> is_pchar_unreserved (CHR ''/'')" "\<not> is_pchar_unreserved ENCODED_SLASH_SENTINEL"
  "\<not> is_pchar_unreserved (CHR ''#'')" "\<not> is_pchar_unreserved (CHR ''?'')"
  by code_simp+

lemma sentinel_neq [simp]:
  "ENCODED_SLASH_SENTINEL \<noteq> CHR ''%''" "ENCODED_SLASH_SENTINEL \<noteq> CHR ''/''" "ENCODED_SLASH_SENTINEL \<noteq> CHR ''.''"
  "CHR ''%'' \<noteq> ENCODED_SLASH_SENTINEL" "CHR ''/'' \<noteq> ENCODED_SLASH_SENTINEL"
  by (simp_all add: ENCODED_SLASH_SENTINEL_def)

lemma byte_slash [simp]: "(byte c = byte (CHR ''/'')) = (c = CHR ''/'')"
  by simp

lemma byte_slash_value: "byte (CHR ''/'') = 47"
  by (simp add: byte_def)

text \<open>Decoding undoes the encoding of one byte, whether or not encoded slashes are allowed.\<close>

lemma decode_encode_byte:
  assumes "segment_byte c \<or> c = CHR ''/''"
  shows "percent_decode_with_sentinel allow (encode_path_byte c @ s) =
    (if c = ENCODED_SLASH_SENTINEL \<and> \<not> allow then Inl EncodedSlashNotAllowed
     else bindE (percent_decode_with_sentinel allow s) (\<lambda>out. Inr (c # out)))"
proof -
  note d = nibble_less [of c]
  consider (slash) "c = CHR ''/''" | (sentinel) "c = ENCODED_SLASH_SENTINEL"
    | (plain) "c \<noteq> CHR ''/''" "c \<noteq> ENCODED_SLASH_SENTINEL" "is_pchar_unreserved c"
    | (escaped) "c \<noteq> CHR ''/''" "c \<noteq> ENCODED_SLASH_SENTINEL" "\<not> is_pchar_unreserved c" by blast
  then show ?thesis
  proof cases
    case slash
    then show ?thesis by (simp add: encode_path_byte_def)
  next
    case sentinel
    have "decode_hex (CHR ''2'') = Some 2" "decode_hex (CHR ''F'') = Some 15" by code_simp+
    then show ?thesis using sentinel by (simp add: encode_path_byte_def encode_byte_def byte_slash_value)
  next
    case plain
    then have "c \<noteq> CHR ''%''" by auto
    then show ?thesis using plain by (simp add: encode_path_byte_def encode_byte_def)
  next
    case escaped
    have r: "0x20 \<le> byte c" "byte c \<noteq> 0x7F" "byte c \<noteq> byte (CHR ''/'')"
      using assms escaped by (auto simp: segment_byte_def)
    have v: "byte c div 16 * 16 + byte c mod 16 = byte c" by simp
    show ?thesis using escaped r
      by (simp add: encode_path_byte_def encode_byte_def decode_upper_hex d v Let_def)
  qed
qed

lemma decode_encode:
  assumes "\<forall>c\<in>set t. segment_byte c \<or> c = CHR ''/''"
  shows "percent_decode_with_sentinel allow (concat (map encode_path_byte t)) =
    (if ENCODED_SLASH_SENTINEL \<in> set t \<and> \<not> allow then Inl EncodedSlashNotAllowed else Inr t)"
  using assms
proof (induction t)
  case (Cons c t)
  then show ?case by (cases allow) (auto simp: decode_encode_byte)
qed simp

text \<open>The literal \<open>%2F\<close> shows up in an encoded path only for the sentinel.\<close>

lemma contains_encoded_slash_byte:
  assumes "segment_byte c \<or> c = CHR ''/''"
  shows "contains_sub ''%2F'' (encode_path_byte c @ s) \<longleftrightarrow> c = ENCODED_SLASH_SENTINEL \<or> contains_sub ''%2F'' s"
proof -
  note d = nibble_less [of c]
  have slash: "upper_hex_nibble (byte c div 16) = CHR ''2'' \<Longrightarrow> upper_hex_nibble (byte c mod 16) = CHR ''F'' \<Longrightarrow> byte c = 47"
  proof -
    assume "upper_hex_nibble (byte c div 16) = CHR ''2''" "upper_hex_nibble (byte c mod 16) = CHR ''F''"
    then have "Some (byte c div 16) = decode_hex (CHR ''2'')" "Some (byte c mod 16) = decode_hex (CHR ''F'')"
      using decode_upper_hex [OF d(1)] decode_upper_hex [OF d(2)] by simp_all
    moreover have "decode_hex (CHR ''2'') = Some 2" "decode_hex (CHR ''F'') = Some 15" by code_simp+
    ultimately have "byte c div 16 = 2" "byte c mod 16 = 15" by simp_all
    then show "byte c = 47" by presburger
  qed
  show ?thesis
  proof (cases "c = CHR ''/'' \<or> c = ENCODED_SLASH_SENTINEL \<or> is_pchar_unreserved c")
    case True
    then show ?thesis by (auto simp: encode_path_byte_def encode_byte_def starts_with_def)
  next
    case False
    then have "byte c \<noteq> 47" using byte_slash byte_slash_value by auto
    then show ?thesis using False slash upper_hex_not_percent [OF d(1)] upper_hex_not_percent [OF d(2)]
      by (auto simp: encode_path_byte_def encode_byte_def starts_with_def)
  qed
qed

lemma contains_encoded_slash:
  "\<forall>c\<in>set t. segment_byte c \<or> c = CHR ''/'' \<Longrightarrow>
   contains_sub ''%2F'' (concat (map encode_path_byte t)) \<longleftrightarrow> ENCODED_SLASH_SENTINEL \<in> set t"
proof (induction t)
  case (Cons c t)
  then show ?case using contains_encoded_slash_byte [of c "concat (map encode_path_byte t)"] by auto
qed simp


subsection \<open>Decoded paths\<close>

lemma decode_hex_less: "decode_hex c = Some n \<Longrightarrow> n < 16"
  by (auto simp: decode_hex_def split: if_splits)

text \<open>One step of a successful decoding: a literal byte or an escape, and what it can produce.\<close>

lemma percent_decode_Cons:
  assumes "percent_decode_with_sentinel allow (b # raw) = Inr d"
  obtains (literal) d' where "d = b # d'" "percent_decode_with_sentinel allow raw = Inr d'"
      "b \<noteq> ENCODED_SLASH_SENTINEL" "b \<noteq> CHR ''%''"
    | (slash) h l raw' d' where "raw = h # l # raw'" "d = ENCODED_SLASH_SENTINEL # d'" "allow"
      "percent_decode_with_sentinel allow raw' = Inr d'"
    | (escape) h l raw' c d' where "raw = h # l # raw'" "d = c # d'" "segment_byte c" "0x20 \<le> byte c"
      "percent_decode_with_sentinel allow raw' = Inr d'"
proof (cases "b = CHR ''%''")
  case False
  then show thesis using assms literal by (auto split: if_splits)
next
  case True
  then obtain h l raw' where raw: "raw = h # l # raw'" using assms by (auto split: list.splits)
  then obtain hi lo where hl: "decode_hex h = Some hi" "decode_hex l = Some lo"
    using assms True by (auto split: option.splits)
  have n: "hi * 16 + lo < 256" using decode_hex_less [OF hl(1)] decode_hex_less [OF hl(2)] by simp
  show thesis
  proof (cases "hi * 16 + lo = byte (CHR ''/'')")
    case s: True
    then show thesis using assms True raw hl slash by (auto simp: Let_def split: if_splits)
  next
    case ns: False
    have r: "0x20 \<le> hi * 16 + lo" "hi * 16 + lo \<noteq> 0x7F"
      and d: "\<exists>d'. d = char_of (hi * 16 + lo) # d' \<and> percent_decode_with_sentinel allow raw' = Inr d'"
      using assms True raw hl ns by (auto simp: Let_def split: if_splits)
    have c: "byte (char_of (hi * 16 + lo)) = hi * 16 + lo" using n by simp
    then have "segment_byte (char_of (hi * 16 + lo))" using r ns by (auto simp: segment_byte_def)
    then show thesis using d raw r c escape by metis
  qed
qed

text \<open>Induction along a successful decoding.\<close>

lemma percent_decode_induct [consumes 1, case_names Nil literal slash escape]:
  assumes "percent_decode_with_sentinel allow raw = Inr d"
    and "P [] []"
    and "\<And>b raw d. P raw d \<Longrightarrow> b \<noteq> ENCODED_SLASH_SENTINEL \<Longrightarrow> b \<noteq> CHR ''%'' \<Longrightarrow> P (b # raw) (b # d)"
    and "\<And>b h l raw d. P raw d \<Longrightarrow> allow \<Longrightarrow> P (b # h # l # raw) (ENCODED_SLASH_SENTINEL # d)"
    and "\<And>b h l raw c d. P raw d \<Longrightarrow> segment_byte c \<Longrightarrow> 0x20 \<le> byte c \<Longrightarrow> P (b # h # l # raw) (c # d)"
  shows "P raw d"
  using assms(1)
proof (induction "length raw" arbitrary: raw d rule: less_induct)
  case less
  show ?case
  proof (cases raw)
    case Nil
    then show ?thesis using less.prems assms(2) by simp
  next
    case (Cons b rest)
    from less.prems [unfolded Cons] show ?thesis
    proof (cases rule: percent_decode_Cons)
      case (literal d')
      then show ?thesis using less.hyps [of rest d'] assms(3) Cons by simp
    next
      case (slash h l raw' d')
      then show ?thesis using less.hyps [of raw' d'] assms(4) Cons by simp
    next
      case (escape h l raw' c d')
      then show ?thesis using less.hyps [of raw' d'] assms(5) Cons by simp
    qed
  qed
qed

lemma decode_bytes:
  "percent_decode_with_sentinel allow raw = Inr d \<Longrightarrow> \<forall>c\<in>set raw. 0x20 \<le> byte c \<and> byte c \<noteq> 0x7F
   \<Longrightarrow> \<forall>c\<in>set d. segment_byte c \<or> c = CHR ''/''"
  by (induction rule: percent_decode_induct) (auto simp: segment_byte_def)

lemma byte_sentinel [simp]: "byte ENCODED_SLASH_SENTINEL = 1"
  by (simp add: ENCODED_SLASH_SENTINEL_def byte_def)

lemma decode_no_sentinel:
  "percent_decode_with_sentinel False raw = Inr d \<Longrightarrow> ENCODED_SLASH_SENTINEL \<notin> set d"
  by (induction rule: percent_decode_induct) auto

lemma decode_length: "percent_decode_with_sentinel allow raw = Inr d \<Longrightarrow> length d \<le> length raw"
  by (induction rule: percent_decode_induct) auto

lemma decode_leading_slash:
  assumes "percent_decode_with_sentinel allow (CHR ''/'' # raw) = Inr d"
  obtains d' where "d = CHR ''/'' # d'"
  using assms by auto

subsection \<open>Dot segments\<close>

text \<open>A resolved segment list: no dot segment, and only the last segment may be empty.\<close>

definition resolved_ok :: "string list \<Rightarrow> bool" where
  "resolved_ok segs = (segs \<noteq> [] \<and> ''.'' \<notin> set segs \<and> ''..'' \<notin> set segs \<and> [] \<notin> set (butlast segs))"

lemma resolve_dot_loop_ok:
  "resolve_dot_loop stack segs = Inr r \<Longrightarrow> segs \<noteq> []
   \<Longrightarrow> ''.'' \<notin> set stack \<and> ''..'' \<notin> set stack \<and> [] \<notin> set stack \<Longrightarrow> resolved_ok r"
proof (induction stack segs rule: resolve_dot_loop.induct)
  case (2 stack seg rest)
  show ?case
  proof (cases "rest = []")
    case True
    then show ?thesis using "2.prems" by (auto simp: resolved_ok_def Let_def split: if_splits dest: in_set_butlastD)
  next
    case False
    have b: "set (butlast stack) \<subseteq> set stack" by (auto dest: in_set_butlastD)
    show ?thesis using 2 False b by (auto simp: Let_def split: if_splits)
  qed
qed simp

lemma resolve_dot_loop_set:
  "resolve_dot_loop stack segs = Inr r \<Longrightarrow> set r \<subseteq> set stack \<union> set segs \<union> {[]}"
proof (induction stack segs rule: resolve_dot_loop.induct)
  case (2 stack seg rest)
  have b: "set (butlast stack) \<subseteq> set stack" by (auto dest: in_set_butlastD)
  show ?case
  proof (cases "rest = []")
    case True
    then show ?thesis using "2.prems" b by (auto simp: Let_def split: if_splits)
  next
    case False
    then show ?thesis using 2 b by (auto simp: Let_def split: if_splits)
  qed
qed auto

lemma resolve_dot_loop_id: "resolved_ok segs \<Longrightarrow> resolve_dot_loop stack segs = Inr (stack @ segs)"
proof (induction stack segs rule: resolve_dot_loop.induct)
  case (2 stack seg rest)
  show ?case
  proof (cases "rest = []")
    case True
    then show ?thesis using "2.prems" by (auto simp: resolved_ok_def)
  next
    case False
    then show ?thesis using "2.prems" "2.IH"(4) by (auto simp: resolved_ok_def Let_def)
  qed
qed simp

text \<open>The size of a segment list on the wire, separators included.\<close>

definition segs_size :: "string list \<Rightarrow> nat" where
  "segs_size segs = sum_list (map (\<lambda>s. length s + 1) segs)"

lemma segs_size_butlast: "segs_size (butlast xs) \<le> segs_size xs"
  by (induction xs) (auto simp: segs_size_def)

lemma segs_size_butlast_less: "xs \<noteq> [] \<Longrightarrow> segs_size (butlast xs) + 1 \<le> segs_size xs"
  by (induction xs) (auto simp: segs_size_def)

lemma resolve_dot_loop_size:
  "resolve_dot_loop stack segs = Inr r \<Longrightarrow> segs_size r \<le> segs_size stack + segs_size segs"
proof (induction stack segs rule: resolve_dot_loop.induct)
  case (2 stack seg rest)
  have app: "segs_size (a @ b) = segs_size a + segs_size b" "segs_size (s # b) = length s + 1 + segs_size b" "segs_size [] = 0" for a b s
    by (simp_all add: segs_size_def)
  show ?case
  proof (cases "rest = []")
    case True
    then show ?thesis using "2.prems" segs_size_butlast_less [of stack] by (auto simp: Let_def app split: if_splits)
  next
    case False
    then show ?thesis using 2 segs_size_butlast_less [of stack] by (force simp: Let_def app split: if_splits)
  qed
qed simp


subsection \<open>Canonical paths\<close>

text \<open>
  The documented behaviour of the URI parser that the function relies on: a string that begins
  with a slash has no scheme, and the path of an absolute URI is made of bytes of the input (or
  is the slash that stands for an absent path).
\<close>

definition uri_lib_ok :: "uri_lib \<Rightarrow> bool" where
  "uri_lib_ok U =
     (\<forall>s scheme path. uri_parse U s = Some (scheme, path) \<longrightarrow>
        (starts_with ''/'' s \<longrightarrow> scheme = None) \<and> set path \<subseteq> insert (CHR ''/'') (set s))"

text \<open>What an upstream may dispatch on: every escape decoded and encoded slashes taken as separators.\<close>

definition upstream_segments :: "string \<Rightarrow> string list option" where
  "upstream_segments path =
     (case percent_decode_with_sentinel True path of
        Inl _ \<Rightarrow> None
      | Inr decoded \<Rightarrow> Some (concat (map (split_on ENCODED_SLASH_SENTINEL) (split_on (CHR ''/'') (tl decoded)))))"

definition path_of :: "string list \<Rightarrow> string" where
  "path_of segs = ''/'' @ join ''/'' segs"

definition wire_form :: "string list \<Rightarrow> string" where
  "wire_form segs = concat (map encode_path_byte (path_of segs))"

lemma concat_encode_plain: "CHR ''/'' \<notin> set p \<Longrightarrow> concat (map encode_path_byte p) = concat (map encode_byte p)"
  by (intro arg_cong [where f = concat] map_cong) (auto simp: encode_path_byte_def)

lemma concat_encode_join:
  "\<forall>s\<in>set segs. CHR ''/'' \<notin> set s \<Longrightarrow>
   join ''/'' (map (\<lambda>seg. concat (map encode_byte seg)) segs) = concat (map encode_path_byte (join ''/'' segs))"
proof (induction "''/''" segs rule: join.induct)
  case (2 p)
  then show ?case using concat_encode_plain [of p] by simp
next
  case (3 p q ps)
  then show ?case using concat_encode_plain [of p] by (simp add: encode_path_byte_def)
qed simp

lemma strip_idem [simp]: "strip_path_parameters (strip_path_parameters s) = strip_path_parameters s"
  by (simp add: strip_path_parameters_def takeWhile_idem)

lemma strip_set: "set (strip_path_parameters s) \<subseteq> set s - {CHR '';''}"
  by (auto simp: strip_path_parameters_def dest: set_takeWhileD)

text \<open>A segment list is stable under the options when stripping changes none of its segments.\<close>

definition strip_stable :: "CanonicalizeOptions \<Rightarrow> string list \<Rightarrow> bool" where
  "strip_stable opts segs = (co_strip_path_parameters opts \<longrightarrow> (\<forall>s\<in>set segs. strip_path_parameters s = s))"

lemma build_canonical_path_eq:
  assumes "\<forall>s\<in>set segs. CHR ''/'' \<notin> set s" and "strip_stable opts segs"
  shows "build_canonical_path segs opts = wire_form segs"
proof -
  have "map (\<lambda>seg. concat (map encode_byte
        (if co_strip_path_parameters opts then strip_path_parameters seg else seg))) segs
      = map (\<lambda>seg. concat (map encode_byte seg)) segs"
    using assms(2) by (auto simp: strip_stable_def)
  then have "build_canonical_path segs opts = ''/'' @ concat (map encode_path_byte (join ''/'' segs))"
    unfolding build_canonical_path_def using concat_encode_join [OF assms(1)] by (simp only:)
  then show ?thesis by (simp add: wire_form_def path_of_def encode_path_byte_def)
qed

text \<open>The invariant of an accepted segment list.\<close>

definition canonical_segments :: "CanonicalizeOptions \<Rightarrow> string list \<Rightarrow> bool" where
  "canonical_segments opts segs =
     (resolved_ok segs \<and> \<not> has_residual_dot segs \<and> strip_stable opts segs
      \<and> (\<forall>s\<in>set segs. \<forall>c\<in>set s. segment_byte c)
      \<and> (\<not> co_allow_encoded_slash opts \<longrightarrow> (\<forall>s\<in>set segs. ENCODED_SLASH_SENTINEL \<notin> set s)))"

lemma set_join: "c \<in> set (join sep segs) \<Longrightarrow> c \<in> set sep \<or> (\<exists>s\<in>set segs. c \<in> set s)"
  by (induction sep segs rule: join.induct) auto

lemma path_of_bytes:
  "\<forall>s\<in>set segs. \<forall>c\<in>set s. segment_byte c \<Longrightarrow> \<forall>c\<in>set (path_of segs). segment_byte c \<or> c = CHR ''/''"
proof -
  assume a: "\<forall>s\<in>set segs. \<forall>c\<in>set s. segment_byte c"
  then show ?thesis using set_join [of _ "''/''" segs] by (fastforce simp: path_of_def)
qed

lemma split_path_of:
  assumes "segs \<noteq> []" and "\<forall>s\<in>set segs. CHR ''/'' \<notin> set s"
  shows "split_on (CHR ''/'') (tl (path_of segs)) = segs"
  using assms by (simp add: path_of_def split_on_join)


lemma check_target_bytes_Inr:
  "check_target_bytes s = Inr () \<Longrightarrow> \<forall>c\<in>set s. 0x20 \<le> byte c \<and> byte c < 0x7F"
  by (induction s rule: check_target_bytes.induct) (auto split: if_splits)

lemma target_raw_path_bytes:
  assumes "uri_lib_ok U"
  shows "set (target_raw_path U s) \<subseteq> insert (CHR ''/'') (set s)"
  using assms
  by (auto simp: target_raw_path_def uri_lib_ok_def Let_def split: option.splits prod.splits)

lemma stripped_segments_props:
  assumes "\<forall>c\<in>set d. segment_byte c \<or> c = CHR ''/''" and "s \<in> set (stripped_segments opts (CHR ''/'' # d))"
  shows "\<forall>c\<in>set s. segment_byte c" and "set s \<subseteq> set d"
    and "co_strip_path_parameters opts \<longrightarrow> strip_path_parameters s = s"
proof -
  obtain s0 where s0: "s0 \<in> set (split_on (CHR ''/'') d)" and sub: "set s \<subseteq> set s0"
    using assms(2) strip_set
    by (fastforce simp: stripped_segments_def split_path_segments_def Let_def split: if_splits)
  show "set s \<subseteq> set d" using set_split_on [OF s0] sub by blast
  moreover have "CHR ''/'' \<notin> set s" using split_on_notin [OF s0] sub by blast
  ultimately show "\<forall>c\<in>set s. segment_byte c" using assms(1) by blast
  show "co_strip_path_parameters opts \<longrightarrow> strip_path_parameters s = s"
    using assms(2) by (auto simp: stripped_segments_def Let_def)
qed

lemma stripped_segments_Nil [simp]: "stripped_segments opts d \<noteq> []"
  by (simp add: stripped_segments_def split_path_segments_def Let_def)

text \<open>A successful canonicalization writes out an accepted segment list.\<close>

lemma canonicalize_raw_path_cases:
  assumes "canonicalize_raw_path raw opts = Inr cp" and "\<forall>c\<in>set raw. 0x20 \<le> byte c \<and> byte c \<noteq> 0x7F"
  obtains decoded segs where "canonical_segments opts segs" and "cp_path cp = wire_form segs"
    and "percent_decode_with_sentinel (co_allow_encoded_slash opts) raw = Inr decoded" and "decoded \<noteq> []"
    and "resolve_dot_segments (stripped_segments opts decoded) = Inr segs"
    and "length raw \<le> MAX_PATH_LEN"
proof -
  obtain decoded segs where sl: "starts_with ''/'' raw" and len: "length raw \<le> MAX_PATH_LEN"
    and dec: "percent_decode_with_sentinel (co_allow_encoded_slash opts) raw = Inr decoded"
    and segs: "resolve_dot_segments (stripped_segments opts decoded) = Inr segs"
    and dots: "\<not> has_residual_dot segs" and cp: "cp_path cp = build_canonical_path segs opts"
    using assms(1) by (auto simp: canonicalize_raw_path_def Let_def split: if_splits)
  have db: "\<forall>c\<in>set decoded. segment_byte c \<or> c = CHR ''/''" by (rule decode_bytes [OF dec assms(2)])
  obtain raw' where "raw = CHR ''/'' # raw'" using sl by (auto simp: starts_with_iff)
  then obtain d where d: "decoded = CHR ''/'' # d" using dec by (metis decode_leading_slash)
  have sub: "set segs \<subseteq> set (stripped_segments opts decoded) \<union> {[]}"
    using resolve_dot_loop_set [OF segs [unfolded resolve_dot_segments_def]] by simp
  have ok: "resolved_ok segs"
    by (rule resolve_dot_loop_ok [OF segs [unfolded resolve_dot_segments_def]]) simp_all
  have st: "(\<forall>c\<in>set s. segment_byte c) \<and> set s \<subseteq> set decoded
      \<and> (co_strip_path_parameters opts \<longrightarrow> strip_path_parameters s = s)" if "s \<in> set segs" for s
  proof (cases "s = []")
    case False
    then have "s \<in> set (stripped_segments opts (CHR ''/'' # d))" using sub that d by auto
    then show ?thesis using stripped_segments_props [of d s opts] db d by auto
  qed (simp add: strip_path_parameters_def)
  have sent: "\<not> co_allow_encoded_slash opts \<Longrightarrow> ENCODED_SLASH_SENTINEL \<notin> set decoded"
    using dec decode_no_sentinel by auto
  have can: "canonical_segments opts segs"
    unfolding canonical_segments_def strip_stable_def using ok dots st sent by blast
  have "build_canonical_path segs opts = wire_form segs"
    using can by (intro build_canonical_path_eq) (auto simp: canonical_segments_def segment_byte_def)
  then show thesis using that [OF can _ dec _ segs len] cp d by simp
qed

lemma canonicalize_cases:
  assumes "uri_lib_ok U" and "canonicalize_request_target U target opts = Inr (cp, q)"
  obtains path_part where "canonicalize_raw_path (target_raw_path U path_part) opts = Inr cp"
    and "\<forall>c\<in>set (target_raw_path U path_part). 0x20 \<le> byte c \<and> byte c \<noteq> 0x7F"
proof -
  have bytes: "check_target_bytes target = Inr ()"
    using assms(2) by (auto simp: canonicalize_request_target_def)
  obtain path_part where part: "set path_part \<subseteq> set target"
    and cp: "canonicalize_raw_path (target_raw_path U path_part) opts = Inr cp"
  proof (cases "split_once (CHR ''?'') target")
    case None
    then show thesis using assms(2) that [of target] by (auto simp: canonicalize_request_target_def split: if_splits)
  next
    case (Some pq)
    then have "set (fst pq) \<subseteq> set target" by (auto simp: split_once_def split: if_splits dest: set_takeWhileD)
    then show thesis using assms(2) that [of "fst pq"] Some
      by (cases pq) (auto simp: canonicalize_request_target_def split: if_splits)
  qed
  have "0x20 \<le> byte c \<and> byte c \<noteq> 0x7F" if "c \<in> set (target_raw_path U path_part)" for c
  proof (cases "c = CHR ''/''")
    case False
    then have "c \<in> set target" using target_raw_path_bytes [OF assms(1), of path_part] that part by auto
    then have "0x20 \<le> byte c \<and> byte c < 0x7F" using check_target_bytes_Inr [OF bytes] by blast
    then show ?thesis by simp
  qed (simp add: byte_slash_value)
  then show thesis using that [OF cp] by blast
qed

lemma canonical_segs_no_slash: "canonical_segments opts segs \<Longrightarrow> s \<in> set segs \<Longrightarrow> CHR ''/'' \<notin> set s"
  by (auto simp: canonical_segments_def segment_byte_def)

lemma canonical_path_bytes: "canonical_segments opts segs \<Longrightarrow> \<forall>c\<in>set (path_of segs). segment_byte c \<or> c = CHR ''/''"
  by (rule path_of_bytes) (simp add: canonical_segments_def)

lemma sentinel_in_path_of: "ENCODED_SLASH_SENTINEL \<in> set (path_of segs) \<longleftrightarrow> (\<exists>s\<in>set segs. ENCODED_SLASH_SENTINEL \<in> set s)"
proof -
  have "ENCODED_SLASH_SENTINEL \<in> set (join ''/'' segs) \<longleftrightarrow> (\<exists>s\<in>set segs. ENCODED_SLASH_SENTINEL \<in> set s)"
    by (induction "''/''" segs rule: join.induct) auto
  then show ?thesis by (simp add: path_of_def)
qed

text \<open>Decoding what was written gives the segments back.\<close>

lemma decode_wire_form:
  assumes "canonical_segments opts segs"
  shows "percent_decode_with_sentinel (co_allow_encoded_slash opts) (wire_form segs) = Inr (path_of segs)"
    and "percent_decode_with_sentinel True (wire_form segs) = Inr (path_of segs)"
  using decode_encode [OF canonical_path_bytes [OF assms]] assms sentinel_in_path_of [of segs]
  unfolding wire_form_def by (auto simp: canonical_segments_def)

lemma stripped_segments_path_of:
  assumes "canonical_segments opts segs"
  shows "stripped_segments opts (path_of segs) = segs"
proof -
  have "split_on (CHR ''/'') (tl (path_of segs)) = segs"
    using assms canonical_segs_no_slash [OF assms] by (intro split_path_of) (auto simp: canonical_segments_def resolved_ok_def)
  moreover have "co_strip_path_parameters opts \<Longrightarrow> map strip_path_parameters segs = segs"
    using assms by (simp add: canonical_segments_def strip_stable_def map_idI)
  ultimately show ?thesis by (simp add: stripped_segments_def split_path_segments_def Let_def)
qed

lemma encode_path_byte_set: "x \<in> set (encode_path_byte c) \<Longrightarrow> x = CHR ''/'' \<or> x = CHR ''%'' \<or> is_pchar_unreserved x"
proof -
  have "is_pchar_unreserved (CHR ''2'')" "is_pchar_unreserved (CHR ''F'')" by code_simp+
  then show "x \<in> set (encode_path_byte c) \<Longrightarrow> x = CHR ''/'' \<or> x = CHR ''%'' \<or> is_pchar_unreserved x"
    using upper_hex_not_percent(3) [OF nibble_less(1) [of c]] upper_hex_not_percent(3) [OF nibble_less(2) [of c]]
    by (auto simp: encode_path_byte_def encode_byte_def split: if_splits)
qed

lemma wire_form_bytes: "x \<in> set (wire_form segs) \<Longrightarrow> x = CHR ''/'' \<or> x = CHR ''%'' \<or> is_pchar_unreserved x"
  unfolding wire_form_def using encode_path_byte_set by fastforce

lemma wire_form_slash: "\<exists>t. wire_form segs = CHR ''/'' # t"
  by (simp add: wire_form_def path_of_def encode_path_byte_def)

lemma pchar_bytes:
  assumes "x = CHR ''/'' \<or> x = CHR ''%'' \<or> is_pchar_unreserved x"
  shows "0x20 \<le> byte x \<and> byte x < 0x7F \<and> x \<noteq> CHR ''#'' \<and> x \<noteq> CHR ''?''"
proof -
  have "list_all (\<lambda>x. 0x20 \<le> byte x \<and> byte x < 0x7F) (CHR ''%'' # CHR ''/'' # ''-._~!$&'()*+,;=:@'')" by code_simp
  then show ?thesis using assms
    by (auto simp: is_pchar_unreserved_def is_ascii_alphanumeric_def is_ascii_digit_def list_all_iff byte_def)
qed

lemma check_target_bytes_ok: "\<forall>x\<in>set s. 0x20 \<le> byte x \<and> byte x < 0x7F \<Longrightarrow> check_target_bytes s = Inr ()"
  by (induction s rule: check_target_bytes.induct) auto

text \<open>Accepted segments pass the canonicalization again.\<close>

lemma canonicalize_wire_form:
  assumes "uri_lib_ok U" and "canonical_segments opts segs" and "length (wire_form segs) \<le> MAX_PATH_LEN"
  shows "canonicalize_request_target U (wire_form segs) opts
    = Inr (\<lparr>cp_path = wire_form segs, cp_rewritten = False\<rparr>, None)"
proof -
  obtain t where t: "wire_form segs = CHR ''/'' # t" using wire_form_slash by blast
  have b: "\<forall>x\<in>set (wire_form segs). 0x20 \<le> byte x \<and> byte x < 0x7F \<and> x \<noteq> CHR ''#'' \<and> x \<noteq> CHR ''?''"
    by (intro ballI pchar_bytes wire_form_bytes)
  then have chk: "check_target_bytes (wire_form segs) = Inr ()" by (intro check_target_bytes_ok) blast
  have no: "CHR ''#'' \<notin> set (wire_form segs)" "CHR ''?'' \<notin> set (wire_form segs)" using b by blast+
  have sl: "starts_with ''/'' (wire_form segs)" by (simp add: t starts_with_def)
  have raw: "target_raw_path U (wire_form segs) = wire_form segs"
  proof (cases "uri_parse U (wire_form segs)")
    case None
    then show ?thesis using t by (simp add: target_raw_path_def)
  next
    case (Some sp)
    then have "fst sp = None" using assms(1) sl unfolding uri_lib_ok_def by (metis prod.collapse)
    then show ?thesis using Some t by (cases sp) (simp add: target_raw_path_def)
  qed
  have dots: "\<not> has_residual_dot segs" using assms(2) by (simp add: canonical_segments_def)
  have "resolve_dot_segments segs = Inr segs"
    using resolve_dot_loop_id [of segs "[]"] assms(2) by (simp add: resolve_dot_segments_def canonical_segments_def)
  moreover have "build_canonical_path segs opts = wire_form segs"
    using assms(2) by (intro build_canonical_path_eq) (auto simp: canonical_segments_def segment_byte_def)
  ultimately have "canonicalize_raw_path (wire_form segs) opts = Inr \<lparr>cp_path = wire_form segs, cp_rewritten = False\<rparr>"
    using assms(3) dots unfolding canonicalize_raw_path_def decode_wire_form(1) [OF assms(2)]
    by (simp add: sl stripped_segments_path_of [OF assms(2)])
  then show ?thesis using chk no raw by (simp add: canonicalize_request_target_def split_once_def)
qed


lemma wire_form_segments:
  assumes "canonical_segments opts segs"
  shows "split_on (CHR ''/'') (tl (wire_form segs)) = map (\<lambda>seg. concat (map encode_byte seg)) segs"
proof -
  let ?enc = "\<lambda>seg. concat (map encode_byte seg)"
  have e: "CHR ''/'' \<notin> set (encode_byte c)" for c
    using upper_hex_not_percent(2) [OF nibble_less(1) [of c]] upper_hex_not_percent(2) [OF nibble_less(2) [of c]]
    by (auto simp: encode_byte_def)
  have "tl (wire_form segs) = join ''/'' (map ?enc segs)"
    using concat_encode_join [of segs] canonical_segs_no_slash [OF assms]
    by (simp add: wire_form_def path_of_def encode_path_byte_def)
  moreover have "segs \<noteq> []" using assms by (simp add: canonical_segments_def resolved_ok_def)
  ultimately show ?thesis using e by (auto intro!: split_on_join)
qed

lemma encode_byte_Nil [simp]: "encode_byte c \<noteq> []"
  by (simp add: encode_byte_def)

lemma wire_form_no_params:
  assumes "canonical_segments opts segs" and "co_strip_path_parameters opts"
  shows "CHR '';'' \<notin> set (wire_form segs)"
proof -
  have hex: "upper_hex_nibble n \<noteq> CHR '';''" if "n < 16" for n
  proof -
    have "list_all (\<lambda>n. upper_hex_nibble n \<noteq> CHR '';'') [0..<16]" by code_simp
    then show ?thesis using that by (simp add: list_all_iff)
  qed
  have enc: "CHR '';'' \<notin> set (encode_path_byte c)" if "c \<noteq> CHR '';''" for c
    using that hex [OF nibble_less(1) [of c]] hex [OF nibble_less(2) [of c]]
    by (simp add: encode_path_byte_def encode_byte_def)
  have no: "CHR '';'' \<notin> set s" if "s \<in> set segs" for s
  proof -
    have "strip_path_parameters s = s" using assms that by (simp add: canonical_segments_def strip_stable_def)
    then show ?thesis using strip_set [of s] by auto
  qed
  have "CHR '';'' \<notin> set (join ''/'' segs)"
  proof
    assume "CHR '';'' \<in> set (join ''/'' segs)"
    from set_join [OF this] no show False by auto
  qed
  then have "\<forall>c\<in>set (path_of segs). c \<noteq> CHR '';''" by (auto simp: path_of_def)
  then have "\<forall>c\<in>set (path_of segs). CHR '';'' \<notin> set (encode_path_byte c)" using enc by blast
  then show ?thesis unfolding wire_form_def set_concat set_map by blast
qed

lemma segs_size_split: "segs_size (split_on d s) = length s + 1"
proof (induction s)
  case (Cons c s)
  then show ?case by (cases "split_on d s") (auto simp: segs_size_def)
qed (simp add: segs_size_def)

lemma wire_form_length:
  assumes "segs \<noteq> []"
  shows "length (wire_form segs) \<le> 3 * segs_size segs"
proof -
  have enc: "length (encode_path_byte c) \<le> (if c = CHR ''/'' then 1 else 3)" for c
    by (simp add: encode_path_byte_def encode_byte_def)
  have "length (concat (map encode_path_byte t)) \<le> 3 * length t" for t
  proof (induction t)
    case (Cons c t)
    then show ?case using enc [of c] by (simp split: if_splits)
  qed simp
  moreover have "length (join ''/'' segs) + 1 = segs_size segs"
    using assms by (induction "''/''" segs rule: join.induct) (auto simp: segs_size_def)
  then have "3 * length (path_of segs) = 3 * segs_size segs" by (simp add: path_of_def)
  ultimately show ?thesis unfolding wire_form_def by metis
qed

section \<open>Properties\<close>

definition sample_uri :: uri_lib where
  "sample_uri = \<lparr>uri_parse = (\<lambda>s.
     if starts_with ''http://'' s then Some (Some ''http'', dropWhile (\<lambda>c. c \<noteq> CHR ''/'') (drop 7 s))
     else if starts_with ''/'' s then Some (None, s) else None)\<rparr>"

lemma sample_uri_ok: "uri_lib_ok sample_uri"
  by (auto simp: uri_lib_ok_def sample_uri_def starts_with_iff split: if_splits
      dest: set_dropWhileD in_set_dropD)

lemma sample_canonical:
  "canonicalize_request_target sample_uri ''/a/./b//c;v=1/../%7Euser?q=/../'' canonicalize_options_default
   = Inr (\<lparr>cp_path = ''/a/b/~user'', cp_rewritten = True\<rparr>, Some ''q=/../'')"
  by code_simp

text \<open>C5. A canonical path is safe to authorize and to forward. It starts with a slash, consists of
  literal path characters and escapes only, has no empty inner segment and, when parameters are
  stripped, no semicolon. Even an upstream that decodes every escape and takes encoded slashes as
  separators finds no \<open>.\<close> or \<open>..\<close> segment in it.\<close>
theorem canonical_path_safe:
  assumes "uri_lib_ok U" and "canonicalize_request_target U target opts = Inr (cp, q)"
  shows "starts_with ''/'' (cp_path cp)
    \<and> (\<forall>c\<in>set (cp_path cp). c = CHR ''/'' \<or> c = CHR ''%'' \<or> is_pchar_unreserved c)
    \<and> [] \<notin> set (butlast (split_on (CHR ''/'') (tl (cp_path cp))))
    \<and> (co_strip_path_parameters opts \<longrightarrow> CHR '';'' \<notin> set (cp_path cp))
    \<and> (\<exists>parts. upstream_segments (cp_path cp) = Some parts \<and> ''.'' \<notin> set parts \<and> ''..'' \<notin> set parts)"
proof -
  obtain part where raw: "canonicalize_raw_path (target_raw_path U part) opts = Inr cp"
    "\<forall>c\<in>set (target_raw_path U part). 0x20 \<le> byte c \<and> byte c \<noteq> 0x7F"
    using assms by (rule canonicalize_cases)
  obtain segs where can: "canonical_segments opts segs" and cp: "cp_path cp = wire_form segs"
    using raw by (rule canonicalize_raw_path_cases)
  have "[] \<notin> set (butlast segs)" using can by (simp add: canonical_segments_def resolved_ok_def)
  then have 3: "[] \<notin> set (butlast (split_on (CHR ''/'') (tl (wire_form segs))))"
    unfolding wire_form_segments [OF can] map_butlast [symmetric] by auto
  have "split_on (CHR ''/'') (tl (path_of segs)) = segs"
    using can canonical_segs_no_slash [OF can] by (intro split_path_of) (auto simp: canonical_segments_def resolved_ok_def)
  then have "upstream_segments (wire_form segs) = Some (concat (map (split_on ENCODED_SLASH_SENTINEL) segs))"
    by (simp add: upstream_segments_def decode_wire_form(2) [OF can])
  moreover have "''.'' \<notin> set (concat (map (split_on ENCODED_SLASH_SENTINEL) segs))"
    "''..'' \<notin> set (concat (map (split_on ENCODED_SLASH_SENTINEL) segs))"
    using can by (auto simp: canonical_segments_def has_residual_dot_def list_ex_iff)
  ultimately have 5: "\<exists>parts. upstream_segments (wire_form segs) = Some parts \<and> ''.'' \<notin> set parts \<and> ''..'' \<notin> set parts"
    by blast
  show ?thesis
    unfolding cp using 3 5 wire_form_slash [of segs] wire_form_bytes wire_form_no_params [OF can]
    by (auto simp: starts_with_def)
qed

theorem canonical_path_safe_witness:
  "\<exists>parts. upstream_segments ''/a/b/~user'' = Some parts \<and> ''.'' \<notin> set parts \<and> ''..'' \<notin> set parts"
  using canonical_path_safe [OF sample_uri_ok sample_canonical] by simp

text \<open>C22. Canonicalization is stable: what the policy saw is what is written to the upstream. A
  canonical path within the length bound is accepted again under the same options, is returned
  unchanged and is not marked as rewritten.\<close>
theorem canonicalize_idempotent:
  assumes "uri_lib_ok U" and "canonicalize_request_target U target opts = Inr (cp, q)"
    and "length (cp_path cp) \<le> MAX_PATH_LEN"
  shows "canonicalize_request_target U (cp_path cp) opts
    = Inr (\<lparr>cp_path = cp_path cp, cp_rewritten = False\<rparr>, None)"
proof -
  obtain part where "canonicalize_raw_path (target_raw_path U part) opts = Inr cp"
    "\<forall>c\<in>set (target_raw_path U part). 0x20 \<le> byte c \<and> byte c \<noteq> 0x7F"
    using assms(1,2) by (rule canonicalize_cases)
  then obtain segs where "canonical_segments opts segs" "cp_path cp = wire_form segs"
    by (rule canonicalize_raw_path_cases)
  then show ?thesis using canonicalize_wire_form [OF assms(1), of opts segs] assms(3) by simp
qed

theorem canonicalize_idempotent_witness:
  "canonicalize_request_target sample_uri ''/a/b/~user'' canonicalize_options_default
   = Inr (\<lparr>cp_path = ''/a/b/~user'', cp_rewritten = False\<rparr>, None)"
  using canonicalize_idempotent [OF sample_uri_ok sample_canonical] by (simp add: MAX_PATH_LEN_def)

text \<open>C40. The test for a surviving encoded slash is exact. A canonical path contains the text \<open>%2F\<close> if
  and only if a strict endpoint would refuse to decode it because of an encoded slash, so a
  caller that canonicalized leniently can re-check the result; under strict options no canonical
  path contains it.\<close>
theorem encoded_slash_test_exact:
  assumes "uri_lib_ok U" and "canonicalize_request_target U target opts = Inr (cp, q)"
  shows "(canonical_path_has_encoded_slash (cp_path cp)
          \<longleftrightarrow> percent_decode_with_sentinel False (cp_path cp) = Inl EncodedSlashNotAllowed)
    \<and> (canonical_path_has_encoded_slash (cp_path cp) \<longrightarrow> co_allow_encoded_slash opts)"
proof -
  obtain part where "canonicalize_raw_path (target_raw_path U part) opts = Inr cp"
    "\<forall>c\<in>set (target_raw_path U part). 0x20 \<le> byte c \<and> byte c \<noteq> 0x7F"
    using assms by (rule canonicalize_cases)
  then obtain segs where can: "canonical_segments opts segs" and cp: "cp_path cp = wire_form segs"
    by (rule canonicalize_raw_path_cases)
  have "canonical_path_has_encoded_slash (cp_path cp) \<longleftrightarrow> ENCODED_SLASH_SENTINEL \<in> set (path_of segs)"
    unfolding canonical_path_has_encoded_slash_def cp wire_form_def
    by (rule contains_encoded_slash [OF canonical_path_bytes [OF can]])
  moreover have "percent_decode_with_sentinel False (cp_path cp) = Inl EncodedSlashNotAllowed
      \<longleftrightarrow> ENCODED_SLASH_SENTINEL \<in> set (path_of segs)"
    unfolding cp wire_form_def by (simp add: decode_encode [OF canonical_path_bytes [OF can]])
  ultimately show ?thesis using can sentinel_in_path_of [of segs] by (auto simp: canonical_segments_def)
qed

theorem encoded_slash_test_exact_witness:
  "canonical_path_has_encoded_slash ''/files/a%2Fb''
   \<and> percent_decode_with_sentinel False ''/files/a%2Fb'' = Inl EncodedSlashNotAllowed"
proof -
  have t: "canonicalize_request_target sample_uri ''/files/a%2fb'' \<lparr>co_allow_encoded_slash = True, co_strip_path_parameters = True\<rparr>
    = Inr (\<lparr>cp_path = ''/files/a%2Fb'', cp_rewritten = True\<rparr>, None)" by code_simp
  have "canonical_path_has_encoded_slash ''/files/a%2Fb''" by code_simp
  with encoded_slash_test_exact [OF sample_uri_ok t] show ?thesis unfolding CanonicalPath.select_convs by blast
qed

text \<open>The output is bounded: escaping can grow a path, but a canonical path never has more than
  three times the accepted input length, that is 12288 bytes.\<close>
theorem canonical_path_length:
  assumes "uri_lib_ok U" and "canonicalize_request_target U target opts = Inr (cp, q)"
  shows "length (cp_path cp) \<le> 3 * MAX_PATH_LEN"
proof -
  obtain part where "canonicalize_raw_path (target_raw_path U part) opts = Inr cp"
    "\<forall>c\<in>set (target_raw_path U part). 0x20 \<le> byte c \<and> byte c \<noteq> 0x7F"
    using assms by (rule canonicalize_cases)
  then obtain decoded segs where can: "canonical_segments opts segs" and cp: "cp_path cp = wire_form segs"
    and dec: "percent_decode_with_sentinel (co_allow_encoded_slash opts) (target_raw_path U part) = Inr decoded"
    and ne: "decoded \<noteq> []" and res: "resolve_dot_segments (stripped_segments opts decoded) = Inr segs"
    and len: "length (target_raw_path U part) \<le> MAX_PATH_LEN"
    by (rule canonicalize_raw_path_cases)
  have "segs_size segs \<le> segs_size (stripped_segments opts decoded)"
    using resolve_dot_loop_size [OF res [unfolded resolve_dot_segments_def]] by (simp add: segs_size_def)
  also have "\<dots> \<le> segs_size (split_path_segments decoded)"
    by (auto simp: stripped_segments_def Let_def segs_size_def strip_path_parameters_def o_def
        intro!: sum_list_mono length_takeWhile_le)
  also have "\<dots> = length decoded" using ne by (cases decoded) (simp_all add: split_path_segments_def segs_size_split)
  also have "\<dots> \<le> MAX_PATH_LEN" using decode_length [OF dec] len by simp
  finally have "segs_size segs \<le> MAX_PATH_LEN" .
  moreover have "segs \<noteq> []" using can by (simp add: canonical_segments_def resolved_ok_def)
  ultimately show ?thesis using wire_form_length [of segs] cp by simp
qed

theorem canonical_path_length_witness: "length ''/a/b/~user'' \<le> 3 * MAX_PATH_LEN"
  using canonical_path_length [OF sample_uri_ok sample_canonical] by simp

end
