(* ===== verification/Net_Classify.thy ===== *)
theory Net_Classify
  imports Prelude "HOL-Library.Word"
begin

text \<open>
  Classification of IP addresses and networks (\<open>crates/openshell-core/src/net.rs\<close>): which
  addresses are never reachable, which are internal, and the tests that decide whether a CIDR
  block touches them. Addresses are 32-bit and 128-bit words. The network types of the
  \<open>ipnet\<close> crate are a parameter.
\<close>

unbundle bit_operations_syntax

section \<open>Definitions\<close>

subsection \<open>Addresses\<close>

type_synonym Ipv4Addr = "32 word"
type_synonym Ipv6Addr = "128 word"

datatype IpAddress = Ip4 Ipv4Addr | Ip6 Ipv6Addr

definition v4_new :: "nat \<Rightarrow> nat \<Rightarrow> nat \<Rightarrow> nat \<Rightarrow> Ipv4Addr" where
  "v4_new a b c d = word_of_nat (((a * 256 + b) * 256 + c) * 256 + d)"

text \<open>\<open>octets()[i]\<close> and \<open>segments()[0]\<close>.\<close>

definition v4_octet :: "nat \<Rightarrow> Ipv4Addr \<Rightarrow> 8 word" where
  "v4_octet i ip = ucast (drop_bit (24 - 8 * i) ip)"

definition v6_segment0 :: "Ipv6Addr \<Rightarrow> 16 word" where
  "v6_segment0 ip = ucast (drop_bit 112 ip)"

definition v6_new0 :: "nat \<Rightarrow> Ipv6Addr" where
  "v6_new0 segment0 = word_of_nat (segment0 * 2 ^ 112)"

definition to_ipv6_mapped :: "Ipv4Addr \<Rightarrow> Ipv6Addr" where
  "to_ipv6_mapped v4 = word_of_nat (0xffff * 2 ^ 32) + ucast v4"

definition to_ipv4_mapped :: "Ipv6Addr \<Rightarrow> Ipv4Addr option" where
  "to_ipv4_mapped ip = (if drop_bit 32 ip = 0xffff then Some (ucast ip) else None)"

subsection \<open>Predicates of the standard library\<close>

definition v4_is_loopback :: "Ipv4Addr \<Rightarrow> bool" where
  "v4_is_loopback ip = (v4_octet 0 ip = 127)"

definition v4_is_link_local :: "Ipv4Addr \<Rightarrow> bool" where
  "v4_is_link_local ip = (v4_octet 0 ip = 169 \<and> v4_octet 1 ip = 254)"

definition v4_is_unspecified :: "Ipv4Addr \<Rightarrow> bool" where
  "v4_is_unspecified ip = (ip = 0)"

definition v4_is_private :: "Ipv4Addr \<Rightarrow> bool" where
  "v4_is_private ip =
     (v4_octet 0 ip = 10
      \<or> (v4_octet 0 ip = 172 \<and> 16 \<le> v4_octet 1 ip \<and> v4_octet 1 ip \<le> 31)
      \<or> (v4_octet 0 ip = 192 \<and> v4_octet 1 ip = 168))"

definition v4_is_documentation :: "Ipv4Addr \<Rightarrow> bool" where
  "v4_is_documentation ip =
     ((v4_octet 0 ip = 192 \<and> v4_octet 1 ip = 0 \<and> v4_octet 2 ip = 2)
      \<or> (v4_octet 0 ip = 198 \<and> v4_octet 1 ip = 51 \<and> v4_octet 2 ip = 100)
      \<or> (v4_octet 0 ip = 203 \<and> v4_octet 1 ip = 0 \<and> v4_octet 2 ip = 113))"

definition v4_is_broadcast :: "Ipv4Addr \<Rightarrow> bool" where
  "v4_is_broadcast ip = (ip = v4_new 255 255 255 255)"

definition v6_is_loopback :: "Ipv6Addr \<Rightarrow> bool" where
  "v6_is_loopback ip = (ip = 1)"

definition v6_is_unspecified :: "Ipv6Addr \<Rightarrow> bool" where
  "v6_is_unspecified ip = (ip = 0)"

subsection \<open>Point checks\<close>

definition is_known_metadata_hostname :: "string \<Rightarrow> bool" where
  "is_known_metadata_hostname host =
     (to_ascii_lowercase (trim_end_matches (CHR ''.'') (str_trim host)) = ''metadata.google.internal'')"

definition is_link_local_ip :: "IpAddress \<Rightarrow> bool" where
  "is_link_local_ip ip =
     (case ip of
        Ip4 v4 \<Rightarrow> v4_is_link_local v4
      | Ip6 v6 \<Rightarrow>
          if v6_segment0 v6 AND 0xffc0 = 0xfe80 then True
          else (case to_ipv4_mapped v6 of Some v4 \<Rightarrow> v4_is_link_local v4 | None \<Rightarrow> False))"

definition is_always_blocked_ip :: "IpAddress \<Rightarrow> bool" where
  "is_always_blocked_ip ip =
     (case ip of
        Ip4 v4 \<Rightarrow> v4_is_loopback v4 \<or> v4_is_link_local v4 \<or> v4_is_unspecified v4
      | Ip6 v6 \<Rightarrow>
          if v6_is_loopback v6 \<or> v6_is_unspecified v6 then True
          else if is_link_local_ip (Ip6 v6) then True
          else (case to_ipv4_mapped v6 of Some v4 \<Rightarrow> v4_is_loopback v4 \<or> v4_is_unspecified v4 | None \<Rightarrow> False))"

definition is_internal_v4 :: "Ipv4Addr \<Rightarrow> bool" where
  "is_internal_v4 v4 =
     (if v4_is_loopback v4 \<or> v4_is_private v4 \<or> v4_is_link_local v4 \<or> v4_is_unspecified v4
         \<or> v4_is_documentation v4 \<or> v4_is_broadcast v4 then True
      else if v4_octet 0 v4 = 100 \<and> v4_octet 1 v4 AND 0xC0 = 64 then True
      else if v4_octet 0 v4 = 192 \<and> v4_octet 1 v4 = 0 \<and> v4_octet 2 v4 = 0 then True
      else if v4_octet 0 v4 = 198 \<and> v4_octet 1 v4 AND 0xFE = 18 then True
      else False)"

definition is_internal_ip :: "IpAddress \<Rightarrow> bool" where
  "is_internal_ip ip =
     (case ip of
        Ip4 v4 \<Rightarrow> is_internal_v4 v4
      | Ip6 v6 \<Rightarrow>
          if v6_is_loopback v6 \<or> v6_is_unspecified v6 then True
          else if is_link_local_ip (Ip6 v6) then True
          else if v6_segment0 v6 AND 0xfe00 = 0xfc00 then True
          else (case to_ipv4_mapped v6 of Some v4 \<Rightarrow> is_internal_v4 v4 | None \<Rightarrow> False))"

subsection \<open>Networks\<close>

text \<open>The operations of \<open>Ipv4Net\<close> and \<open>Ipv6Net\<close> that the checks call.\<close>

record ('n4, 'n6) ipnet_lib =
  n4_new :: "Ipv4Addr \<Rightarrow> nat \<Rightarrow> 'n4"
  n4_network :: "'n4 \<Rightarrow> Ipv4Addr"
  n4_broadcast :: "'n4 \<Rightarrow> Ipv4Addr"
  n4_prefix_len :: "'n4 \<Rightarrow> nat"
  n6_new :: "Ipv6Addr \<Rightarrow> nat \<Rightarrow> 'n6"
  n6_network :: "'n6 \<Rightarrow> Ipv6Addr"
  n6_broadcast :: "'n6 \<Rightarrow> Ipv6Addr"
  n6_contains :: "'n6 \<Rightarrow> Ipv6Addr \<Rightarrow> bool"

datatype ('n4, 'n6) IpNet = Net4 'n4 | Net6 'n6

definition is_always_blocked_net :: "('n4, 'n6) ipnet_lib \<Rightarrow> ('n4, 'n6) IpNet \<Rightarrow> bool" where
  "is_always_blocked_net L net =
     (case net of
        Net4 v4net \<Rightarrow>
          let network = n4_network L v4net;
              broadcast = n4_broadcast L v4net
          in if broadcast \<ge> v4_new 127 0 0 0 \<and> network \<le> v4_new 127 255 255 255 then True
             else if broadcast \<ge> v4_new 169 254 0 0 \<and> network \<le> v4_new 169 254 255 255 then True
             else if network = 0 then True
             else False
      | Net6 v6net \<Rightarrow>
          let network = n6_network L v6net
          in if n6_contains L v6net 1 then True
             else if n6_contains L v6net 0 then True
             else if v6_segment0 network AND 0xffc0 = 0xfe80 then True
             else if n6_contains L v6net (v6_new0 0xfe80) then True
             else if (case to_ipv4_mapped network of
                        Some v4 \<Rightarrow> v4_is_loopback v4 \<or> v4_is_link_local v4 \<or> v4_is_unspecified v4
                      | None \<Rightarrow> False) then True
             else if n6_contains L v6net (to_ipv6_mapped (v4_new 127 0 0 1))
                     \<or> n6_contains L v6net (to_ipv6_mapped (v4_new 169 254 0 0))
                     \<or> n6_contains L v6net (to_ipv6_mapped 0) then True
             else False)"

definition NON_HARD_INTERNAL_V4_NETS :: "('n4, 'n6) ipnet_lib \<Rightarrow> 'n4 list" where
  "NON_HARD_INTERNAL_V4_NETS L =
     [n4_new L (v4_new 10 0 0 0) 8, n4_new L (v4_new 172 16 0 0) 12, n4_new L (v4_new 192 168 0 0) 16,
      n4_new L (v4_new 100 64 0 0) 10, n4_new L (v4_new 192 0 0 0) 24, n4_new L (v4_new 192 0 2 0) 24,
      n4_new L (v4_new 198 18 0 0) 15, n4_new L (v4_new 198 51 100 0) 24, n4_new L (v4_new 203 0 113 0) 24,
      n4_new L (v4_new 255 255 255 255) 32]"

definition IPV6_ULA_NET :: "('n4, 'n6) ipnet_lib \<Rightarrow> 'n6" where
  "IPV6_ULA_NET L = n6_new L (v6_new0 0xfc00) 7"

definition ipv4_nets_intersect :: "('n4, 'n6) ipnet_lib \<Rightarrow> 'n4 \<Rightarrow> 'n4 \<Rightarrow> bool" where
  "ipv4_nets_intersect L left right =
     (n4_network L left \<le> n4_broadcast L right \<and> n4_network L right \<le> n4_broadcast L left)"

definition ipv6_nets_intersect :: "('n4, 'n6) ipnet_lib \<Rightarrow> 'n6 \<Rightarrow> 'n6 \<Rightarrow> bool" where
  "ipv6_nets_intersect L left right =
     (n6_network L left \<le> n6_broadcast L right \<and> n6_network L right \<le> n6_broadcast L left)"

definition ipv4_net_to_mapped_ipv6 :: "('n4, 'n6) ipnet_lib \<Rightarrow> 'n4 \<Rightarrow> 'n6" where
  "ipv4_net_to_mapped_ipv6 L net = n6_new L (to_ipv6_mapped (n4_network L net)) (96 + n4_prefix_len L net)"

definition is_internal_net :: "('n4, 'n6) ipnet_lib \<Rightarrow> ('n4, 'n6) IpNet \<Rightarrow> bool" where
  "is_internal_net L net =
     (if is_always_blocked_net L net then True
      else
        (case net of
           Net4 n \<Rightarrow> list_ex (\<lambda>internal. ipv4_nets_intersect L n internal) (NON_HARD_INTERNAL_V4_NETS L)
         | Net6 n \<Rightarrow>
             ipv6_nets_intersect L n (IPV6_ULA_NET L)
             \<or> list_ex (\<lambda>internal. ipv6_nets_intersect L n (ipv4_net_to_mapped_ipv6 L internal))
                 (NON_HARD_INTERNAL_V4_NETS L)))"

section \<open>Lemmas\<close>

subsection \<open>Words as numbers\<close>

lemma and_not_mask: "x AND NOT (mask n) = push_bit n (drop_bit n x)" for x :: "'a::len word"
  by (rule bit_word_eqI) (auto simp: bit_simps)

lemma unat_and_not_mask:
  fixes x :: "'a::len word"
  assumes "n < LENGTH('a)"
  shows "unat (x AND NOT (mask n)) = unat x div 2 ^ n * 2 ^ n"
proof -
  have "unat x div 2 ^ n * 2 ^ n \<le> unat x" by simp
  also have "unat x < 2 ^ LENGTH('a)" by (rule unsigned_less)
  finally have "unat x div 2 ^ n * 2 ^ n < 2 ^ LENGTH('a)" .
  then show ?thesis
    unfolding and_not_mask unsigned_push_bit_eq unat_drop_bit_eq
    by (simp add: push_bit_eq_mult drop_bit_eq_div take_bit_eq_mod)
qed

lemma unat32: "unat (ip :: 32 word) < 4294967296"
  using unsigned_less [of ip, where ?'a = nat] by simp

lemma unat128: "unat (ip :: 128 word) < 2 ^ 128"
  using unsigned_less [of ip, where ?'a = nat] by simp

text \<open>The octets of an address, and its leading bits in terms of them.\<close>

lemma unat_octet: "unat (v4_octet i ip) = unat ip div 2 ^ (24 - 8 * i) mod 256"
proof -
  have "unat (v4_octet i ip) = take_bit 8 (unat (drop_bit (24 - 8 * i) ip))"
    by (simp add: v4_octet_def unsigned_ucast_eq)
  then show ?thesis unfolding unat_drop_bit_eq by (simp add: take_bit_eq_mod drop_bit_eq_div)
qed

lemma octet0: "unat (v4_octet 0 ip) = unat ip div 2 ^ 24"
proof -
  have "unat ip div 2 ^ 24 < 256" using unat32 [of ip] by (simp add: less_mult_imp_div_less)
  then show ?thesis by (simp add: unat_octet)
qed

lemma octet_word_eq: "v4_octet i ip = w \<longleftrightarrow> unat (v4_octet i ip) = unat w"
  by (simp add: word_unat_eq_iff)

lemma leading_16: "unat ip div 2 ^ 16 = unat (v4_octet 0 ip) * 256 + unat (v4_octet 1 ip)"
proof -
  have "unat ip div 2 ^ 24 = unat ip div 2 ^ 16 div 256" by (simp flip: div_mult2_eq)
  then show ?thesis unfolding octet0 by (simp add: unat_octet [of "Suc 0"])
qed

lemma leading_8: "unat ip div 2 ^ 8 = unat ip div 2 ^ 16 * 256 + unat (v4_octet 2 ip)"
proof -
  have "unat ip div 2 ^ 16 = unat ip div 2 ^ 8 div 256" by (simp flip: div_mult2_eq)
  then show ?thesis by (simp add: unat_octet [of 2])
qed

lemma octet_less: "unat (v4_octet i ip) < 256"
  by (simp add: unat_octet)

subsection \<open>Blocks of addresses\<close>

text \<open>
  A block is a set of numbers with common leading bits: all \<open>n\<close> with \<open>n div 2 ^ s = k\<close>. Each
  class of addresses is a union of blocks, and each network is one block.
\<close>

definition in_blocks :: "(nat \<times> nat) list \<Rightarrow> nat \<Rightarrow> bool" where
  "in_blocks bs n = (\<exists>(s, k)\<in>set bs. n div 2 ^ s = k)"

definition hard_blocks4 :: "(nat \<times> nat) list" where
  "hard_blocks4 = [(24, 127), (16, 43518), (0, 0)]"

definition soft_blocks4 :: "(nat \<times> nat) list" where
  "soft_blocks4 = [(24, 10), (20, 2753), (16, 49320), (22, 401), (8, 12582912), (8, 12582914), (17, 25353),
     (8, 12989284), (8, 13303921), (0, 4294967295)]"

definition mapped_blocks :: "(nat \<times> nat) list \<Rightarrow> (nat \<times> nat) list" where
  "mapped_blocks bs = map (\<lambda>(s, k). (s, 0xffff * 2 ^ (32 - s) + k)) bs"

definition hard_blocks6 :: "(nat \<times> nat) list" where
  "hard_blocks6 = [(0, 1), (0, 0), (118, 0x3fa)] @ mapped_blocks hard_blocks4"

definition soft_blocks6 :: "(nat \<times> nat) list" where
  "soft_blocks6 = (121, 0x7e) # mapped_blocks soft_blocks4"

lemma div_pow2_split: "(n :: nat) div 2 ^ (a + b) = n div 2 ^ a div 2 ^ b"
  by (simp add: power_add div_mult2_eq)

lemma digit_eq: "b < m \<Longrightarrow> a * m + b = n \<longleftrightarrow> a = n div m \<and> b = n mod m" for a b m n :: nat
  by auto

lemma leading_bits:
  "unat ip div 2 ^ 20 = unat (v4_octet 0 ip) * 16 + unat (v4_octet 1 ip) div 16"
  "unat ip div 2 ^ 22 = unat (v4_octet 0 ip) * 4 + unat (v4_octet 1 ip) div 64"
  "unat ip div 2 ^ 17 = unat (v4_octet 0 ip) * 128 + unat (v4_octet 1 ip) div 2"
  using div_pow2_split [of "unat ip" 16 4] div_pow2_split [of "unat ip" 16 6] div_pow2_split [of "unat ip" 16 1]
  unfolding leading_16 by simp_all

text \<open>Comparing a masked word with a constant compares leading bits.\<close>

lemma masked_eq_iff:
  fixes x m c :: "'a::len word"
  assumes "m = NOT (mask n)" and "n < LENGTH('a)" and "unat c = k * 2 ^ n"
  shows "x AND m = c \<longleftrightarrow> unat x div 2 ^ n = k"
  unfolding assms(1) word_unat_eq_iff [of "x AND _"] unat_and_not_mask [OF assms(2)] assms(3) by simp

lemma octet_masks:
  "v4_octet i ip AND 0xC0 = 64 \<longleftrightarrow> unat (v4_octet i ip) div 64 = 1"
  "v4_octet i ip AND 0xFE = 18 \<longleftrightarrow> unat (v4_octet i ip) div 2 = 9"
proof -
  have m: "(0xC0 :: 8 word) = NOT (mask 6)" "(0xFE :: 8 word) = NOT (mask 1)" by code_simp+
  show "v4_octet i ip AND 0xC0 = 64 \<longleftrightarrow> unat (v4_octet i ip) div 64 = 1"
    using masked_eq_iff [OF m(1), where c = 64 and k = 1 and x = "v4_octet i ip"] by simp
  show "v4_octet i ip AND 0xFE = 18 \<longleftrightarrow> unat (v4_octet i ip) div 2 = 9"
    using masked_eq_iff [OF m(2), where c = 18 and k = 9 and x = "v4_octet i ip"] by simp
qed

lemma segment_masks:
  "v6_segment0 ip AND 0xffc0 = 0xfe80 \<longleftrightarrow> unat ip div 2 ^ 118 = 0x3fa"
  "v6_segment0 ip AND 0xfe00 = 0xfc00 \<longleftrightarrow> unat ip div 2 ^ 121 = 0x7e"
proof -
  have "unat ip div 2 ^ 112 < 2 ^ 16" using unat128 [of ip] by (simp add: less_mult_imp_div_less)
  moreover have "unat (v6_segment0 ip) = take_bit 16 (unat (drop_bit 112 ip))"
    by (simp add: v6_segment0_def unsigned_ucast_eq)
  ultimately have u: "unat (v6_segment0 ip) = unat ip div 2 ^ 112"
    unfolding unat_drop_bit_eq by (simp add: take_bit_eq_mod drop_bit_eq_div)
  have m: "(0xffc0 :: 16 word) = NOT (mask 6)" "(0xfe00 :: 16 word) = NOT (mask 9)" by code_simp+
  show "v6_segment0 ip AND 0xffc0 = 0xfe80 \<longleftrightarrow> unat ip div 2 ^ 118 = 0x3fa"
    using masked_eq_iff [OF m(1), where c = "0xfe80" and k = "0x3fa" and x = "v6_segment0 ip"] div_pow2_split [of "unat ip" 112 6] by (simp add: u)
  show "v6_segment0 ip AND 0xfe00 = 0xfc00 \<longleftrightarrow> unat ip div 2 ^ 121 = 0x7e"
    using masked_eq_iff [OF m(2), where c = "0xfc00" and k = "0x7e" and x = "v6_segment0 ip"] div_pow2_split [of "unat ip" 112 9] by (simp add: u)
qed

lemmas octet_const = octet_word_eq [of _ _ "numeral _"] octet_word_eq [of _ _ 0]

lemma v4_hard:
  "v4_is_loopback ip \<longleftrightarrow> unat ip div 2 ^ 24 = 127"
  "v4_is_link_local ip \<longleftrightarrow> unat ip div 2 ^ 16 = 43518"
  "v4_is_unspecified ip \<longleftrightarrow> unat ip = 0"
proof -
  show "v4_is_loopback ip \<longleftrightarrow> unat ip div 2 ^ 24 = 127"
    unfolding v4_is_loopback_def octet_const octet0 by simp
  show "v4_is_link_local ip \<longleftrightarrow> unat ip div 2 ^ 16 = 43518"
    unfolding v4_is_link_local_def octet_const leading_16
    by (subst digit_eq [OF octet_less]) simp
  show "v4_is_unspecified ip \<longleftrightarrow> unat ip = 0" by (simp add: v4_is_unspecified_def unat_eq_0)
qed

lemma always_blocked4: "is_always_blocked_ip (Ip4 ip) \<longleftrightarrow> in_blocks hard_blocks4 (unat ip)"
  by (simp add: is_always_blocked_ip_def v4_hard in_blocks_def hard_blocks4_def)

lemma v4_soft:
  "v4_is_private ip \<longleftrightarrow> unat ip div 2 ^ 24 = 10 \<or> unat ip div 2 ^ 20 = 2753 \<or> unat ip div 2 ^ 16 = 49320"
  "v4_is_documentation ip \<longleftrightarrow>
     unat ip div 2 ^ 8 = 12582914 \<or> unat ip div 2 ^ 8 = 12989284 \<or> unat ip div 2 ^ 8 = 13303921"
  "v4_is_broadcast ip \<longleftrightarrow> unat ip = 4294967295"
  "v4_octet 0 ip = 100 \<and> v4_octet 1 ip AND 0xC0 = 64 \<longleftrightarrow> unat ip div 2 ^ 22 = 401"
  "v4_octet 0 ip = 192 \<and> v4_octet 1 ip = 0 \<and> v4_octet 2 ip = 0 \<longleftrightarrow> unat ip div 2 ^ 8 = 12582912"
  "v4_octet 0 ip = 198 \<and> v4_octet 1 ip AND 0xFE = 18 \<longleftrightarrow> unat ip div 2 ^ 17 = 25353"
proof -
  define a b c where "a = unat (v4_octet 0 ip)" and "b = unat (v4_octet 1 ip)" and "c = unat (v4_octet 2 ip)"
  have abc: "a < 256" "b < 256" "c < 256" unfolding a_def b_def c_def by (rule octet_less)+
  have small: "b div 16 < 16" "b div 64 < 4" "b div 2 < 128" using abc(2) by auto
  have mid: "b div 16 = Suc 0 \<longleftrightarrow> 16 \<le> b \<and> b \<le> 31" by auto
  have o: "v4_octet 0 ip = w \<longleftrightarrow> a = unat w" "v4_octet 1 ip = w \<longleftrightarrow> b = unat w" "v4_octet 2 ip = w \<longleftrightarrow> c = unat w" for w
    unfolding a_def b_def c_def by (rule octet_word_eq)+
  have lead: "unat ip div 2 ^ 24 = a" "unat ip div 2 ^ 20 = a * 16 + b div 16" "unat ip div 2 ^ 22 = a * 4 + b div 64"
    "unat ip div 2 ^ 17 = a * 128 + b div 2" "unat ip div 2 ^ 16 = a * 256 + b" "unat ip div 2 ^ 8 = (a * 256 + b) * 256 + c"
    unfolding a_def b_def c_def leading_bits leading_16 leading_8 octet0 [symmetric] by (rule refl)+
  have le: "16 \<le> v4_octet 1 ip \<longleftrightarrow> 16 \<le> b" "v4_octet 1 ip \<le> 31 \<longleftrightarrow> b \<le> 31"
    unfolding b_def word_le_nat_alt by simp_all
  have masks: "v4_octet 1 ip AND 0xC0 = 64 \<longleftrightarrow> b div 64 = 1" "v4_octet 1 ip AND 0xFE = 18 \<longleftrightarrow> b div 2 = 9"
    unfolding b_def by (rule octet_masks)+
  show "v4_is_private ip \<longleftrightarrow> unat ip div 2 ^ 24 = 10 \<or> unat ip div 2 ^ 20 = 2753 \<or> unat ip div 2 ^ 16 = 49320"
    unfolding v4_is_private_def o le lead digit_eq [OF abc(2)] digit_eq [OF small(1)] by (auto simp: mid)
  show "v4_is_documentation ip \<longleftrightarrow>
     unat ip div 2 ^ 8 = 12582914 \<or> unat ip div 2 ^ 8 = 12989284 \<or> unat ip div 2 ^ 8 = 13303921"
    unfolding v4_is_documentation_def o lead digit_eq [OF abc(3)] digit_eq [OF abc(2)] by simp
  show "v4_is_broadcast ip \<longleftrightarrow> unat ip = 4294967295"
    unfolding v4_is_broadcast_def v4_new_def word_unat_eq_iff by (simp add: unat_of_nat)
  show "v4_octet 0 ip = 100 \<and> v4_octet 1 ip AND 0xC0 = 64 \<longleftrightarrow> unat ip div 2 ^ 22 = 401"
    unfolding o masks lead digit_eq [OF small(2)] by simp
  show "v4_octet 0 ip = 192 \<and> v4_octet 1 ip = 0 \<and> v4_octet 2 ip = 0 \<longleftrightarrow> unat ip div 2 ^ 8 = 12582912"
    unfolding o lead digit_eq [OF abc(3)] digit_eq [OF abc(2)] by simp
  show "v4_octet 0 ip = 198 \<and> v4_octet 1 ip AND 0xFE = 18 \<longleftrightarrow> unat ip div 2 ^ 17 = 25353"
    unfolding o masks lead digit_eq [OF small(3)] by simp
qed

lemma internal4: "is_internal_v4 ip \<longleftrightarrow> in_blocks (hard_blocks4 @ soft_blocks4) (unat ip)"
  unfolding is_internal_v4_def v4_hard v4_soft in_blocks_def hard_blocks4_def soft_blocks4_def by auto

subsection \<open>Mapped addresses\<close>

lemma to_ipv4_mapped_Some:
  "to_ipv4_mapped ip = Some v4 \<longleftrightarrow> unat ip div 2 ^ 32 = 0xffff \<and> unat v4 = unat ip mod 2 ^ 32"
proof -
  have "drop_bit 32 ip = 0xffff \<longleftrightarrow> unat ip div 2 ^ 32 = 0xffff"
    unfolding word_unat_eq_iff unat_drop_bit_eq by (simp add: drop_bit_eq_div)
  moreover have "ucast ip = v4 \<longleftrightarrow> unat v4 = unat ip mod 2 ^ 32"
    unfolding word_unat_eq_iff unsigned_ucast_eq by (auto simp: take_bit_eq_mod)
  ultimately show ?thesis by (simp add: to_ipv4_mapped_def)
qed

lemma to_ipv4_mapped_None: "to_ipv4_mapped ip = None \<longleftrightarrow> unat ip div 2 ^ 32 \<noteq> 0xffff"
  unfolding to_ipv4_mapped_def word_unat_eq_iff unat_drop_bit_eq by (simp add: drop_bit_eq_div)

lemma unat_to_ipv6_mapped: "unat (to_ipv6_mapped v4) = 0xffff * 2 ^ 32 + unat v4"
proof -
  have "unat (ucast v4 :: 128 word) = unat v4"
    unfolding unsigned_ucast_eq using less_trans [OF unat32 [of v4], of "2 ^ 128"] by (simp add: take_bit_eq_mod)
  moreover have "unat (word_of_nat (0xffff * 2 ^ 32) :: 128 word) = 0xffff * 2 ^ 32" by (simp add: unat_of_nat)
  moreover have "0xffff * 2 ^ 32 + unat v4 < 2 ^ 128" using unat32 [of v4] by simp
  ultimately show ?thesis by (simp add: to_ipv6_mapped_def unat_word_ariths)
qed

lemma mapped_round_trip [simp]: "to_ipv4_mapped (to_ipv6_mapped v4) = Some v4"
proof -
  have "(0xffff * 2 ^ 32 + unat v4) div 2 ^ 32 = 0xffff + unat v4 div 2 ^ 32" by (rule div_mult_self3) simp
  moreover have "(0xffff * 2 ^ 32 + unat v4) mod 2 ^ 32 = unat v4 mod 2 ^ 32" by (rule mod_mult_self3)
  ultimately show ?thesis unfolding to_ipv4_mapped_Some unat_to_ipv6_mapped using unat32 [of v4] by simp
qed

definition blocks4_ok :: "(nat \<times> nat) list \<Rightarrow> bool" where
  "blocks4_ok bs = list_all (\<lambda>(s, k). s \<le> 32 \<and> k < 2 ^ (32 - s)) bs"

lemma blocks4_ok_consts [simp]: "blocks4_ok hard_blocks4" "blocks4_ok soft_blocks4"
  by (simp_all add: blocks4_ok_def hard_blocks4_def soft_blocks4_def)

lemma mapped_block:
  fixes n k :: nat
  assumes "s \<le> 32"
  shows "n div 2 ^ s = 0xffff * 2 ^ (32 - s) + k \<and> k < 2 ^ (32 - s)
    \<longleftrightarrow> n div 2 ^ 32 = 0xffff \<and> (n mod 2 ^ 32) div 2 ^ s = k"
proof -
  have p: "(2 :: nat) ^ 32 = 2 ^ s * 2 ^ (32 - s)" using assms by (simp flip: power_add)
  have l: "(n mod 2 ^ 32) div 2 ^ s < 2 ^ (32 - s)"
  proof (rule less_mult_imp_div_less)
    have "n mod 2 ^ 32 < 2 ^ 32" by (rule mod_less_divisor) simp
    then show "n mod 2 ^ 32 < 2 ^ (32 - s) * 2 ^ s" unfolding p by (simp only: mult.commute)
  qed
  have "n div 2 ^ 32 * 2 ^ 32 = n div 2 ^ 32 * 2 ^ (32 - s) * 2 ^ s" by (simp only: p mult.assoc mult.commute [of "2 ^ s"])
  then have "n = n div 2 ^ 32 * 2 ^ (32 - s) * 2 ^ s + n mod 2 ^ 32" by (metis div_mult_mod_eq)
  then have "n div 2 ^ s = (n div 2 ^ 32 * 2 ^ (32 - s) * 2 ^ s + n mod 2 ^ 32) div 2 ^ s" by (rule arg_cong)
  also have "\<dots> = n div 2 ^ 32 * 2 ^ (32 - s) + (n mod 2 ^ 32) div 2 ^ s" by (rule div_mult_self3) simp
  finally have e: "n div 2 ^ s = n div 2 ^ 32 * 2 ^ (32 - s) + (n mod 2 ^ 32) div 2 ^ s" .
  show ?thesis unfolding e digit_eq [OF l] using l by auto
qed

lemma in_blocks_mapped:
  assumes "blocks4_ok bs"
  shows "in_blocks (mapped_blocks bs) n \<longleftrightarrow> n div 2 ^ 32 = 0xffff \<and> in_blocks bs (n mod 2 ^ 32)"
proof -
  have one: "n div 2 ^ fst b = 0xffff * 2 ^ (32 - fst b) + snd b
      \<longleftrightarrow> n div 2 ^ 32 = 0xffff \<and> (n mod 2 ^ 32) div 2 ^ fst b = snd b" if "b \<in> set bs" for b
  proof -
    have "fst b \<le> 32" "snd b < 2 ^ (32 - fst b)"
      using that assms by (auto simp: blocks4_ok_def list_all_iff)
    then show ?thesis using mapped_block [of "fst b" n "snd b"] by blast
  qed
  have "in_blocks (mapped_blocks bs) n \<longleftrightarrow> (\<exists>b\<in>set bs. n div 2 ^ fst b = 0xffff * 2 ^ (32 - fst b) + snd b)"
    unfolding in_blocks_def mapped_blocks_def set_map case_prod_beta by simp
  also have "\<dots> \<longleftrightarrow> (\<exists>b\<in>set bs. n div 2 ^ 32 = 0xffff \<and> (n mod 2 ^ 32) div 2 ^ fst b = snd b)"
    by (rule bex_cong [OF refl one])
  also have "\<dots> \<longleftrightarrow> n div 2 ^ 32 = 0xffff \<and> in_blocks bs (n mod 2 ^ 32)"
    unfolding in_blocks_def case_prod_beta by blast
  finally show ?thesis .
qed

lemma in_blocks_append [simp]: "in_blocks (as @ bs) n \<longleftrightarrow> in_blocks as n \<or> in_blocks bs n"
  by (auto simp: in_blocks_def)

lemma v6_small: "v6_is_loopback ip \<longleftrightarrow> unat ip = 1" "v6_is_unspecified ip \<longleftrightarrow> unat ip = 0"
  by (simp_all add: v6_is_loopback_def v6_is_unspecified_def word_unat_eq_iff)

lemma in_blocks_Cons:
  "in_blocks ((t, j) # bs) n \<longleftrightarrow> n div 2 ^ t = j \<or> in_blocks bs n" "in_blocks [] n \<longleftrightarrow> False"
  by (simp_all add: in_blocks_def)

lemma always_blocked6: "is_always_blocked_ip (Ip6 ip) \<longleftrightarrow> in_blocks hard_blocks6 (unat ip)"
proof -
  have m: "in_blocks (mapped_blocks hard_blocks4) (unat ip) \<longleftrightarrow>
      (\<exists>v4. to_ipv4_mapped ip = Some v4 \<and> (v4_is_loopback v4 \<or> v4_is_link_local v4 \<or> v4_is_unspecified v4))"
  proof (cases "to_ipv4_mapped ip")
    case None
    then show ?thesis using to_ipv4_mapped_None [of ip] by (simp add: in_blocks_mapped)
  next
    case (Some v4)
    then have "unat ip div 2 ^ 32 = 0xffff" "unat v4 = unat ip mod 2 ^ 32" by (simp_all add: to_ipv4_mapped_Some)
    moreover have "in_blocks hard_blocks4 (unat v4) \<longleftrightarrow> v4_is_loopback v4 \<or> v4_is_link_local v4 \<or> v4_is_unspecified v4"
      using always_blocked4 [of v4] by (simp add: is_always_blocked_ip_def)
    ultimately show ?thesis using Some by (simp add: in_blocks_mapped)
  qed
  have s: "in_blocks [(0, 1), (0, 0), (118, 0x3fa)] (unat ip) \<longleftrightarrow>
      v6_is_loopback ip \<or> v6_is_unspecified ip \<or> v6_segment0 ip AND 0xffc0 = 0xfe80"
    unfolding segment_masks by (simp add: v6_small in_blocks_def)
  show ?thesis
    unfolding hard_blocks6_def in_blocks_append m s
    by (auto simp: is_always_blocked_ip_def is_link_local_ip_def split: option.splits)
qed

lemma internal6: "is_internal_ip (Ip6 ip) \<longleftrightarrow> in_blocks (hard_blocks6 @ soft_blocks6) (unat ip)"
proof -
  have m: "in_blocks (mapped_blocks soft_blocks4) (unat ip) \<longleftrightarrow>
      (\<exists>v4. to_ipv4_mapped ip = Some v4 \<and> in_blocks soft_blocks4 (unat v4))"
  proof (cases "to_ipv4_mapped ip")
    case None
    then show ?thesis using to_ipv4_mapped_None [of ip] by (simp add: in_blocks_mapped)
  next
    case (Some v4)
    then have "unat ip div 2 ^ 32 = 0xffff" "unat v4 = unat ip mod 2 ^ 32" by (simp_all add: to_ipv4_mapped_Some)
    then show ?thesis using Some by (simp add: in_blocks_mapped)
  qed
  have i: "is_internal_v4 v4 \<longleftrightarrow> is_always_blocked_ip (Ip4 v4) \<or> in_blocks soft_blocks4 (unat v4)" for v4
    by (simp add: internal4 always_blocked4)
  have s: "in_blocks soft_blocks6 (unat ip) \<longleftrightarrow> v6_segment0 ip AND 0xfe00 = 0xfc00
      \<or> in_blocks (mapped_blocks soft_blocks4) (unat ip)"
    unfolding segment_masks soft_blocks6_def in_blocks_def by auto
  show ?thesis
    unfolding in_blocks_append s m always_blocked6 [symmetric]
    by (auto simp: is_internal_ip_def i is_always_blocked_ip_def is_link_local_ip_def split: option.splits)
qed

subsection \<open>Networks\<close>

text \<open>
  The documented behaviour of the network types: a network has a prefix length, its network
  address has the host bits cleared, its broadcast address has them set, it contains the
  addresses between the two, and a network built from an address and a prefix length has that
  prefix length and the truncated address.
\<close>

definition ipnet_ok :: "('n4, 'n6) ipnet_lib \<Rightarrow> bool" where
  "ipnet_ok L =
     ((\<forall>n. n4_prefix_len L n \<le> 32
         \<and> unat (n4_network L n) mod 2 ^ (32 - n4_prefix_len L n) = 0
         \<and> unat (n4_broadcast L n) = unat (n4_network L n) + (2 ^ (32 - n4_prefix_len L n) - 1))
      \<and> (\<forall>a p. p \<le> 32 \<longrightarrow> n4_prefix_len L (n4_new L a p) = p
           \<and> unat (n4_network L (n4_new L a p)) = unat a div 2 ^ (32 - p) * 2 ^ (32 - p))
      \<and> (\<forall>n. \<exists>p\<le>128. unat (n6_network L n) mod 2 ^ (128 - p) = 0
           \<and> unat (n6_broadcast L n) = unat (n6_network L n) + (2 ^ (128 - p) - 1))
      \<and> (\<forall>n a. n6_contains L n a \<longleftrightarrow> n6_network L n \<le> a \<and> a \<le> n6_broadcast L n)
      \<and> (\<forall>a p. p \<le> 128 \<longrightarrow>
           unat (n6_network L (n6_new L a p)) = unat a div 2 ^ (128 - p) * 2 ^ (128 - p)
           \<and> unat (n6_broadcast L (n6_new L a p)) = unat (n6_network L (n6_new L a p)) + (2 ^ (128 - p) - 1)))"

definition net_member :: "('n4, 'n6) ipnet_lib \<Rightarrow> ('n4, 'n6) IpNet \<Rightarrow> IpAddress \<Rightarrow> bool" where
  "net_member L net ip =
     (case (net, ip) of
        (Net4 n, Ip4 a) \<Rightarrow> n4_network L n \<le> a \<and> a \<le> n4_broadcast L n
      | (Net6 n, Ip6 a) \<Rightarrow> n6_contains L n a
      | _ \<Rightarrow> False)"

lemma net_member_ex:
  "(\<exists>ip. net_member L (Net4 n) ip \<and> Q ip) \<longleftrightarrow> (\<exists>a. (n4_network L n \<le> a \<and> a \<le> n4_broadcast L n) \<and> Q (Ip4 a))"
  "(\<exists>ip. net_member L (Net6 n') ip \<and> Q ip) \<longleftrightarrow> (\<exists>a. n6_contains L n' a \<and> Q (Ip6 a))"
proof -
  have ex: "(\<exists>ip. P ip) \<longleftrightarrow> (\<exists>a. P (Ip4 a)) \<or> (\<exists>a. P (Ip6 a))" for P :: "IpAddress \<Rightarrow> bool"
    by (metis IpAddress.exhaust)
  show "(\<exists>ip. net_member L (Net4 n) ip \<and> Q ip) \<longleftrightarrow> (\<exists>a. (n4_network L n \<le> a \<and> a \<le> n4_broadcast L n) \<and> Q (Ip4 a))"
    "(\<exists>ip. net_member L (Net6 n') ip \<and> Q ip) \<longleftrightarrow> (\<exists>a. n6_contains L n' a \<and> Q (Ip6 a))"
    unfolding ex by (simp_all add: net_member_def)
qed

lemma block_range: "n div 2 ^ s = k \<longleftrightarrow> k * 2 ^ s \<le> n \<and> n \<le> k * 2 ^ s + (2 ^ s - 1)" for n s k :: nat
proof
  assume "n div 2 ^ s = k"
  then have "n = k * 2 ^ s + n mod 2 ^ s" using div_mult_mod_eq [of n "2 ^ s"] by simp
  moreover have "n mod 2 ^ s < 2 ^ s" by simp
  ultimately show "k * 2 ^ s \<le> n \<and> n \<le> k * 2 ^ s + (2 ^ s - 1)" by linarith
next
  assume a: "k * 2 ^ s \<le> n \<and> n \<le> k * 2 ^ s + (2 ^ s - 1)"
  define r where "r = n - k * 2 ^ s"
  have "(0 :: nat) < 2 ^ s" by simp
  then have "r < 2 ^ s" and "n = k * 2 ^ s + r" using a unfolding r_def by linarith+
  then show "n div 2 ^ s = k" by simp
qed

text \<open>Two blocks meet exactly when their bounds cross.\<close>

lemma intervals_meet:
  "(\<exists>n. (a \<le> n \<and> n \<le> a + d) \<and> b \<le> n \<and> n \<le> b + e) \<longleftrightarrow> a \<le> b + e \<and> b \<le> a + d" for a b d e :: nat
  by (auto intro: exI [of _ "max a b"])

lemma blocks_meet_bounds:
  fixes k j :: nat
  shows "(\<exists>n. n div 2 ^ s = k \<and> n div 2 ^ t = j)
   \<longleftrightarrow> k * 2 ^ s \<le> j * 2 ^ t + (2 ^ t - 1) \<and> j * 2 ^ t \<le> k * 2 ^ s + (2 ^ s - 1)"
  unfolding block_range by (rule intervals_meet)

text \<open>Two blocks are nested or disjoint, so one point of each decides whether they meet.\<close>

lemma blocks_meet_points:
  fixes k j m x :: nat
  assumes "x div 2 ^ s = k" and "m div 2 ^ t = j"
  shows "(\<exists>n. n div 2 ^ s = k \<and> n div 2 ^ t = j) \<longleftrightarrow> x div 2 ^ t = j \<or> m div 2 ^ s = k"
proof
  assume "\<exists>n. n div 2 ^ s = k \<and> n div 2 ^ t = j"
  then obtain n where n: "n div 2 ^ s = k" "n div 2 ^ t = j" by blast
  show "x div 2 ^ t = j \<or> m div 2 ^ s = k"
  proof (cases "s \<le> t")
    case True
    then have "y div 2 ^ t = y div 2 ^ s div 2 ^ (t - s)" for y :: nat
      using div_pow2_split [of y s "t - s"] by simp
    then show ?thesis using n assms(1) by simp
  next
    case False
    then have "y div 2 ^ s = y div 2 ^ t div 2 ^ (s - t)" for y :: nat
      using div_pow2_split [of y t "s - t"] by simp
    then show ?thesis using n assms(2) by simp
  qed
qed (use assms in blast)


lemma meet_in_blocks:
  "(\<exists>n. P n \<and> in_blocks [] n) \<longleftrightarrow> False"
  "(\<exists>n. P n \<and> in_blocks ((t, j) # bs) n) \<longleftrightarrow> (\<exists>n. P n \<and> n div 2 ^ t = j) \<or> (\<exists>n. P n \<and> in_blocks bs n)"
  by (auto simp: in_blocks_def)

lemma blocks_meet_list:
  assumes "list_all2 (\<lambda>(t, j) m. m div 2 ^ t = j) bs ms" and "x div 2 ^ s = k"
  shows "(\<exists>n. n div 2 ^ s = k \<and> in_blocks bs n) \<longleftrightarrow> in_blocks bs x \<or> (\<exists>m\<in>set ms. m div 2 ^ s = k)"
  using assms(1)
proof (induction rule: list_all2_induct)
  case Nil
  then show ?case by (simp add: in_blocks_def)
next
  case (Cons b bs m ms)
  obtain t j where b: "b = (t, j)" by (cases b)
  have "(\<exists>n. n div 2 ^ s = k \<and> n div 2 ^ t = j) \<longleftrightarrow> x div 2 ^ t = j \<or> m div 2 ^ s = k"
    using Cons(1) by (intro blocks_meet_points [OF assms(2)]) (simp add: b)
  moreover have "in_blocks (b # bs) n \<longleftrightarrow> n div 2 ^ t = j \<or> in_blocks bs n" for n
    by (simp add: in_blocks_def b)
  ultimately show ?case using Cons.IH by auto
qed

text \<open>Each network is a block.\<close>

lemma net4_block:
  assumes "ipnet_ok L"
  obtains s k where "unat (n4_network L n) = k * 2 ^ s" and "unat (n4_broadcast L n) = k * 2 ^ s + (2 ^ s - 1)"
    and "\<And>a. n4_network L n \<le> a \<and> a \<le> n4_broadcast L n \<longleftrightarrow> unat a div 2 ^ s = k"
proof -
  define s where "s = 32 - n4_prefix_len L n"
  define k where "k = unat (n4_network L n) div 2 ^ s"
  have net: "unat (n4_network L n) mod 2 ^ s = 0" and bc: "unat (n4_broadcast L n) = unat (n4_network L n) + (2 ^ s - 1)"
  proof -
    have "\<forall>n. n4_prefix_len L n \<le> 32
         \<and> unat (n4_network L n) mod 2 ^ (32 - n4_prefix_len L n) = 0
         \<and> unat (n4_broadcast L n) = unat (n4_network L n) + (2 ^ (32 - n4_prefix_len L n) - 1)"
      using assms unfolding ipnet_ok_def by (elim conjE)
    then show "unat (n4_network L n) mod 2 ^ s = 0" "unat (n4_broadcast L n) = unat (n4_network L n) + (2 ^ s - 1)"
      unfolding s_def by blast+
  qed
  have nk: "unat (n4_network L n) = k * 2 ^ s" using net div_mult_mod_eq [of "unat (n4_network L n)" "2 ^ s"] by (simp add: k_def)
  have "n4_network L n \<le> a \<and> a \<le> n4_broadcast L n \<longleftrightarrow> unat a div 2 ^ s = k" for a
    unfolding word_le_nat_alt bc nk block_range by (rule refl)
  then show thesis using that [OF nk _] bc nk by simp
qed

lemma net6_block:
  assumes "ipnet_ok L"
  obtains s k where "unat (n6_network L n) = k * 2 ^ s" and "unat (n6_broadcast L n) = k * 2 ^ s + (2 ^ s - 1)"
    and "\<And>a. n6_contains L n a \<longleftrightarrow> unat a div 2 ^ s = k"
proof -
  have "\<forall>n. \<exists>p\<le>128. unat (n6_network L n) mod 2 ^ (128 - p) = 0
           \<and> unat (n6_broadcast L n) = unat (n6_network L n) + (2 ^ (128 - p) - 1)"
    using assms unfolding ipnet_ok_def by (elim conjE)
  then obtain p where net: "unat (n6_network L n) mod 2 ^ (128 - p) = 0"
    and bc: "unat (n6_broadcast L n) = unat (n6_network L n) + (2 ^ (128 - p) - 1)"
    by (elim allE [of _ n] exE conjE)
  define s where "s = 128 - p"
  define k where "k = unat (n6_network L n) div 2 ^ s"
  have nk: "unat (n6_network L n) = k * 2 ^ s"
    using net div_mult_mod_eq [of "unat (n6_network L n)" "2 ^ s"] by (simp add: k_def s_def)
  have "\<forall>n a. n6_contains L n a \<longleftrightarrow> n6_network L n \<le> a \<and> a \<le> n6_broadcast L n"
    using assms unfolding ipnet_ok_def by (elim conjE)
  then have c: "n6_contains L n a \<longleftrightarrow> n6_network L n \<le> a \<and> a \<le> n6_broadcast L n" for a by (elim allE)
  have "n6_contains L n a \<longleftrightarrow> unat a div 2 ^ s = k" for a
    unfolding c word_le_nat_alt bc [folded s_def] nk block_range by (rule refl)
  then show thesis using that [OF nk _] bc [folded s_def] nk by simp
qed

lemma ex_word_iff:
  fixes P :: "nat \<Rightarrow> bool"
  assumes "\<And>n. P n \<Longrightarrow> n < 2 ^ LENGTH('a)"
  shows "(\<exists>a :: 'a::len word. P (unat a)) \<longleftrightarrow> (\<exists>n. P n)"
proof
  assume "\<exists>n. P n"
  then obtain n where n: "P n" by blast
  then have "unat (word_of_nat n :: 'a word) = n" using assms by (simp add: unat_of_nat)
  then show "\<exists>a :: 'a word. P (unat a)" using n by metis
qed blast

lemma net4_meets:
  assumes "\<And>a :: Ipv4Addr. Q a \<longleftrightarrow> in_blocks bs (unat a)"
    and "unat (n4_broadcast L n) = k * 2 ^ s + (2 ^ s - 1)"
    and "\<And>a. n4_network L n \<le> a \<and> a \<le> n4_broadcast L n \<longleftrightarrow> unat a div 2 ^ s = k"
  shows "(\<exists>a. (n4_network L n \<le> a \<and> a \<le> n4_broadcast L n) \<and> Q a) \<longleftrightarrow> (\<exists>m. m div 2 ^ s = k \<and> in_blocks bs m)"
proof -
  have b: "m < 2 ^ LENGTH(32)" if "m div 2 ^ s = k \<and> in_blocks bs m" for m
  proof -
    have "m \<le> unat (n4_broadcast L n)" using that unfolding assms(2) block_range by blast
    then show ?thesis using unat32 [of "n4_broadcast L n"] by simp
  qed
  show ?thesis unfolding assms(1,3) by (rule ex_word_iff [OF b])
qed

lemma net6_meets:
  assumes "\<And>a :: Ipv6Addr. Q a \<longleftrightarrow> in_blocks bs (unat a)"
    and "unat (n6_broadcast L n) = k * 2 ^ s + (2 ^ s - 1)"
    and "\<And>a. n6_contains L n a \<longleftrightarrow> unat a div 2 ^ s = k"
  shows "(\<exists>a. n6_contains L n a \<and> Q a) \<longleftrightarrow> (\<exists>m. m div 2 ^ s = k \<and> in_blocks bs m)"
proof -
  have b: "m < 2 ^ LENGTH(128)" if "m div 2 ^ s = k \<and> in_blocks bs m" for m
  proof -
    have "m \<le> unat (n6_broadcast L n)" using that unfolding assms(2) block_range by blast
    then show ?thesis using unat128 [of "n6_broadcast L n"] by simp
  qed
  show ?thesis unfolding assms(1,3) by (rule ex_word_iff [OF b])
qed


subsection \<open>The network checks\<close>

lemma unat_v4_new: "((a * 256 + b) * 256 + c) * 256 + d < 2 ^ 32 \<Longrightarrow> unat (v4_new a b c d) = ((a * 256 + b) * 256 + c) * 256 + d"
  unfolding v4_new_def unat_of_nat by simp

lemma blocked_net4:
  assumes "ipnet_ok L" and "unat (n4_network L n) = k * 2 ^ s" and "unat (n4_broadcast L n) = k * 2 ^ s + (2 ^ s - 1)"
  shows "is_always_blocked_net L (Net4 n) \<longleftrightarrow> (\<exists>m. m div 2 ^ s = k \<and> in_blocks hard_blocks4 m)"
proof -
  have "is_always_blocked_net L (Net4 n) \<longleftrightarrow>
      (127 * 2 ^ 24 \<le> k * 2 ^ s + (2 ^ s - 1) \<and> k * 2 ^ s \<le> 127 * 2 ^ 24 + (2 ^ 24 - 1))
      \<or> (43518 * 2 ^ 16 \<le> k * 2 ^ s + (2 ^ s - 1) \<and> k * 2 ^ s \<le> 43518 * 2 ^ 16 + (2 ^ 16 - 1))
      \<or> k * 2 ^ s = 0"
    unfolding is_always_blocked_net_def
    by (simp add: word_le_nat_alt unat_v4_new assms(2,3) word_unat_eq_iff [of "n4_network L n"] Let_def)
  also have "\<dots> \<longleftrightarrow> (\<exists>m. m div 2 ^ s = k \<and> m div 2 ^ 24 = 127) \<or> (\<exists>m. m div 2 ^ s = k \<and> m div 2 ^ 16 = 43518)
      \<or> (\<exists>m. m div 2 ^ s = k \<and> m div 2 ^ 0 = 0)"
    unfolding blocks_meet_bounds by (intro arg_cong2 [where f = "(\<or>)"]) auto
  also have "\<dots> \<longleftrightarrow> (\<exists>m. m div 2 ^ s = k \<and> in_blocks hard_blocks4 m)"
    unfolding hard_blocks4_def meet_in_blocks by (simp only: simp_thms)
  finally show ?thesis .
qed


definition hard_points6 :: "nat list" where
  "hard_points6 = [1, 0, 0xfe80 * 2 ^ 112, 0xffff * 2 ^ 32 + 2130706433, 0xffff * 2 ^ 32 + 2851995648, 0xffff * 2 ^ 32]"

lemma hard_points6_blocks: "list_all2 (\<lambda>(t, j) m. m div 2 ^ t = j) hard_blocks6 hard_points6"
  by (simp add: hard_blocks6_def hard_blocks4_def mapped_blocks_def hard_points6_def)

lemma blocked_net6:
  assumes "ipnet_ok L" and "unat (n6_network L n) = k * 2 ^ s"
    and "\<And>a. n6_contains L n a \<longleftrightarrow> unat a div 2 ^ s = k"
  shows "is_always_blocked_net L (Net6 n) \<longleftrightarrow> (\<exists>m. m div 2 ^ s = k \<and> in_blocks hard_blocks6 m)"
proof -
  let ?x = "n6_network L n"
  have x: "unat ?x div 2 ^ s = k" by (simp add: assms(2))
  have own: "n6_contains L n ?x" by (simp add: assms(3) x)
  have pts: "(\<exists>m\<in>set hard_points6. m div 2 ^ s = k) \<longleftrightarrow>
      n6_contains L n 1 \<or> n6_contains L n 0 \<or> n6_contains L n (v6_new0 0xfe80)
      \<or> n6_contains L n (to_ipv6_mapped (v4_new 127 0 0 1)) \<or> n6_contains L n (to_ipv6_mapped (v4_new 169 254 0 0))
      \<or> n6_contains L n (to_ipv6_mapped 0)"
  proof -
    have "unat (v6_new0 0xfe80) = 0xfe80 * 2 ^ 112" unfolding v6_new0_def unat_of_nat by simp
    moreover have "unat (to_ipv6_mapped (v4_new 127 0 0 1)) = 0xffff * 2 ^ 32 + 2130706433"
      "unat (to_ipv6_mapped (v4_new 169 254 0 0)) = 0xffff * 2 ^ 32 + 2851995648"
      "unat (to_ipv6_mapped 0) = 0xffff * 2 ^ 32"
      by (simp_all add: unat_to_ipv6_mapped unat_v4_new)
    ultimately show ?thesis unfolding assms(3) hard_points6_def by simp
  qed
  have blk: "in_blocks hard_blocks6 (unat ?x) \<longleftrightarrow> is_always_blocked_ip (Ip6 ?x)" by (simp add: always_blocked6)
  have "is_always_blocked_net L (Net6 n) \<longleftrightarrow> is_always_blocked_ip (Ip6 ?x) \<or> (\<exists>m\<in>set hard_points6. m div 2 ^ s = k)"
  proof -
    have one: "v6_is_loopback ?x \<Longrightarrow> n6_contains L n 1" "v6_is_unspecified ?x \<Longrightarrow> n6_contains L n 0"
      using own by (simp_all add: v6_is_loopback_def v6_is_unspecified_def)
    show ?thesis
      unfolding pts using one
      by (auto simp: is_always_blocked_net_def is_always_blocked_ip_def is_link_local_ip_def Let_def split: option.splits)
  qed
  then show ?thesis using blocks_meet_list [OF hard_points6_blocks x] blk by simp
qed


text \<open>The special-use networks, and the blocks they are.\<close>

definition soft_nets4 :: "(Ipv4Addr \<times> nat) list" where
  "soft_nets4 =
     [(v4_new 10 0 0 0, 8), (v4_new 172 16 0 0, 12), (v4_new 192 168 0 0, 16), (v4_new 100 64 0 0, 10),
      (v4_new 192 0 0 0, 24), (v4_new 192 0 2 0, 24), (v4_new 198 18 0 0, 15), (v4_new 198 51 100 0, 24),
      (v4_new 203 0 113 0, 24), (v4_new 255 255 255 255, 32)]"

lemma soft_nets4_nets: "NON_HARD_INTERNAL_V4_NETS L = map (\<lambda>(a, p). n4_new L a p) soft_nets4"
  by (simp add: NON_HARD_INTERNAL_V4_NETS_def soft_nets4_def)

lemma soft_nets4_blocks: "soft_blocks4 = map (\<lambda>(a, p). (32 - p, unat a div 2 ^ (32 - p))) soft_nets4"
  by (simp add: soft_blocks4_def soft_nets4_def unat_v4_new)

lemma soft_nets4_prefix: "(a, p) \<in> set soft_nets4 \<Longrightarrow> p \<le> 32"
  by (auto simp: soft_nets4_def)

lemma n4_new_ok:
  assumes "ipnet_ok L" and "p \<le> 32"
  shows "n4_prefix_len L (n4_new L a p) = p"
    and "unat (n4_network L (n4_new L a p)) = unat a div 2 ^ (32 - p) * 2 ^ (32 - p)"
    and "unat (n4_broadcast L (n4_new L a p)) = unat a div 2 ^ (32 - p) * 2 ^ (32 - p) + (2 ^ (32 - p) - 1)"
proof -
  have new: "\<forall>a p. p \<le> 32 \<longrightarrow> n4_prefix_len L (n4_new L a p) = p
           \<and> unat (n4_network L (n4_new L a p)) = unat a div 2 ^ (32 - p) * 2 ^ (32 - p)"
    using assms(1) unfolding ipnet_ok_def by (elim conjE)
  have bc: "\<forall>n. n4_prefix_len L n \<le> 32
         \<and> unat (n4_network L n) mod 2 ^ (32 - n4_prefix_len L n) = 0
         \<and> unat (n4_broadcast L n) = unat (n4_network L n) + (2 ^ (32 - n4_prefix_len L n) - 1)"
    using assms(1) unfolding ipnet_ok_def by (elim conjE)
  show p: "n4_prefix_len L (n4_new L a p) = p"
    and n: "unat (n4_network L (n4_new L a p)) = unat a div 2 ^ (32 - p) * 2 ^ (32 - p)"
    using new assms(2) by blast+
  show "unat (n4_broadcast L (n4_new L a p)) = unat a div 2 ^ (32 - p) * 2 ^ (32 - p) + (2 ^ (32 - p) - 1)"
    using bc [rule_format, of "n4_new L a p"] unfolding p n by simp
qed

lemma n6_new_ok:
  assumes "ipnet_ok L" and "p \<le> 128"
  shows "unat (n6_network L (n6_new L a p)) = unat a div 2 ^ (128 - p) * 2 ^ (128 - p)"
    and "unat (n6_broadcast L (n6_new L a p)) = unat a div 2 ^ (128 - p) * 2 ^ (128 - p) + (2 ^ (128 - p) - 1)"
proof -
  have new: "\<forall>a p. p \<le> 128 \<longrightarrow>
           unat (n6_network L (n6_new L a p)) = unat a div 2 ^ (128 - p) * 2 ^ (128 - p)
           \<and> unat (n6_broadcast L (n6_new L a p)) = unat (n6_network L (n6_new L a p)) + (2 ^ (128 - p) - 1)"
    using assms(1) unfolding ipnet_ok_def by (elim conjE)
  then show n: "unat (n6_network L (n6_new L a p)) = unat a div 2 ^ (128 - p) * 2 ^ (128 - p)" using assms(2) by blast
  show "unat (n6_broadcast L (n6_new L a p)) = unat a div 2 ^ (128 - p) * 2 ^ (128 - p) + (2 ^ (128 - p) - 1)"
    using new assms(2) n by (metis (no_types))
qed

lemma ex_in_blocks_map:
  "(\<exists>m. P m \<and> in_blocks (map g xs) m) \<longleftrightarrow> (\<exists>x\<in>set xs. \<exists>m. P m \<and> m div 2 ^ fst (g x) = snd (g x))"
  unfolding in_blocks_def set_map case_prod_beta by blast

lemma soft_net4:
  assumes ok: "ipnet_ok L" and n: "unat (n4_network L n) = k * 2 ^ s" "unat (n4_broadcast L n) = k * 2 ^ s + (2 ^ s - 1)"
  shows "list_ex (\<lambda>internal. ipv4_nets_intersect L n internal) (NON_HARD_INTERNAL_V4_NETS L)
    \<longleftrightarrow> (\<exists>m. m div 2 ^ s = k \<and> in_blocks soft_blocks4 m)"
proof -
  have one: "ipv4_nets_intersect L n (n4_new L (fst ap) (snd ap))
      \<longleftrightarrow> (\<exists>m. m div 2 ^ s = k \<and> m div 2 ^ (32 - snd ap) = unat (fst ap) div 2 ^ (32 - snd ap))"
    if "ap \<in> set soft_nets4" for ap
  proof -
    have p: "snd ap \<le> 32" using soft_nets4_prefix [of "fst ap" "snd ap"] that by simp
    show ?thesis
      unfolding ipv4_nets_intersect_def word_le_nat_alt n n4_new_ok(2,3) [OF ok p] blocks_meet_bounds by (rule refl)
  qed
  show ?thesis
    unfolding soft_nets4_nets soft_nets4_blocks list_ex_iff set_map ex_in_blocks_map
    by (simp add: case_prod_beta one cong: bex_cong)
qed

lemma soft_net6:
  assumes ok: "ipnet_ok L" and n: "unat (n6_network L n) = k * 2 ^ s" "unat (n6_broadcast L n) = k * 2 ^ s + (2 ^ s - 1)"
  shows "ipv6_nets_intersect L n (IPV6_ULA_NET L)
      \<or> list_ex (\<lambda>internal. ipv6_nets_intersect L n (ipv4_net_to_mapped_ipv6 L internal)) (NON_HARD_INTERNAL_V4_NETS L)
    \<longleftrightarrow> (\<exists>m. m div 2 ^ s = k \<and> in_blocks soft_blocks6 m)"
proof -
  have meet: "ipv6_nets_intersect L n (n6_new L a p) \<longleftrightarrow> (\<exists>m. m div 2 ^ s = k \<and> m div 2 ^ (128 - p) = unat a div 2 ^ (128 - p))"
    if "p \<le> 128" for a p
    unfolding ipv6_nets_intersect_def word_le_nat_alt n n6_new_ok [OF ok that] blocks_meet_bounds by (rule refl)
  have ula: "unat (v6_new0 0xfc00) div 2 ^ 121 = 0x7e" unfolding v6_new0_def unat_of_nat by simp
  have one: "ipv6_nets_intersect L n (ipv4_net_to_mapped_ipv6 L (n4_new L (fst ap) (snd ap)))
      \<longleftrightarrow> (\<exists>m. m div 2 ^ s = k \<and> m div 2 ^ (32 - snd ap) = 0xffff * 2 ^ (32 - (32 - snd ap)) + unat (fst ap) div 2 ^ (32 - snd ap))"
    if "ap \<in> set soft_nets4" for ap
  proof -
    have p: "snd ap \<le> 32" using soft_nets4_prefix [of "fst ap" "snd ap"] that by simp
    have b: "(2 :: nat) ^ 32 = 2 ^ snd ap * 2 ^ (32 - snd ap)" using p by (simp flip: power_add)
    have "(0xffff * 2 ^ 32 + unat (fst ap) div 2 ^ (32 - snd ap) * 2 ^ (32 - snd ap)) div 2 ^ (32 - snd ap)
        = 0xffff * 2 ^ snd ap + unat (fst ap) div 2 ^ (32 - snd ap)"
      unfolding b by (simp flip: mult.assoc distrib_right)
    then show ?thesis
      unfolding ipv4_net_to_mapped_ipv6_def n4_new_ok(1) [OF ok p]
      using meet [of "96 + snd ap" "to_ipv6_mapped (n4_network L (n4_new L (fst ap) (snd ap)))"] p
      by (simp add: unat_to_ipv6_mapped n4_new_ok(2) [OF ok p] add.commute)
  qed
  have "list_ex (\<lambda>internal. ipv6_nets_intersect L n (ipv4_net_to_mapped_ipv6 L internal)) (NON_HARD_INTERNAL_V4_NETS L)
      \<longleftrightarrow> (\<exists>m. m div 2 ^ s = k \<and> in_blocks (mapped_blocks soft_blocks4) m)"
    unfolding soft_nets4_nets soft_nets4_blocks mapped_blocks_def list_ex_iff set_map ex_in_blocks_map map_map
    by (simp add: case_prod_beta one cong: bex_cong)
  then show ?thesis
    unfolding soft_blocks6_def meet_in_blocks IPV6_ULA_NET_def using meet [of 7 "v6_new0 0xfc00"] ula by simp
qed


section \<open>Properties\<close>

text \<open>A concrete network type: an address and a prefix length.\<close>

definition pair_net :: "(Ipv4Addr \<times> nat, Ipv6Addr \<times> nat) ipnet_lib" where
  "pair_net =
     \<lparr>n4_new = (\<lambda>a p. (a, p)),
      n4_network = (\<lambda>(a, p). word_of_nat (unat a div 2 ^ (32 - min p 32) * 2 ^ (32 - min p 32))),
      n4_broadcast = (\<lambda>(a, p). word_of_nat (unat a div 2 ^ (32 - min p 32) * 2 ^ (32 - min p 32) + (2 ^ (32 - min p 32) - 1))),
      n4_prefix_len = (\<lambda>(a, p). min p 32),
      n6_new = (\<lambda>a p. (a, p)),
      n6_network = (\<lambda>(a, p). word_of_nat (unat a div 2 ^ (128 - min p 128) * 2 ^ (128 - min p 128))),
      n6_broadcast = (\<lambda>(a, p). word_of_nat (unat a div 2 ^ (128 - min p 128) * 2 ^ (128 - min p 128) + (2 ^ (128 - min p 128) - 1))),
      n6_contains = (\<lambda>(a, p) x. unat x div 2 ^ (128 - min p 128) = unat a div 2 ^ (128 - min p 128))\<rparr>"

lemma block_fits: "n < 2 ^ w \<Longrightarrow> s \<le> w \<Longrightarrow> n div 2 ^ s * 2 ^ s + (2 ^ s - 1) < 2 ^ w" for n :: nat
proof -
  assume n: "n < 2 ^ w" and s: "s \<le> w"
  have p: "(2 :: nat) ^ w = 2 ^ (w - s) * 2 ^ s" using s by (simp flip: power_add)
  have "n div 2 ^ s < 2 ^ (w - s)" using n unfolding p by (rule less_mult_imp_div_less)
  then have "Suc (n div 2 ^ s) * 2 ^ s \<le> 2 ^ (w - s) * 2 ^ s" by (intro mult_le_mono1 Suc_leI)
  moreover have "n div 2 ^ s * 2 ^ s + (2 ^ s - 1) < Suc (n div 2 ^ s) * 2 ^ s"
    unfolding mult_Suc using zero_less_power [of "2 :: nat" s] by linarith
  ultimately show ?thesis unfolding p by (rule less_le_trans [rotated])
qed

lemma block_start_fits: "n < 2 ^ w \<Longrightarrow> n div 2 ^ s * 2 ^ s < 2 ^ w" for n :: nat
  by (rule le_less_trans [OF div_times_less_eq_dividend])

lemma pair_net_ok: "ipnet_ok pair_net"
proof -
  have v4: "unat (word_of_nat (unat (a :: 32 word) div 2 ^ s * 2 ^ s) :: 32 word) = unat a div 2 ^ s * 2 ^ s"
    "unat (word_of_nat (unat a div 2 ^ s * 2 ^ s + (2 ^ s - 1)) :: 32 word) = unat a div 2 ^ s * 2 ^ s + (2 ^ s - 1)"
    if "s \<le> 32" for a s
    using block_fits [of "unat a" 32 s] block_start_fits [of "unat a" 32 s] that unat32 [of a]
    unfolding unat_of_nat by (simp_all only: mod_less len_of_numeral_defs) simp_all
  have v6: "unat (word_of_nat (unat (a :: 128 word) div 2 ^ s * 2 ^ s) :: 128 word) = unat a div 2 ^ s * 2 ^ s"
    "unat (word_of_nat (unat a div 2 ^ s * 2 ^ s + (2 ^ s - 1)) :: 128 word) = unat a div 2 ^ s * 2 ^ s + (2 ^ s - 1)"
    if "s \<le> 128" for a s
    using block_fits [of "unat a" 128 s] block_start_fits [of "unat a" 128 s] that unat128 [of a]
    unfolding unat_of_nat by (simp_all only: mod_less len_of_numeral_defs) simp_all
  have c: "unat x div 2 ^ s = unat a div 2 ^ s \<longleftrightarrow>
      word_of_nat (unat a div 2 ^ s * 2 ^ s) \<le> x \<and> x \<le> word_of_nat (unat a div 2 ^ s * 2 ^ s + (2 ^ s - 1))"
    if "s \<le> 128" for a x :: Ipv6Addr and s
    unfolding word_le_nat_alt v6 [OF that] by (rule block_range)
  show ?thesis
    unfolding ipnet_ok_def
  proof (intro conjI allI impI, goal_cases)
    case (1 n)
    show ?case by (simp add: pair_net_def case_prod_beta)
  next
    case (2 n)
    show ?case by (simp only: pair_net_def case_prod_beta v4 ipnet_lib.simps diff_le_self mod_mult_self2_is_0)
  next
    case (3 n)
    show ?case by (simp only: pair_net_def case_prod_beta v4 ipnet_lib.simps diff_le_self)
  next
    case (4 a p)
    then show ?case by (simp add: pair_net_def)
  next
    case (5 a p)
    then show ?case by (simp only: pair_net_def case_prod_beta v4 ipnet_lib.simps diff_le_self fst_conv snd_conv min.absorb1)
  next
    case (6 n)
    show ?case
      by (intro exI [of _ "min (snd n) 128"]) (simp only: pair_net_def case_prod_beta v6 ipnet_lib.simps diff_le_self, simp)
  next
    case (7 n a)
    show ?case by (simp only: pair_net_def case_prod_beta ipnet_lib.simps c diff_le_self)
  next
    case (8 a p)
    then show ?case by (simp only: pair_net_def case_prod_beta v6 ipnet_lib.simps diff_le_self fst_conv snd_conv min.absorb1)
  next
    case (9 a p)
    then show ?case by (simp only: pair_net_def case_prod_beta v6 ipnet_lib.simps diff_le_self fst_conv snd_conv min.absorb1)
  qed
qed


text \<open>C11. A network is refused as always blocked exactly when it contains an address that is always
  blocked: the few comparisons and sample addresses the check uses miss no block that reaches into
  a loopback, link-local or unspecified range, mapped ranges included, and flag no other.\<close>
theorem always_blocked_net_exact:
  assumes "ipnet_ok L"
  shows "is_always_blocked_net L net \<longleftrightarrow> (\<exists>ip. net_member L net ip \<and> is_always_blocked_ip ip)"
proof (cases net)
  case (Net4 n)
  obtain s k where n: "unat (n4_network L n) = k * 2 ^ s" "unat (n4_broadcast L n) = k * 2 ^ s + (2 ^ s - 1)"
    and m: "\<And>a. n4_network L n \<le> a \<and> a \<le> n4_broadcast L n \<longleftrightarrow> unat a div 2 ^ s = k"
    by (rule net4_block [OF assms, of n]) (rule that)
  have "(\<exists>ip. net_member L net ip \<and> is_always_blocked_ip ip)
      \<longleftrightarrow> (\<exists>a. (n4_network L n \<le> a \<and> a \<le> n4_broadcast L n) \<and> is_always_blocked_ip (Ip4 a))"
    unfolding Net4 by (rule net_member_ex)
  also have "\<dots> \<longleftrightarrow> (\<exists>x. x div 2 ^ s = k \<and> in_blocks hard_blocks4 x)"
    by (rule net4_meets [OF always_blocked4 n(2) m])
  finally show ?thesis using blocked_net4 [OF assms n] unfolding Net4 by simp
next
  case (Net6 n)
  obtain s k where n: "unat (n6_network L n) = k * 2 ^ s" "unat (n6_broadcast L n) = k * 2 ^ s + (2 ^ s - 1)"
    and m: "\<And>a. n6_contains L n a \<longleftrightarrow> unat a div 2 ^ s = k"
    by (rule net6_block [OF assms, of n]) (rule that)
  have "(\<exists>ip. net_member L net ip \<and> is_always_blocked_ip ip) \<longleftrightarrow> (\<exists>a. n6_contains L n a \<and> is_always_blocked_ip (Ip6 a))"
    unfolding Net6 by (rule net_member_ex)
  also have "\<dots> \<longleftrightarrow> (\<exists>x. x div 2 ^ s = k \<and> in_blocks hard_blocks6 x)"
    by (rule net6_meets [OF always_blocked6 n(2) m])
  finally show ?thesis using blocked_net6 [OF assms n(1) m] unfolding Net6 by simp
qed

theorem always_blocked_net_exact_witness:
  "is_always_blocked_net pair_net (Net4 (v4_new 126 0 0 0, 7))
   \<longleftrightarrow> (\<exists>ip. net_member pair_net (Net4 (v4_new 126 0 0 0, 7)) ip \<and> is_always_blocked_ip ip)"
  using always_blocked_net_exact [OF pair_net_ok] .

text \<open>C21. A network is classified as internal exactly when it contains an internal address.\<close>
theorem internal_net_exact:
  assumes "ipnet_ok L"
  shows "is_internal_net L net \<longleftrightarrow> (\<exists>ip. net_member L net ip \<and> is_internal_ip ip)"
proof (cases net)
  case (Net4 n)
  obtain s k where n: "unat (n4_network L n) = k * 2 ^ s" "unat (n4_broadcast L n) = k * 2 ^ s + (2 ^ s - 1)"
    and m: "\<And>a. n4_network L n \<le> a \<and> a \<le> n4_broadcast L n \<longleftrightarrow> unat a div 2 ^ s = k"
    by (rule net4_block [OF assms, of n]) (rule that)
  have i: "is_internal_ip (Ip4 a) \<longleftrightarrow> in_blocks (hard_blocks4 @ soft_blocks4) (unat a)" for a
    by (simp add: is_internal_ip_def internal4)
  have "(\<exists>ip. net_member L net ip \<and> is_internal_ip ip)
      \<longleftrightarrow> (\<exists>a. (n4_network L n \<le> a \<and> a \<le> n4_broadcast L n) \<and> is_internal_ip (Ip4 a))"
    unfolding Net4 by (rule net_member_ex)
  also have "\<dots> \<longleftrightarrow> (\<exists>x. x div 2 ^ s = k \<and> in_blocks (hard_blocks4 @ soft_blocks4) x)"
    by (rule net4_meets [OF i n(2) m])
  finally show ?thesis
    using blocked_net4 [OF assms n] soft_net4 [OF assms n] unfolding Net4 is_internal_net_def by auto
next
  case (Net6 n)
  obtain s k where n: "unat (n6_network L n) = k * 2 ^ s" "unat (n6_broadcast L n) = k * 2 ^ s + (2 ^ s - 1)"
    and m: "\<And>a. n6_contains L n a \<longleftrightarrow> unat a div 2 ^ s = k"
    by (rule net6_block [OF assms, of n]) (rule that)
  have "(\<exists>ip. net_member L net ip \<and> is_internal_ip ip) \<longleftrightarrow> (\<exists>a. n6_contains L n a \<and> is_internal_ip (Ip6 a))"
    unfolding Net6 by (rule net_member_ex)
  also have "\<dots> \<longleftrightarrow> (\<exists>x. x div 2 ^ s = k \<and> in_blocks (hard_blocks6 @ soft_blocks6) x)"
    by (rule net6_meets [OF internal6 n(2) m])
  finally show ?thesis
    using blocked_net6 [OF assms n(1) m] soft_net6 [OF assms n] unfolding Net6 is_internal_net_def by auto
qed

theorem internal_net_exact_witness:
  "is_internal_net pair_net (Net4 (v4_new 8 0 0 0, 6))
   \<longleftrightarrow> (\<exists>ip. net_member pair_net (Net4 (v4_new 8 0 0 0, 6)) ip \<and> is_internal_ip ip)"
  using internal_net_exact [OF pair_net_ok] .

text \<open>Writing an IPv4 address in its IPv6-mapped form does not change how it is classified, and
  every always-blocked address is internal.\<close>
theorem mapped_address_same_class:
  "is_always_blocked_ip (Ip6 (to_ipv6_mapped v4)) = is_always_blocked_ip (Ip4 v4)
   \<and> is_internal_ip (Ip6 (to_ipv6_mapped v4)) = is_internal_ip (Ip4 v4)
   \<and> {ip. is_always_blocked_ip ip} \<subseteq> {ip. is_internal_ip ip}"
proof (intro conjI)
  let ?n = "0xffff * 2 ^ 32 + unat v4"
  have d: "?n div 2 ^ 32 = 0xffff" and m: "?n mod 2 ^ 32 = unat v4"
    using mapped_round_trip [of v4] unfolding to_ipv4_mapped_Some unat_to_ipv6_mapped by simp_all
  have "?n div 2 ^ 118 = 0" "?n div 2 ^ 121 = 0" using unat32 [of v4] by simp_all
  then have h: "in_blocks hard_blocks6 ?n \<longleftrightarrow> in_blocks hard_blocks4 (unat v4)"
    and s: "in_blocks soft_blocks6 ?n \<longleftrightarrow> in_blocks soft_blocks4 (unat v4)"
    using in_blocks_mapped [of hard_blocks4 ?n] in_blocks_mapped [of soft_blocks4 ?n] d m
    by (simp_all add: hard_blocks6_def soft_blocks6_def in_blocks_Cons)
  have i4: "is_internal_ip (Ip4 v4) \<longleftrightarrow> in_blocks (hard_blocks4 @ soft_blocks4) (unat v4)"
    by (simp add: is_internal_ip_def internal4)
  show "is_always_blocked_ip (Ip6 (to_ipv6_mapped v4)) = is_always_blocked_ip (Ip4 v4)"
    by (simp only: always_blocked6 always_blocked4 unat_to_ipv6_mapped h)
  show "is_internal_ip (Ip6 (to_ipv6_mapped v4)) = is_internal_ip (Ip4 v4)"
    unfolding internal6 i4 unat_to_ipv6_mapped in_blocks_append h s by (rule refl)
  show "{ip. is_always_blocked_ip ip} \<subseteq> {ip. is_internal_ip ip}"
  proof
    fix ip assume "ip \<in> {ip. is_always_blocked_ip ip}"
    then show "ip \<in> {ip. is_internal_ip ip}"
      by (cases ip) (auto simp: always_blocked4 always_blocked6 internal6 is_internal_ip_def [of "Ip4 _"] internal4)
  qed
qed

end
