(* ===== verification/Egress_Destination.thy ===== *)
theory Egress_Destination
  imports Net_Classify Std_Net
begin

text \<open>
  Destination validation of the egress proxy
  (\<open>crates/openshell-supervisor-network/src/proxy/destination.rs\<close> and the address checks of
  \<open>proxy.rs\<close>): which resolved addresses may be dialled for an endpoint. The system resolver,
  the hosts file of the sandbox and the network type of the \<open>ipnet\<close> crate are parameters.
  Reasons are values with the data that the messages interpolate.
\<close>

section \<open>Definitions\<close>

subsection \<open>Addresses and networks\<close>

definition ip_of_std :: "IpAddr \<Rightarrow> IpAddress" where
  "ip_of_std ip =
     (case ip of
        V4 os \<Rightarrow> Ip4 (word_of_nat (foldl (\<lambda>acc b. acc * 256 + b) 0 os))
      | V6 gs \<Rightarrow> Ip6 (word_of_nat (foldl (\<lambda>acc g. acc * 65536 + g) 0 gs)))"

definition parse_ip :: "string \<Rightarrow> IpAddress option" where
  "parse_ip s = map_option ip_of_std (parse_ip_addr s)"

text \<open>The operations of \<open>ipnet::IpNet\<close> that the checks call.\<close>

record ('n4, 'n6) cidr_lib =
  cl_net :: "('n4, 'n6) ipnet_lib"
  cl_parse :: "string \<Rightarrow> ('n4, 'n6) IpNet option"
  cl_from :: "IpAddress \<Rightarrow> ('n4, 'n6) IpNet"
  cl_contains :: "('n4, 'n6) IpNet \<Rightarrow> IpAddress \<Rightarrow> bool"

subsection \<open>Hosts\<close>

definition strip_prefix_char :: "char \<Rightarrow> string \<Rightarrow> string option" where
  "strip_prefix_char c s = (case s of [] \<Rightarrow> None | x # xs \<Rightarrow> if x = c then Some xs else None)"

definition strip_suffix_char :: "char \<Rightarrow> string \<Rightarrow> string option" where
  "strip_suffix_char c s = (if s \<noteq> [] \<and> last s = c then Some (butlast s) else None)"

definition strip_brackets :: "string \<Rightarrow> string" where
  "strip_brackets host =
     (case strip_prefix_char (CHR ''['') host of
        None \<Rightarrow> host
      | Some trimmed \<Rightarrow> (case strip_suffix_char (CHR '']'') trimmed of None \<Rightarrow> host | Some h \<Rightarrow> h))"

definition normalize_host_lookup_key :: "string \<Rightarrow> string" where
  "normalize_host_lookup_key host =
     (let h = strip_brackets host
      in case strip_suffix_char (CHR ''.'') h of None \<Rightarrow> h | Some k \<Rightarrow> k)"

definition HOST_GATEWAY_ALIASES :: "string list" where
  "HOST_GATEWAY_ALIASES = [''host.openshell.internal'', ''host.containers.internal'', ''host.docker.internal'']"

definition is_host_gateway_alias :: "string \<Rightarrow> bool" where
  "is_host_gateway_alias host =
     list_ex (\<lambda>alias. eq_ignore_ascii_case alias (normalize_host_lookup_key host)) HOST_GATEWAY_ALIASES"

definition CLOUD_METADATA_IPS :: "IpAddress list" where
  "CLOUD_METADATA_IPS = [Ip4 (v4_new 169 254 169 254)]"

definition is_cloud_metadata_ip :: "IpAddress \<Rightarrow> bool" where
  "is_cloud_metadata_ip ip =
     (case ip of
        Ip4 _ \<Rightarrow> ip \<in> set CLOUD_METADATA_IPS
      | Ip6 v6 \<Rightarrow> (case to_ipv4_mapped v6 of None \<Rightarrow> False | Some v4 \<Rightarrow> Ip4 v4 \<in> set CLOUD_METADATA_IPS))"

definition BLOCKED_CONTROL_PLANE_PORTS :: "nat list" where
  "BLOCKED_CONTROL_PLANE_PORTS = [2379, 2380, 6443, 10250, 10255]"

definition implicit_allowed_ips_for_ip_host :: "string \<Rightarrow> string list" where
  "implicit_allowed_ips_for_ip_host host =
     (let lookup_host = normalize_host_lookup_key host
      in case parse_ip lookup_host of
           None \<Rightarrow> []
         | Some ip \<Rightarrow> if is_always_blocked_ip ip then [] else [lookup_host])"

datatype AllowedIpError = InvalidCidr string | AlwaysBlockedCidr string

definition parse_allowed_ip :: "('n4, 'n6) cidr_lib \<Rightarrow> string \<Rightarrow> AllowedIpError + ('n4, 'n6) IpNet" where
  "parse_allowed_ip L entry =
     (case (case cl_parse L entry of
              Some n \<Rightarrow> Some n
            | None \<Rightarrow> map_option (cl_from L) (parse_ip entry)) of
        None \<Rightarrow> Inl (InvalidCidr entry)
      | Some n \<Rightarrow> if is_always_blocked_net (cl_net L) n then Inl (AlwaysBlockedCidr entry) else Inr n)"

fun parse_allowed_ips_loop ::
  "('n4, 'n6) cidr_lib \<Rightarrow> ('n4, 'n6) IpNet list \<Rightarrow> AllowedIpError list \<Rightarrow> string list
   \<Rightarrow> AllowedIpError list + ('n4, 'n6) IpNet list" where
  "parse_allowed_ips_loop L nets errors [] = (if errors = [] then Inr nets else Inl errors)"
| "parse_allowed_ips_loop L nets errors (entry # raw) =
     (case parse_allowed_ip L entry of
        Inl e \<Rightarrow> parse_allowed_ips_loop L nets (errors @ [e]) raw
      | Inr n \<Rightarrow> parse_allowed_ips_loop L (nets @ [n]) errors raw)"

definition parse_allowed_ips ::
  "('n4, 'n6) cidr_lib \<Rightarrow> string list \<Rightarrow> AllowedIpError list + ('n4, 'n6) IpNet list" where
  "parse_allowed_ips L raw = parse_allowed_ips_loop L [] [] raw"

subsection \<open>Plans\<close>

datatype ('n4, 'n6) AddressAuthorization =
    DefaultPublicOnly
  | ExplicitAllowedIps "('n4, 'n6) IpNet list"
  | ExactDeclaredHost
  | ImplicitIpLiteral IpAddress
  | TrustedGatewayAlias IpAddress
  | BackendPinnedGateway IpAddress
  | PinnedResolved "IpAddress list"

datatype DestinationDenialKind =
    Resolution | TrustedGateway | InvalidAllowedIps | AllowedIps | DeclaredEndpoint | InternalAddress

datatype DenialReason =
    ControlPlanePort nat
  | ResolvesToInternal string IpAddress
  | ResolvesToAlwaysBlocked string IpAddress
  | NotInAllowedIps string IpAddress
  | ResolvesToCloudMetadata string IpAddress
  | NotTrustedGateway string IpAddress IpAddress
  | NotLinkLocal string IpAddress
  | NotBackendGateway string IpAddress IpAddress
  | Unpinned string IpAddress
  | NoAddresses string
  | EmptyPinnedSet
  | BadAllowedIps "AllowedIpError list"
  | ResolverFailed string

record DestinationDenial =
  dd_kind :: DestinationDenialKind
  dd_reason :: DenialReason

definition denial :: "DestinationDenialKind \<Rightarrow> DenialReason \<Rightarrow> DestinationDenial" where
  "denial kind reason = \<lparr>dd_kind = kind, dd_reason = reason\<rparr>"

definition build_validation_plan ::
  "('n4, 'n6) cidr_lib \<Rightarrow> string \<Rightarrow> string \<Rightarrow> IpAddress option \<Rightarrow> IpAddress option \<Rightarrow> string list \<Rightarrow> bool
   \<Rightarrow> DestinationDenial + ('n4, 'n6) AddressAuthorization" where
  "build_validation_plan L host normalized_host backend_host_gateway trusted_host_gateway raw_allowed_ips exact =
     (if is_host_gateway_alias normalized_host \<and> backend_host_gateway \<noteq> None
      then Inr (BackendPinnedGateway (the backend_host_gateway))
      else if is_host_gateway_alias normalized_host \<and> trusted_host_gateway \<noteq> None
      then Inr (TrustedGatewayAlias (the trusted_host_gateway))
      else if raw_allowed_ips \<noteq> []
      then (case parse_allowed_ips L raw_allowed_ips of
              Inl errors \<Rightarrow> Inl (denial InvalidAllowedIps (BadAllowedIps errors))
            | Inr nets \<Rightarrow> Inr (ExplicitAllowedIps nets))
      else (case (case implicit_allowed_ips_for_ip_host host of [] \<Rightarrow> None | raw # _ \<Rightarrow> parse_ip raw) of
              Some ip \<Rightarrow> Inr (ImplicitIpLiteral ip)
            | None \<Rightarrow> if exact then Inr ExactDeclaredHost else Inr DefaultPublicOnly))"

definition build_pinned_validation_plan ::
  "IpAddress list \<Rightarrow> DestinationDenial + ('n4, 'n6) AddressAuthorization" where
  "build_pinned_validation_plan addresses =
     (if addresses = [] then Inl (denial InvalidAllowedIps EmptyPinnedSet) else Inr (PinnedResolved addresses))"

subsection \<open>Filtering resolver answers\<close>

definition filter_mode :: "('n4, 'n6) AddressAuthorization \<Rightarrow> DestinationDenialKind \<times> bool" where
  "filter_mode plan =
     (case plan of
        TrustedGatewayAlias _ \<Rightarrow> (TrustedGateway, True)
      | BackendPinnedGateway _ \<Rightarrow> (TrustedGateway, True)
      | ExplicitAllowedIps _ \<Rightarrow> (AllowedIps, True)
      | ImplicitIpLiteral _ \<Rightarrow> (AllowedIps, True)
      | ExactDeclaredHost \<Rightarrow> (DeclaredEndpoint, True)
      | DefaultPublicOnly \<Rightarrow> (InternalAddress, False)
      | PinnedResolved _ \<Rightarrow> (AllowedIps, False))"

definition address_rejection ::
  "('n4, 'n6) cidr_lib \<Rightarrow> ('n4, 'n6) AddressAuthorization \<Rightarrow> string \<Rightarrow> IpAddress \<Rightarrow> DenialReason option" where
  "address_rejection L plan host ip =
     (case plan of
        DefaultPublicOnly \<Rightarrow> if is_internal_ip ip then Some (ResolvesToInternal host ip) else None
      | ExplicitAllowedIps networks \<Rightarrow>
          if is_always_blocked_ip ip then Some (ResolvesToAlwaysBlocked host ip)
          else if \<not> list_ex (\<lambda>network. cl_contains L network ip) networks then Some (NotInAllowedIps host ip)
          else None
      | ImplicitIpLiteral expected_ip \<Rightarrow>
          if is_always_blocked_ip ip then Some (ResolvesToAlwaysBlocked host ip)
          else if ip \<noteq> expected_ip then Some (NotInAllowedIps host ip)
          else None
      | ExactDeclaredHost \<Rightarrow>
          if is_always_blocked_ip ip then Some (ResolvesToAlwaysBlocked host ip) else None
      | TrustedGatewayAlias expected_ip \<Rightarrow>
          if is_cloud_metadata_ip ip then Some (ResolvesToCloudMetadata host ip)
          else if ip \<noteq> expected_ip then Some (NotTrustedGateway host ip expected_ip)
          else if \<not> is_link_local_ip ip then Some (NotLinkLocal host ip)
          else None
      | BackendPinnedGateway expected_ip \<Rightarrow>
          if is_cloud_metadata_ip ip then Some (ResolvesToCloudMetadata host ip)
          else if ip \<noteq> expected_ip then Some (NotBackendGateway host ip expected_ip)
          else None
      | PinnedResolved pinned \<Rightarrow> if ip \<notin> set pinned then Some (Unpinned host ip) else None)"

fun filter_loop ::
  "('n4, 'n6) cidr_lib \<Rightarrow> ('n4, 'n6) AddressAuthorization \<Rightarrow> string
   \<Rightarrow> IpAddress list \<Rightarrow> DenialReason option \<Rightarrow> IpAddress list \<Rightarrow> IpAddress list \<times> DenialReason option" where
  "filter_loop L plan host allowed first_rejection [] = (allowed, first_rejection)"
| "filter_loop L plan host allowed first_rejection (ip # ips) =
     (case address_rejection L plan host ip of
        Some reason \<Rightarrow>
          filter_loop L plan host allowed
            (case first_rejection of None \<Rightarrow> Some reason | Some r \<Rightarrow> Some r) ips
      | None \<Rightarrow>
          filter_loop L plan host (if ip \<in> set allowed then allowed else allowed @ [ip]) first_rejection ips)"

definition filter_resolved_addresses ::
  "('n4, 'n6) cidr_lib \<Rightarrow> ('n4, 'n6) AddressAuthorization \<Rightarrow> string \<Rightarrow> nat \<Rightarrow> IpAddress list
   \<Rightarrow> DestinationDenial + IpAddress list" where
  "filter_resolved_addresses L plan host port resolved_ips =
     (let (kind, control_plane_blocked) = filter_mode plan
      in if control_plane_blocked \<and> port \<in> set BLOCKED_CONTROL_PLANE_PORTS
         then Inl (denial kind (ControlPlanePort port))
         else
           let (allowed, first_rejection) = filter_loop L plan host [] None resolved_ips
           in if allowed = []
              then Inl (denial kind (case first_rejection of
                       Some reason \<Rightarrow> reason
                     | None \<Rightarrow> NoAddresses (normalize_host_lookup_key host)))
              else Inr allowed)"

subsection \<open>Resolving names\<close>

type_synonym SocketAddr = "IpAddress \<times> nat"

text \<open>The system resolver (\<open>tokio::net::lookup_host\<close>) and the contents of
  \<open>/proc/<pid>/root/etc/hosts\<close>, when readable.\<close>

record resolver_env =
  re_lookup_host :: "string \<Rightarrow> nat \<Rightarrow> string + SocketAddr list"
  re_hosts_file :: "nat \<Rightarrow> string option"

definition resolve_ip_literal :: "string \<Rightarrow> nat \<Rightarrow> SocketAddr list option" where
  "resolve_ip_literal host port =
     map_option (\<lambda>ip. [(ip, port)]) (parse_ip (normalize_host_lookup_key host))"

text \<open>\<open>str::lines\<close> and \<open>str::split_whitespace\<close>.\<close>

definition str_lines :: "string \<Rightarrow> string list" where
  "str_lines s =
     (let parts = split_on (CHR 0x0A) s;
          lines = (if last parts = [] then butlast parts else parts)
      in map (\<lambda>l. case strip_suffix_char (CHR 0x0D) l of None \<Rightarrow> l | Some k \<Rightarrow> k) lines)"

definition split_whitespace :: "string \<Rightarrow> string list" where
  "split_whitespace s =
     filter (\<lambda>w. w \<noteq> []) (map (\<lambda>w. concat (map the w))
       (split_on None (map (\<lambda>ch. if is_whitespace (code_point ch) then None else Some ch) (utf8_chunks s))))"

definition hosts_line :: "string \<Rightarrow> string \<Rightarrow> IpAddress option" where
  "hosts_line lookup_host raw_line =
     (case split_whitespace (str_trim (takeWhile (\<lambda>c. c \<noteq> CHR ''#'') raw_line)) of
        [] \<Rightarrow> None
      | ip_str # aliases \<Rightarrow>
          (case parse_ip ip_str of
             None \<Rightarrow> None
           | Some ip \<Rightarrow> if list_ex (\<lambda>alias. eq_ignore_ascii_case alias lookup_host) aliases then Some ip else None))"

definition parse_hosts_file_for_host :: "string \<Rightarrow> string \<Rightarrow> IpAddress list" where
  "parse_hosts_file_for_host contents host =
     append_unique [] (List.map_filter (hosts_line (normalize_host_lookup_key host)) (str_lines contents))"

definition detect_trusted_host_gateway :: "string option \<Rightarrow> IpAddress option" where
  "detect_trusted_host_gateway etc_hosts =
     (case etc_hosts of
        None \<Rightarrow> None
      | Some contents \<Rightarrow>
          (case parse_hosts_file_for_host contents ''host.openshell.internal'' of
             [] \<Rightarrow> None
           | ip # _ \<Rightarrow>
               if is_cloud_metadata_ip ip then None
               else if \<not> is_link_local_ip ip then None
               else Some ip))"

definition resolve_from_hosts_file_contents :: "string \<Rightarrow> string \<Rightarrow> nat \<Rightarrow> SocketAddr list" where
  "resolve_from_hosts_file_contents contents host port =
     map (\<lambda>ip. (ip, port)) (parse_hosts_file_for_host contents host)"

definition resolve_from_sandbox_hosts :: "resolver_env \<Rightarrow> string \<Rightarrow> nat \<Rightarrow> nat \<Rightarrow> SocketAddr list option" where
  "resolve_from_sandbox_hosts E host port entrypoint_pid =
     (if entrypoint_pid = 0 then None
      else (case re_hosts_file E entrypoint_pid of
              None \<Rightarrow> None
            | Some contents \<Rightarrow>
                let addrs = resolve_from_hosts_file_contents contents host port
                in if addrs = [] then None else Some addrs))"

datatype AddressBinding = NameAuthorized | IpConstrained

definition allows_sandbox_hosts :: "AddressBinding \<Rightarrow> bool" where
  "allows_sandbox_hosts binding = (binding = IpConstrained)"

definition resolve_nonliteral_socket_addrs ::
  "resolver_env \<Rightarrow> string \<Rightarrow> nat \<Rightarrow> AddressBinding \<Rightarrow> SocketAddr list option \<Rightarrow> DenialReason + SocketAddr list" where
  "resolve_nonliteral_socket_addrs E host port binding sandbox_hosts =
     (if allows_sandbox_hosts binding \<and> sandbox_hosts \<noteq> None then Inr (the sandbox_hosts)
      else
        let dns_host = strip_brackets host
        in case re_lookup_host E dns_host port of
             Inl e \<Rightarrow> Inl (ResolverFailed e)
           | Inr addrs \<Rightarrow> if addrs = [] then Inl (NoAddresses dns_host) else Inr addrs)"

definition resolve_socket_addrs ::
  "resolver_env \<Rightarrow> string \<Rightarrow> nat \<Rightarrow> nat \<Rightarrow> AddressBinding \<Rightarrow> DenialReason + SocketAddr list" where
  "resolve_socket_addrs E host port entrypoint_pid binding =
     (case resolve_ip_literal host port of
        Some addrs \<Rightarrow> Inr addrs
      | None \<Rightarrow>
          resolve_nonliteral_socket_addrs E host port binding
            (if allows_sandbox_hosts binding then resolve_from_sandbox_hosts E host port entrypoint_pid else None))"

subsection \<open>Checking resolved addresses\<close>

text \<open>A \<open>for\<close> loop that returns the first error a check finds.\<close>

fun check_each :: "('a \<Rightarrow> 'e option) \<Rightarrow> 'a list \<Rightarrow> 'e + unit" where
  "check_each check [] = Inr ()"
| "check_each check (x # xs) = (case check x of Some e \<Rightarrow> Inl e | None \<Rightarrow> check_each check xs)"

definition reject_internal_resolved_addrs :: "string \<Rightarrow> SocketAddr list \<Rightarrow> DenialReason + unit" where
  "reject_internal_resolved_addrs host addrs =
     (if addrs = [] then Inl (NoAddresses (normalize_host_lookup_key host))
      else check_each (\<lambda>(ip, _). if is_internal_ip ip then Some (ResolvesToInternal host ip) else None) addrs)"

definition validate_allowed_ips_for_resolved_addrs ::
  "('n4, 'n6) cidr_lib \<Rightarrow> string \<Rightarrow> nat \<Rightarrow> SocketAddr list \<Rightarrow> ('n4, 'n6) IpNet list \<Rightarrow> DenialReason + unit" where
  "validate_allowed_ips_for_resolved_addrs L host port addrs allowed_ips =
     (if addrs = [] then Inl (NoAddresses (normalize_host_lookup_key host))
      else if port \<in> set BLOCKED_CONTROL_PLANE_PORTS then Inl (ControlPlanePort port)
      else check_each (\<lambda>(ip, _).
             if is_always_blocked_ip ip then Some (ResolvesToAlwaysBlocked host ip)
             else if \<not> list_ex (\<lambda>net. cl_contains L net ip) allowed_ips then Some (NotInAllowedIps host ip)
             else None) addrs)"

definition validate_declared_endpoint_resolved_addrs ::
  "string \<Rightarrow> nat \<Rightarrow> SocketAddr list \<Rightarrow> DenialReason + unit" where
  "validate_declared_endpoint_resolved_addrs host port addrs =
     (if addrs = [] then Inl (NoAddresses (normalize_host_lookup_key host))
      else if port \<in> set BLOCKED_CONTROL_PLANE_PORTS then Inl (ControlPlanePort port)
      else check_each (\<lambda>(ip, _).
             if is_always_blocked_ip ip then Some (ResolvesToAlwaysBlocked host ip) else None) addrs)"

datatype DestinationCheckError = CheckResolution DenialReason | CheckDenied DenialReason

definition from_check :: "DestinationCheckError \<Rightarrow> DestinationDenialKind \<Rightarrow> DestinationDenial" where
  "from_check error denied_kind =
     (case error of
        CheckResolution reason \<Rightarrow> denial Resolution reason
      | CheckDenied reason \<Rightarrow> denial denied_kind reason)"

definition map_err :: "('e \<Rightarrow> 'f) \<Rightarrow> 'e + 'a \<Rightarrow> 'f + 'a" where
  "map_err f r = map_sum f id r"

definition resolve_and_check_trusted_gateway ::
  "resolver_env \<Rightarrow> string \<Rightarrow> nat \<Rightarrow> IpAddress \<Rightarrow> nat \<Rightarrow> DestinationCheckError + SocketAddr list" where
  "resolve_and_check_trusted_gateway E host port trusted_gw entrypoint_pid =
     (if port \<in> set BLOCKED_CONTROL_PLANE_PORTS then Inl (CheckDenied (ControlPlanePort port))
      else bindE (map_err CheckResolution (resolve_socket_addrs E host port entrypoint_pid IpConstrained)) (\<lambda>addrs.
        if addrs = [] then Inl (CheckResolution (NoAddresses (normalize_host_lookup_key host)))
        else bindE (map_err CheckDenied (check_each (\<lambda>(ip, _).
               if is_cloud_metadata_ip ip then Some (ResolvesToCloudMetadata host ip)
               else if ip \<noteq> trusted_gw then Some (NotTrustedGateway host ip trusted_gw)
               else if \<not> is_link_local_ip ip then Some (NotLinkLocal host ip)
               else None) addrs)) (\<lambda>_. Inr addrs)))"

definition resolve_and_reject_internal ::
  "resolver_env \<Rightarrow> string \<Rightarrow> nat \<Rightarrow> DestinationCheckError + SocketAddr list" where
  "resolve_and_reject_internal E host port =
     bindE (map_err CheckResolution (resolve_socket_addrs E host port 0 NameAuthorized)) (\<lambda>addrs.
     bindE (map_err CheckDenied (reject_internal_resolved_addrs host addrs)) (\<lambda>_. Inr addrs))"

definition resolve_and_check_allowed_ips ::
  "('n4, 'n6) cidr_lib \<Rightarrow> resolver_env \<Rightarrow> string \<Rightarrow> nat \<Rightarrow> ('n4, 'n6) IpNet list \<Rightarrow> nat
   \<Rightarrow> DestinationCheckError + SocketAddr list" where
  "resolve_and_check_allowed_ips L E host port allowed_ips entrypoint_pid =
     bindE (map_err CheckResolution (resolve_socket_addrs E host port entrypoint_pid IpConstrained)) (\<lambda>addrs.
     bindE (map_err CheckDenied (validate_allowed_ips_for_resolved_addrs L host port addrs allowed_ips)) (\<lambda>_. Inr addrs))"

definition resolve_and_check_declared_endpoint ::
  "resolver_env \<Rightarrow> string \<Rightarrow> nat \<Rightarrow> DestinationCheckError + SocketAddr list" where
  "resolve_and_check_declared_endpoint E host port =
     bindE (map_err CheckResolution (resolve_socket_addrs E host port 0 NameAuthorized)) (\<lambda>addrs.
     bindE (map_err CheckDenied (validate_declared_endpoint_resolved_addrs host port addrs)) (\<lambda>_. Inr addrs))"

record UpstreamConnector =
  uc_host :: string
  uc_port :: nat
  uc_addrs :: "SocketAddr list"

definition validate_destination ::
  "('n4, 'n6) cidr_lib \<Rightarrow> resolver_env \<Rightarrow> string \<Rightarrow> nat \<Rightarrow> nat \<Rightarrow> ('n4, 'n6) AddressAuthorization
   \<Rightarrow> DestinationDenial + UpstreamConnector" where
  "validate_destination L E host port sandbox_entrypoint_pid plan =
     bindE
       (case plan of
          TrustedGatewayAlias expected_ip \<Rightarrow>
            map_err (\<lambda>e. from_check e TrustedGateway)
              (resolve_and_check_trusted_gateway E host port expected_ip sandbox_entrypoint_pid)
        | BackendPinnedGateway ip \<Rightarrow>
            if port \<in> set BLOCKED_CONTROL_PLANE_PORTS then Inl (denial TrustedGateway (ControlPlanePort port))
            else if is_cloud_metadata_ip ip then Inl (denial TrustedGateway (ResolvesToCloudMetadata host ip))
            else Inr [(ip, port)]
        | ExplicitAllowedIps networks \<Rightarrow>
            map_err (\<lambda>e. from_check e AllowedIps)
              (resolve_and_check_allowed_ips L E host port networks sandbox_entrypoint_pid)
        | ImplicitIpLiteral ip \<Rightarrow>
            map_err (\<lambda>e. from_check e AllowedIps)
              (resolve_and_check_allowed_ips L E host port [cl_from L ip] sandbox_entrypoint_pid)
        | ExactDeclaredHost \<Rightarrow>
            map_err (\<lambda>e. from_check e DeclaredEndpoint) (resolve_and_check_declared_endpoint E host port)
        | DefaultPublicOnly \<Rightarrow>
            map_err (\<lambda>e. from_check e InternalAddress) (resolve_and_reject_internal E host port)
        | PinnedResolved addresses \<Rightarrow> Inr (map (\<lambda>address. (address, port)) addresses))
       (\<lambda>addrs. Inr \<lparr>uc_host = host, uc_port = port, uc_addrs = addrs\<rparr>)"

section \<open>Lemmas\<close>

subsection \<open>The rule for a single address\<close>

text \<open>What a plan permits, stated without reference to the order of the checks.\<close>

definition address_permitted ::
  "('n4, 'n6) cidr_lib \<Rightarrow> ('n4, 'n6) AddressAuthorization \<Rightarrow> nat \<Rightarrow> IpAddress \<Rightarrow> bool" where
  "address_permitted L plan port ip =
     (case plan of
        DefaultPublicOnly \<Rightarrow> \<not> is_internal_ip ip
      | ExplicitAllowedIps nets \<Rightarrow> port \<notin> set BLOCKED_CONTROL_PLANE_PORTS \<and> \<not> is_always_blocked_ip ip
          \<and> (\<exists>n\<in>set nets. cl_contains L n ip)
      | ExactDeclaredHost \<Rightarrow> port \<notin> set BLOCKED_CONTROL_PLANE_PORTS \<and> \<not> is_always_blocked_ip ip
      | ImplicitIpLiteral expected \<Rightarrow> port \<notin> set BLOCKED_CONTROL_PLANE_PORTS \<and> \<not> is_always_blocked_ip ip
          \<and> ip = expected
      | TrustedGatewayAlias expected \<Rightarrow> port \<notin> set BLOCKED_CONTROL_PLANE_PORTS \<and> \<not> is_cloud_metadata_ip ip
          \<and> ip = expected \<and> is_link_local_ip ip
      | BackendPinnedGateway expected \<Rightarrow> port \<notin> set BLOCKED_CONTROL_PLANE_PORTS \<and> \<not> is_cloud_metadata_ip ip
          \<and> ip = expected
      | PinnedResolved pinned \<Rightarrow> ip \<in> set pinned)"

lemma address_permitted_filter:
  "address_permitted L plan port ip \<longleftrightarrow>
   \<not> (snd (filter_mode plan) \<and> port \<in> set BLOCKED_CONTROL_PLANE_PORTS) \<and> address_rejection L plan host ip = None"
  by (cases plan) (auto simp: address_permitted_def filter_mode_def address_rejection_def list_ex_iff)

lemma filter_loop_allowed:
  "fst (filter_loop L plan host allowed rej ips)
   = append_unique allowed (filter (\<lambda>ip. address_rejection L plan host ip = None) ips)"
  by (induction ips arbitrary: allowed rej)
    (auto simp: append_unique_def push_unique_def split: option.splits)

lemma filter_resolved_addresses_iff:
  "filter_resolved_addresses L plan host port ips = Inr out
   \<longleftrightarrow> out \<noteq> [] \<and> out = append_unique [] (filter (address_permitted L plan port) ips)"
proof (cases "snd (filter_mode plan) \<and> port \<in> set BLOCKED_CONTROL_PLANE_PORTS")
  case True
  then have "filter (address_permitted L plan port) ips = []"
    by (simp add: address_permitted_filter [of L plan port _ host])
  with True show ?thesis by (auto simp: filter_resolved_addresses_def split: prod.splits)
next
  case False
  then have "address_permitted L plan port = (\<lambda>ip. address_rejection L plan host ip = None)"
    by (auto simp: address_permitted_filter [of L plan port _ host])
  moreover have "fst (filter_loop L plan host [] None ips)
      = append_unique [] (filter (\<lambda>ip. address_rejection L plan host ip = None) ips)"
    by (rule filter_loop_allowed)
  ultimately show ?thesis using False
    by (auto simp: filter_resolved_addresses_def Let_def split: prod.splits)
qed

subsection \<open>All-or-nothing validation\<close>

lemma check_each_Inr: "check_each check xs = Inr u \<longleftrightarrow> (\<forall>x\<in>set xs. check x = None)"
  by (induction xs) (auto split: option.splits)

lemma map_err_Inr [simp]: "map_err f r = Inr x \<longleftrightarrow> r = Inr x"
  by (cases r) (auto simp: map_err_def)

text \<open>The addresses a plan looks at, before they are checked.\<close>

definition candidate_addresses ::
  "resolver_env \<Rightarrow> string \<Rightarrow> nat \<Rightarrow> nat \<Rightarrow> ('n4, 'n6) AddressAuthorization \<Rightarrow> DenialReason + SocketAddr list" where
  "candidate_addresses E host port pid plan =
     (case plan of
        DefaultPublicOnly \<Rightarrow> resolve_socket_addrs E host port 0 NameAuthorized
      | ExactDeclaredHost \<Rightarrow> resolve_socket_addrs E host port 0 NameAuthorized
      | BackendPinnedGateway ip \<Rightarrow> Inr [(ip, port)]
      | PinnedResolved ips \<Rightarrow> Inr (map (\<lambda>ip. (ip, port)) ips)
      | _ \<Rightarrow> resolve_socket_addrs E host port pid IpConstrained)"

text \<open>What the development relies on of \<open>ipnet\<close>: the network of a single address holds that
  address only.\<close>

definition cidr_ok :: "('n4, 'n6) cidr_lib \<Rightarrow> bool" where
  "cidr_ok L = (\<forall>ip ip'. cl_contains L (cl_from L ip) ip' \<longleftrightarrow> ip' = ip)"

lemma resolve_nonempty: "resolve_socket_addrs E host port pid binding = Inr addrs \<Longrightarrow> addrs \<noteq> []"
  by (auto simp: resolve_socket_addrs_def resolve_ip_literal_def resolve_nonliteral_socket_addrs_def
      resolve_from_sandbox_hosts_def Let_def split: option.splits if_splits sum.splits)

lemma if_Some_None: "((if b then Some x else y) = None) \<longleftrightarrow> \<not> b \<and> y = None"
  by simp

lemma ball_conj_const: "xs \<noteq> [] \<Longrightarrow> (\<forall>x\<in>set xs. p \<and> Q x) \<longleftrightarrow> p \<and> (\<forall>x\<in>set xs. Q x)"
  by (cases xs) auto

text \<open>Each check accepts a non-empty list when every address passes.\<close>

lemma checks_Inr:
  assumes "addrs \<noteq> []"
  shows "reject_internal_resolved_addrs host addrs = Inr u
      \<longleftrightarrow> (\<forall>a\<in>set addrs. address_permitted L (DefaultPublicOnly :: ('n4, 'n6) AddressAuthorization) port (fst a))"
    and "validate_declared_endpoint_resolved_addrs host port addrs = Inr u
      \<longleftrightarrow> (\<forall>a\<in>set addrs. address_permitted L (ExactDeclaredHost :: ('n4, 'n6) AddressAuthorization) port (fst a))"
    and "validate_allowed_ips_for_resolved_addrs L host port addrs nets = Inr u
      \<longleftrightarrow> (\<forall>a\<in>set addrs. address_permitted L (ExplicitAllowedIps nets) port (fst a))"
  using assms
  by (simp_all add: reject_internal_resolved_addrs_def validate_declared_endpoint_resolved_addrs_def
      validate_allowed_ips_for_resolved_addrs_def address_permitted_def check_each_Inr if_Some_None
      case_prod_beta ball_conj_const list_ex_iff)

lemma permitted_literal:
  assumes "cidr_ok L"
  shows "address_permitted L (ImplicitIpLiteral ip) port = address_permitted L (ExplicitAllowedIps [cl_from L ip]) port"
  using assms by (auto simp: address_permitted_def cidr_ok_def fun_eq_iff)

lemma resolve_check_Inr:
  assumes "\<And>addrs. R = Inr addrs \<Longrightarrow> (chk addrs = Inr ()) = A addrs"
  shows "bindE (map_err f R) (\<lambda>addrs. bindE (map_err g (chk addrs)) (\<lambda>_. Inr addrs)) = Inr addrs \<longleftrightarrow> R = Inr addrs \<and> A addrs"
  using assms by (cases R) auto

lemma resolve_and_check_Inr:
  "resolve_and_reject_internal E host port = Inr addrs \<longleftrightarrow>
     resolve_socket_addrs E host port 0 NameAuthorized = Inr addrs
     \<and> (\<forall>a\<in>set addrs. address_permitted L (DefaultPublicOnly :: ('n4, 'n6) AddressAuthorization) port (fst a))"
  "resolve_and_check_declared_endpoint E host port = Inr addrs \<longleftrightarrow>
     resolve_socket_addrs E host port 0 NameAuthorized = Inr addrs
     \<and> (\<forall>a\<in>set addrs. address_permitted L (ExactDeclaredHost :: ('n4, 'n6) AddressAuthorization) port (fst a))"
  "resolve_and_check_allowed_ips L E host port nets pid = Inr addrs \<longleftrightarrow>
     resolve_socket_addrs E host port pid IpConstrained = Inr addrs
     \<and> (\<forall>a\<in>set addrs. address_permitted L (ExplicitAllowedIps nets) port (fst a))"
proof -
  note checks = checks_Inr [where L = L and port = port and host = host, OF resolve_nonempty]
  show "resolve_and_reject_internal E host port = Inr addrs \<longleftrightarrow>
      resolve_socket_addrs E host port 0 NameAuthorized = Inr addrs
      \<and> (\<forall>a\<in>set addrs. address_permitted L (DefaultPublicOnly :: ('n4, 'n6) AddressAuthorization) port (fst a))"
    unfolding resolve_and_reject_internal_def by (rule resolve_check_Inr) (rule checks(1))
  show "resolve_and_check_declared_endpoint E host port = Inr addrs \<longleftrightarrow>
      resolve_socket_addrs E host port 0 NameAuthorized = Inr addrs
      \<and> (\<forall>a\<in>set addrs. address_permitted L (ExactDeclaredHost :: ('n4, 'n6) AddressAuthorization) port (fst a))"
    unfolding resolve_and_check_declared_endpoint_def by (rule resolve_check_Inr) (rule checks(2))
  show "resolve_and_check_allowed_ips L E host port nets pid = Inr addrs \<longleftrightarrow>
      resolve_socket_addrs E host port pid IpConstrained = Inr addrs
      \<and> (\<forall>a\<in>set addrs. address_permitted L (ExplicitAllowedIps nets) port (fst a))"
    unfolding resolve_and_check_allowed_ips_def by (rule resolve_check_Inr) (rule checks(3))
qed

lemma trusted_gateway_Inr:
  "resolve_and_check_trusted_gateway E host port gw pid = Inr addrs \<longleftrightarrow>
     resolve_socket_addrs E host port pid IpConstrained = Inr addrs
     \<and> (\<forall>a\<in>set addrs. address_permitted L (TrustedGatewayAlias gw) port (fst a))"
proof (cases "resolve_socket_addrs E host port pid IpConstrained")
  case (Inr x)
  then have "x \<noteq> []" by (rule resolve_nonempty)
  moreover from this have "\<exists>a b. (a, b) \<in> set x" by (cases x) auto
  ultimately show ?thesis using Inr
    by (auto simp: resolve_and_check_trusted_gateway_def address_permitted_def check_each_Inr if_Some_None
        case_prod_beta ball_conj_const)
qed (simp add: resolve_and_check_trusted_gateway_def)

lemma validate_destination_iff:
  assumes "cidr_ok L"
  shows "validate_destination L E host port pid plan = Inr c \<longleftrightarrow>
    (\<exists>addrs. candidate_addresses E host port pid plan = Inr addrs
       \<and> (\<forall>a\<in>set addrs. address_permitted L plan port (fst a))
       \<and> c = \<lparr>uc_host = host, uc_port = port, uc_addrs = addrs\<rparr>)"
proof (cases plan)
  case (ImplicitIpLiteral ip)
  then show ?thesis
    by (auto simp: validate_destination_def candidate_addresses_def resolve_and_check_Inr(3) permitted_literal [OF assms])
qed (auto simp: validate_destination_def candidate_addresses_def resolve_and_check_Inr(1,2) [where L = L]
      resolve_and_check_Inr(3) trusted_gateway_Inr [where L = L] address_permitted_def [where plan = "PinnedResolved _"]
      address_permitted_def [where plan = "BackendPinnedGateway _"] split: if_splits)

lemma cloud_metadata_blocked: "is_cloud_metadata_ip ip \<Longrightarrow> is_always_blocked_ip ip"
proof -
  have "v4_is_link_local (v4_new 169 254 169 254)" by code_simp
  then show "is_cloud_metadata_ip ip \<Longrightarrow> is_always_blocked_ip ip"
    by (auto simp: is_cloud_metadata_ip_def CLOUD_METADATA_IPS_def is_always_blocked_ip_def is_link_local_ip_def
        split: IpAddress.splits option.splits if_splits)
qed

lemma build_validation_plan_cases:
  assumes "build_validation_plan L host nhost bg tg raw exact = Inr plan"
  obtains (backend) ip where "plan = BackendPinnedGateway ip" "is_host_gateway_alias nhost" "bg = Some ip"
  | (trusted) ip where "plan = TrustedGatewayAlias ip" "is_host_gateway_alias nhost" "tg = Some ip"
  | (explicit) nets where "plan = ExplicitAllowedIps nets" "raw \<noteq> []" "parse_allowed_ips L raw = Inr nets"
  | (literal) ip where "plan = ImplicitIpLiteral ip" "parse_ip (normalize_host_lookup_key host) = Some ip" "raw = []"
  | (exact) "plan = ExactDeclaredHost" "exact" "raw = []"
  | (public) "plan = DefaultPublicOnly" "\<not> exact" "raw = []"
  using assms
  by (auto simp: build_validation_plan_def implicit_allowed_ips_for_ip_host_def Let_def
      split: if_splits option.splits sum.splits list.splits)

lemma always_blocked_internal: "is_always_blocked_ip ip \<Longrightarrow> is_internal_ip ip"
  by (cases ip) (auto simp: always_blocked4 always_blocked6 internal6 is_internal_ip_def [of "Ip4 _"] internal4 in_blocks_def)

text \<open>What any address permitted by a built plan satisfies.\<close>

lemma permitted_by_built_plan:
  assumes plan: "build_validation_plan L host nhost bg tg raw exact = Inr plan"
    and ok: "address_permitted L plan port ip"
  shows "\<not> is_cloud_metadata_ip ip
    \<and> (is_always_blocked_ip ip \<longrightarrow> is_host_gateway_alias nhost \<and> ip \<in> set_option bg \<union> set_option tg)
    \<and> (is_internal_ip ip \<longrightarrow> port \<notin> set BLOCKED_CONTROL_PLANE_PORTS
        \<and> (is_host_gateway_alias nhost \<or> raw \<noteq> [] \<or> parse_ip (normalize_host_lookup_key host) = Some ip \<or> exact))
    \<and> (raw \<noteq> [] \<and> \<not> is_host_gateway_alias nhost \<longrightarrow>
        (\<exists>nets. parse_allowed_ips L raw = Inr nets \<and> (\<exists>n\<in>set nets. cl_contains L n ip)))"
proof -
  note classes = cloud_metadata_blocked [of ip] always_blocked_internal [of ip]
  from plan show ?thesis
    by (cases rule: build_validation_plan_cases) (use ok classes in \<open>simp_all add: address_permitted_def, blast+\<close>)
qed

section \<open>Properties\<close>

text \<open>A concrete network type with its text form, and an environment that resolves one name.\<close>

definition pair_cidr :: "(Ipv4Addr \<times> nat, Ipv6Addr \<times> nat) cidr_lib" where
  "pair_cidr =
     \<lparr>cl_net = pair_net,
      cl_parse = (\<lambda>s. case split_on (CHR ''/'') s of
          [a, p] \<Rightarrow> (case (parse_ip a, parse_unsigned 33 p) of
             (Some (Ip4 v), Some n) \<Rightarrow> Some (Net4 (v, n)) | _ \<Rightarrow> None)
        | _ \<Rightarrow> None),
      cl_from = (\<lambda>ip. case ip of Ip4 v \<Rightarrow> Net4 (v, 32) | Ip6 v \<Rightarrow> Net6 (v, 128)),
      cl_contains = net_member pair_net\<rparr>"

lemma pair_cidr_ok: "cidr_ok pair_cidr"
proof -
  have "word_of_nat (unat a) = a" for a :: "'w::len word" by simp
  then show ?thesis
    by (auto simp: cidr_ok_def pair_cidr_def net_member_def pair_net_def word_unat_eq_iff word_le_nat_alt split: IpAddress.splits)
qed

definition sample_env :: resolver_env where
  "sample_env = \<lparr>re_lookup_host = (\<lambda>host port. if host = ''db.example.com'' then Inr [(Ip4 (v4_new 10 0 0 5), port)] else Inl ''not found''),
     re_hosts_file = (\<lambda>_. None)\<rparr>"

text \<open>C32. The two ways of checking addresses implement one rule. Filtering a resolver answer keeps
  exactly the addresses that the plan permits, without duplicates, and fails when none is left;
  validating a destination for a dial succeeds exactly when it resolves and every candidate is
  permitted, and then dials those candidates.\<close>
theorem destination_rule_agreement:
  assumes "cidr_ok L"
  shows "(filter_resolved_addresses L plan host port ips = Inr out
      \<longleftrightarrow> out \<noteq> [] \<and> out = append_unique [] (filter (address_permitted L plan port) ips))
    \<and> (validate_destination L E host port pid plan = Inr c
      \<longleftrightarrow> (\<exists>addrs. candidate_addresses E host port pid plan = Inr addrs
            \<and> (\<forall>a\<in>set addrs. address_permitted L plan port (fst a))
            \<and> c = \<lparr>uc_host = host, uc_port = port, uc_addrs = addrs\<rparr>))"
  using filter_resolved_addresses_iff validate_destination_iff [OF assms] by (rule conjI)

theorem destination_rule_agreement_witness:
  "filter_resolved_addresses pair_cidr DefaultPublicOnly ''a.example'' 443
     [Ip4 (v4_new 10 0 0 1), Ip4 (v4_new 93 184 216 34)] = Inr [Ip4 (v4_new 93 184 216 34)]
   \<and> validate_destination pair_cidr sample_env ''db.example.com'' 5432 0 ExactDeclaredHost
     = Inr \<lparr>uc_host = ''db.example.com'', uc_port = 5432, uc_addrs = [(Ip4 (v4_new 10 0 0 5), 5432)]\<rparr>"
proof -
  have f: "append_unique [] (filter (address_permitted pair_cidr DefaultPublicOnly 443)
      [Ip4 (v4_new 10 0 0 1), Ip4 (v4_new 93 184 216 34)]) = [Ip4 (v4_new 93 184 216 34)]" by code_simp
  have c: "candidate_addresses sample_env ''db.example.com'' 5432 0 (ExactDeclaredHost :: (Ipv4Addr \<times> nat, Ipv6Addr \<times> nat) AddressAuthorization)
      = Inr [(Ip4 (v4_new 10 0 0 5), 5432)]" by code_simp
  have p: "address_permitted pair_cidr ExactDeclaredHost 5432 (Ip4 (v4_new 10 0 0 5))" by code_simp
  show ?thesis
    unfolding destination_rule_agreement [OF pair_cidr_ok, THEN conjunct1]
      destination_rule_agreement [OF pair_cidr_ok, THEN conjunct2] f c
    using p by simp
qed

text \<open>C6. Egress cannot be turned against the host. When a destination was planned from an endpoint and
  then validated, no address that is dialled is a cloud metadata address. An always-blocked address
  is dialled only as the configured gateway behind a gateway alias. An internal address is dialled
  only when the endpoint authorizes it (a gateway alias, an allowlist, an IP literal host or an
  exactly declared host) and never at a control-plane port. An allowlist restricts the addresses to
  its networks.\<close>
theorem planned_destination_safe:
  assumes "cidr_ok L" and "build_validation_plan L host nhost bg tg raw exact = Inr plan"
    and "validate_destination L E host port pid plan = Inr c" and "(ip, p) \<in> set (uc_addrs c)"
  shows "\<not> is_cloud_metadata_ip ip
    \<and> (is_always_blocked_ip ip \<longrightarrow> is_host_gateway_alias nhost \<and> ip \<in> set_option bg \<union> set_option tg)
    \<and> (is_internal_ip ip \<longrightarrow> port \<notin> set BLOCKED_CONTROL_PLANE_PORTS
        \<and> (is_host_gateway_alias nhost \<or> raw \<noteq> [] \<or> parse_ip (normalize_host_lookup_key host) = Some ip \<or> exact))
    \<and> (raw \<noteq> [] \<and> \<not> is_host_gateway_alias nhost \<longrightarrow>
        (\<exists>nets. parse_allowed_ips L raw = Inr nets \<and> (\<exists>n\<in>set nets. cl_contains L n ip)))"
  using assms(2)
proof (rule permitted_by_built_plan)
  show "address_permitted L plan port ip"
    using assms(3,4) unfolding validate_destination_iff [OF assms(1)] by fastforce
qed

theorem planned_destination_safe_witness:
  "\<not> is_cloud_metadata_ip (Ip4 (v4_new 10 0 0 5))"
proof -
  have p: "build_validation_plan pair_cidr ''db.example.com'' ''db.example.com'' None None [''10.0.0.0/24''] False
      = Inr (ExplicitAllowedIps [Net4 (v4_new 10 0 0 0, 24)])" by code_simp
  have v: "validate_destination pair_cidr sample_env ''db.example.com'' 5432 0 (ExplicitAllowedIps [Net4 (v4_new 10 0 0 0, 24)])
      = Inr \<lparr>uc_host = ''db.example.com'', uc_port = 5432, uc_addrs = [(Ip4 (v4_new 10 0 0 5), 5432)]\<rparr>" by code_simp
  have "(Ip4 (v4_new 10 0 0 5), 5432) \<in> set (uc_addrs \<lparr>uc_host = ''db.example.com'', uc_port = 5432, uc_addrs = [(Ip4 (v4_new 10 0 0 5), 5432)]\<rparr>)"
    by simp
  from planned_destination_safe [OF pair_cidr_ok p v this] show ?thesis by blast
qed

end
