(* ===== verification/Dns_Store.thy ===== *)
theory Dns_Store
  imports Net_Classify
begin

text \<open>
  The store of synthetic addresses of policy DNS
  (\<open>crates/openshell-supervisor-network/src/policy_dns/store.rs\<close>). A name that policy admits gets a
  synthetic address; a later connection to that address is correlated with the published endpoint
  contracts. Instants and durations are numbers; the random mapping identifier is an input of each
  publication. The locks are not modelled: every operation runs under the write or read lock, so
  an operation is one step. Telemetry events are left out, the flags that guard them are kept.
\<close>

section \<open>Definitions\<close>

subsection \<open>Data\<close>

definition OBSERVATION_POOL_DIVISOR :: nat where "OBSERVATION_POOL_DIVISOR = 4"
definition MAX_MAPPING_TTL :: nat where "MAX_MAPPING_TTL = 30 * 10 ^ 9"
definition USIZE_MAX :: nat where "USIZE_MAX = 2 ^ 64 - 1"

definition sat_add :: "nat \<Rightarrow> nat \<Rightarrow> nat \<Rightarrow> nat" where
  "sat_add limit a b = min (a + b) limit"

datatype AddressFamily = Ipv4 | Ipv6

definition family_accepts :: "AddressFamily \<Rightarrow> IpAddress \<Rightarrow> bool" where
  "family_accepts family address =
     (case (family, address) of (Ipv4, Ip4 _) \<Rightarrow> True | (Ipv6, Ip6 _) \<Rightarrow> True | _ \<Rightarrow> False)"

record PolicyEndpointId =
  pe_policy_name :: string
  pe_endpoint_index :: nat

record 'p ResolvedPortContract =
  rc_endpoint_id :: PolicyEndpointId
  rc_port :: nat
  rc_destination_plan :: 'p
  rc_pinned_addresses :: "IpAddress list"

record 'p PublishRequest =
  pr_normalized_name :: string
  pr_family :: AddressFamily
  pr_allocation_identity :: string
  pr_policy_generation :: nat
  pr_ttl :: nat
  pr_contracts :: "'p ResolvedPortContract list"

record 'p ResolvedEndpointRecord =
  rr_synthetic_address :: IpAddress
  rr_normalized_name :: string
  rr_family :: AddressFamily
  rr_policy_generation :: nat
  rr_mapping_generation :: nat
  rr_mapping_id :: nat
  rr_created_at :: nat
  rr_expires_at :: nat
  rr_contracts :: "'p ResolvedPortContract list"

definition is_observation :: "'p ResolvedEndpointRecord \<Rightarrow> bool" where
  "is_observation r = (rr_contracts r = [])"

definition allowed_ports :: "'p ResolvedEndpointRecord \<Rightarrow> nat set" where
  "allowed_ports r = set (map rc_port (rr_contracts r))"

record 'p MappingLookup =
  ml_record :: "'p ResolvedEndpointRecord"
  ml_port :: nat

record SyntheticPools =
  sp_start4 :: Ipv4Addr
  sp_end4 :: Ipv4Addr
  sp_start6 :: Ipv6Addr
  sp_end6 :: Ipv6Addr

record StoreConfig =
  sc_pools :: SyntheticPools
  sc_max_mappings :: nat

datatype StoreConfigError = InvalidPool | ZeroCapacity

datatype PublishError = PublishStalePolicy | PublishInvalidMapping | PoolExhausted | ObservationBudgetExhausted

datatype MappingLookupError = Missing | Expired | StalePolicy | PortMismatch | EndpointMismatch | InvalidMapping

datatype AllocationIdentity = Observation | Contracts string

record AllocationKey =
  ak_normalized_name :: string
  ak_family :: AddressFamily
  ak_identity :: AllocationIdentity

record 'p StoreState =
  ss_records :: "(IpAddress, 'p ResolvedEndpointRecord) fmap"
  ss_allocations :: "(AllocationKey, IpAddress) fmap"
  ss_expired_allocations :: "IpAddress fset"
  ss_next_ipv4 :: nat
  ss_end_ipv4 :: nat
  ss_next_ipv6 :: nat
  ss_end_ipv6 :: nat
  ss_next_mapping_generation :: nat
  ss_ipv4_high_water_emitted :: bool
  ss_ipv6_high_water_emitted :: bool

subsection \<open>Configuration\<close>

definition SyntheticPools_new ::
  "Ipv4Addr \<Rightarrow> Ipv4Addr \<Rightarrow> Ipv6Addr \<Rightarrow> Ipv6Addr \<Rightarrow> StoreConfigError + SyntheticPools" where
  "SyntheticPools_new start4 end4 start6 end6 =
     (if end4 < start4 \<or> end6 < start6 then Inl InvalidPool
      else if list_ex is_always_blocked_ip [Ip4 start4, Ip4 end4] then Inl InvalidPool
      else if list_ex is_always_blocked_ip [Ip6 start6, Ip6 end6] then Inl InvalidPool
      else Inr \<lparr>sp_start4 = start4, sp_end4 = end4, sp_start6 = start6, sp_end6 = end6\<rparr>)"

definition pool_capacity :: "SyntheticPools \<Rightarrow> AddressFamily \<Rightarrow> nat" where
  "pool_capacity pools family =
     min USIZE_MAX
       (case family of
          Ipv4 \<Rightarrow> unat (sp_end4 pools) - unat (sp_start4 pools) + 1
        | Ipv6 \<Rightarrow> unat (sp_end6 pools) - unat (sp_start6 pools) + 1)"

definition StoreConfig_new :: "SyntheticPools \<Rightarrow> nat \<Rightarrow> StoreConfigError + StoreConfig" where
  "StoreConfig_new pools max_mappings =
     (if max_mappings = 0 then Inl ZeroCapacity
      else Inr \<lparr>sc_pools = pools, sc_max_mappings = max_mappings\<rparr>)"

definition store_new :: "StoreConfig \<Rightarrow> 'p StoreState" where
  "store_new C =
     \<lparr>ss_records = fmempty, ss_allocations = fmempty, ss_expired_allocations = {||},
      ss_next_ipv4 = unat (sp_start4 (sc_pools C)), ss_end_ipv4 = unat (sp_end4 (sc_pools C)),
      ss_next_ipv6 = unat (sp_start6 (sc_pools C)), ss_end_ipv6 = unat (sp_end6 (sc_pools C)),
      ss_next_mapping_generation = 0,
      ss_ipv4_high_water_emitted = False, ss_ipv6_high_water_emitted = False\<rparr>"

definition family_limit :: "StoreConfig \<Rightarrow> AddressFamily \<Rightarrow> nat" where
  "family_limit C family = min (pool_capacity (sc_pools C) family) (sc_max_mappings C)"

definition observation_budget :: "StoreConfig \<Rightarrow> AddressFamily \<Rightarrow> nat" where
  "observation_budget C family = max (family_limit C family div OBSERVATION_POOL_DIVISOR) 1"

subsection \<open>Publication\<close>

definition allocate_address :: "AddressFamily \<Rightarrow> 'p StoreState \<Rightarrow> (IpAddress \<times> 'p StoreState) option" where
  "allocate_address family st =
     (case family of
        Ipv4 \<Rightarrow>
          if ss_next_ipv4 st \<le> ss_end_ipv4 st
          then Some (Ip4 (word_of_nat (ss_next_ipv4 st)),
                     st\<lparr>ss_next_ipv4 := sat_add (2 ^ 32 - 1) (ss_next_ipv4 st) 1\<rparr>)
          else None
      | Ipv6 \<Rightarrow>
          if ss_next_ipv6 st \<le> ss_end_ipv6 st
          then Some (Ip6 (word_of_nat (ss_next_ipv6 st)),
                     st\<lparr>ss_next_ipv6 := sat_add (2 ^ 128 - 1) (ss_next_ipv6 st) 1\<rparr>)
          else None)"

definition count_allocations :: "(AllocationKey \<Rightarrow> bool) \<Rightarrow> 'p StoreState \<Rightarrow> nat" where
  "count_allocations P st = fcard (ffilter P (fmdom (ss_allocations st)))"

definition mark_high_water :: "StoreConfig \<Rightarrow> AddressFamily \<Rightarrow> 'p StoreState \<Rightarrow> 'p StoreState" where
  "mark_high_water C family st =
     (let allocated = count_allocations (\<lambda>k. ak_family k = family) st
      in if min USIZE_MAX (allocated * 5) \<ge> min USIZE_MAX (family_limit C family * 4)
         then (case family of
                 Ipv4 \<Rightarrow> st\<lparr>ss_ipv4_high_water_emitted := True\<rparr>
               | Ipv6 \<Rightarrow> st\<lparr>ss_ipv6_high_water_emitted := True\<rparr>)
         else st)"

definition allocate_identity ::
  "StoreConfig \<Rightarrow> AllocationKey \<Rightarrow> 'p StoreState \<Rightarrow> (PublishError + IpAddress) \<times> 'p StoreState" where
  "allocate_identity C key st =
     (let family = ak_family key
      in if ak_identity key = Observation
            \<and> count_allocations (\<lambda>k. ak_identity k = Observation \<and> ak_family k = family) st
                \<ge> observation_budget C family
         then (Inl ObservationBudgetExhausted, st)
         else if count_allocations (\<lambda>_. True) st \<ge> sc_max_mappings C then (Inl PoolExhausted, st)
         else (case allocate_address family st of
                 None \<Rightarrow> (Inl PoolExhausted, st)
               | Some (address, st) \<Rightarrow>
                   (Inr address, mark_high_water C family
                      (st\<lparr>ss_allocations := fmupd key address (ss_allocations st)\<rparr>))))"

definition store_record ::
  "AllocationKey \<Rightarrow> nat \<Rightarrow> nat \<Rightarrow> 'p ResolvedPortContract list \<Rightarrow> nat \<Rightarrow> nat \<Rightarrow> IpAddress \<Rightarrow> 'p StoreState
   \<Rightarrow> 'p ResolvedEndpointRecord \<times> 'p StoreState" where
  "store_record key policy_generation ttl contracts now uuid address st =
     (let generation = sat_add (2 ^ 64 - 1) (ss_next_mapping_generation st) 1;
          record = \<lparr>rr_synthetic_address = address, rr_normalized_name = ak_normalized_name key,
                    rr_family = ak_family key, rr_policy_generation = policy_generation,
                    rr_mapping_generation = generation, rr_mapping_id = uuid,
                    rr_created_at = now, rr_expires_at = now + ttl, rr_contracts = contracts\<rparr>
      in (record,
          st\<lparr>ss_next_mapping_generation := generation,
             ss_expired_allocations := ss_expired_allocations st |-| {|address|},
             ss_records := fmupd address record (ss_records st)\<rparr>))"

definition publish_checked ::
  "StoreConfig \<Rightarrow> AllocationKey \<Rightarrow> nat \<Rightarrow> nat \<Rightarrow> 'p ResolvedPortContract list \<Rightarrow> nat \<Rightarrow> nat \<Rightarrow> 'p StoreState
   \<Rightarrow> (PublishError + 'p ResolvedEndpointRecord) \<times> 'p StoreState" where
  "publish_checked C key policy_generation ttl contracts now uuid st =
     (case (case fmlookup (ss_allocations st) key of
              Some address \<Rightarrow> (Inr address, st)
            | None \<Rightarrow> allocate_identity C key st) of
        (Inl e, st) \<Rightarrow> (Inl e, st)
      | (Inr address, st) \<Rightarrow>
          if (case fmlookup (ss_records st) address of
                None \<Rightarrow> False | Some r \<Rightarrow> rr_policy_generation r > policy_generation)
          then (Inl PublishStalePolicy, st)
          else (case store_record key policy_generation ttl contracts now uuid address st of
                  (record, st) \<Rightarrow> (Inr record, st)))"

definition contract_invalid :: "AddressFamily \<Rightarrow> 'p ResolvedPortContract \<Rightarrow> bool" where
  "contract_invalid family contract =
     (rc_port contract = 0 \<or> rc_pinned_addresses contract = []
      \<or> list_ex (\<lambda>address. \<not> family_accepts family address) (rc_pinned_addresses contract))"

definition request_key :: "'p PublishRequest \<Rightarrow> AllocationKey" where
  "request_key request =
     \<lparr>ak_normalized_name = pr_normalized_name request, ak_family = pr_family request,
      ak_identity = Contracts (pr_allocation_identity request)\<rparr>"

definition publish ::
  "StoreConfig \<Rightarrow> 'p PublishRequest \<Rightarrow> nat \<Rightarrow> nat \<Rightarrow> nat \<Rightarrow> 'p StoreState
   \<Rightarrow> (PublishError + 'p ResolvedEndpointRecord) \<times> 'p StoreState" where
  "publish C request current_policy_generation now uuid st =
     (if pr_policy_generation request \<noteq> current_policy_generation then (Inl PublishStalePolicy, st)
      else if pr_ttl request = 0 \<or> pr_contracts request = []
              \<or> list_ex (contract_invalid (pr_family request)) (pr_contracts request)
      then (Inl PublishInvalidMapping, st)
      else publish_checked C (request_key request) (pr_policy_generation request) (pr_ttl request)
             (pr_contracts request) now uuid st)"

definition observation_key :: "string \<Rightarrow> AddressFamily \<Rightarrow> AllocationKey" where
  "observation_key name family =
     \<lparr>ak_normalized_name = name, ak_family = family, ak_identity = Observation\<rparr>"

definition publish_observation ::
  "StoreConfig \<Rightarrow> string \<Rightarrow> AddressFamily \<Rightarrow> nat \<Rightarrow> nat \<Rightarrow> nat \<Rightarrow> nat \<Rightarrow> 'p StoreState
   \<Rightarrow> (PublishError + 'p ResolvedEndpointRecord) \<times> 'p StoreState" where
  "publish_observation C name family policy_generation current_policy_generation now uuid st =
     (if policy_generation \<noteq> current_policy_generation then (Inl PublishStalePolicy, st)
      else publish_checked C (observation_key name family) policy_generation MAX_MAPPING_TTL [] now uuid st)"

subsection \<open>Lookup and expiry\<close>

definition live_record ::
  "'p StoreState \<Rightarrow> IpAddress \<Rightarrow> nat \<Rightarrow> nat \<Rightarrow> MappingLookupError + 'p ResolvedEndpointRecord" where
  "live_record st address current_policy_generation now =
     (case fmlookup (ss_records st) address of
        None \<Rightarrow> if address |\<in>| ss_expired_allocations st then Inl Expired else Inl Missing
      | Some record \<Rightarrow>
          if now \<ge> rr_expires_at record then Inl Expired
          else if rr_policy_generation record \<noteq> current_policy_generation then Inl StalePolicy
          else Inr record)"

definition lookup ::
  "'p StoreState \<Rightarrow> IpAddress \<Rightarrow> nat \<Rightarrow> nat \<Rightarrow> nat \<Rightarrow> MappingLookupError + 'p MappingLookup" where
  "lookup st address port current_policy_generation now =
     bindE (live_record st address current_policy_generation now) (\<lambda>record.
       if \<not> list_ex (\<lambda>contract. rc_port contract = port) (rr_contracts record) then Inl PortMismatch
       else Inr \<lparr>ml_record = record, ml_port = port\<rparr>)"

definition lookup_intent ::
  "'p StoreState \<Rightarrow> IpAddress \<Rightarrow> nat \<Rightarrow> nat \<Rightarrow> nat \<Rightarrow> MappingLookupError + 'p MappingLookup" where
  "lookup_intent st address port current_policy_generation now =
     bindE (live_record st address current_policy_generation now) (\<lambda>record.
       if \<not> is_observation record \<and> \<not> list_ex (\<lambda>contract. rc_port contract = port) (rr_contracts record)
       then Inl PortMismatch
       else Inr \<lparr>ml_record = record, ml_port = port\<rparr>)"

definition expired_records :: "nat \<Rightarrow> 'p StoreState \<Rightarrow> IpAddress fset" where
  "expired_records now st =
     ffilter (\<lambda>address. case fmlookup (ss_records st) address of
        None \<Rightarrow> False | Some record \<Rightarrow> now \<ge> rr_expires_at record) (fmdom (ss_records st))"

definition expire :: "nat \<Rightarrow> 'p StoreState \<Rightarrow> nat \<times> 'p StoreState" where
  "expire now st =
     (let expired = expired_records now st
      in (fcard expired,
          st\<lparr>ss_records := fmdrop_fset expired (ss_records st),
             ss_expired_allocations := ss_expired_allocations st |\<union>| expired\<rparr>))"

definition pinned_addresses_for ::
  "'p MappingLookup \<Rightarrow> PolicyEndpointId list \<Rightarrow> MappingLookupError + IpAddress list" where
  "pinned_addresses_for m endpoint_ids =
     (let addresses = dedup_by (\<lambda>a. a) {}
        (concat (map rc_pinned_addresses
          (filter (\<lambda>contract. rc_port contract = ml_port m \<and> rc_endpoint_id contract \<in> set endpoint_ids)
             (rr_contracts (ml_record m)))))
      in if addresses = [] then Inl EndpointMismatch else Inr addresses)"

definition mapped_endpoint_ids :: "'p MappingLookup \<Rightarrow> PolicyEndpointId list" where
  "mapped_endpoint_ids m =
     map rc_endpoint_id (filter (\<lambda>contract. rc_port contract = ml_port m) (rr_contracts (ml_record m)))"

subsection \<open>Runs\<close>

datatype 'p store_op =
    Publish "'p PublishRequest" nat nat nat
  | PublishObservation string AddressFamily nat nat nat nat
  | Expire nat

fun store_step :: "StoreConfig \<Rightarrow> 'p StoreState \<Rightarrow> 'p store_op \<Rightarrow> 'p StoreState" where
  "store_step C st (Publish request current now uuid) = snd (publish C request current now uuid st)"
| "store_step C st (PublishObservation name family generation current now uuid) =
     snd (publish_observation C name family generation current now uuid st)"
| "store_step C st (Expire now) = snd (expire now st)"

definition store_run :: "StoreConfig \<Rightarrow> 'p store_op list \<Rightarrow> 'p StoreState" where
  "store_run C ops = foldl (store_step C) (store_new C) ops"

section \<open>Lemmas\<close>

subsection \<open>Both families at once\<close>

definition fam_first :: "StoreConfig \<Rightarrow> AddressFamily \<Rightarrow> nat" where
  "fam_first C f = (case f of Ipv4 \<Rightarrow> unat (sp_start4 (sc_pools C)) | Ipv6 \<Rightarrow> unat (sp_start6 (sc_pools C)))"

definition fam_last :: "StoreConfig \<Rightarrow> AddressFamily \<Rightarrow> nat" where
  "fam_last C f = (case f of Ipv4 \<Rightarrow> unat (sp_end4 (sc_pools C)) | Ipv6 \<Rightarrow> unat (sp_end6 (sc_pools C)))"

definition fam_max :: "AddressFamily \<Rightarrow> nat" where
  "fam_max f = (case f of Ipv4 \<Rightarrow> 2 ^ 32 - 1 | Ipv6 \<Rightarrow> 2 ^ 128 - 1)"

definition fam_next :: "'p StoreState \<Rightarrow> AddressFamily \<Rightarrow> nat" where
  "fam_next st f = (case f of Ipv4 \<Rightarrow> ss_next_ipv4 st | Ipv6 \<Rightarrow> ss_next_ipv6 st)"

definition fam_end :: "'p StoreState \<Rightarrow> AddressFamily \<Rightarrow> nat" where
  "fam_end st f = (case f of Ipv4 \<Rightarrow> ss_end_ipv4 st | Ipv6 \<Rightarrow> ss_end_ipv6 st)"

definition fam_addr :: "AddressFamily \<Rightarrow> nat \<Rightarrow> IpAddress" where
  "fam_addr f n = (case f of Ipv4 \<Rightarrow> Ip4 (word_of_nat n) | Ipv6 \<Rightarrow> Ip6 (word_of_nat n))"

definition fam_bump :: "AddressFamily \<Rightarrow> 'p StoreState \<Rightarrow> 'p StoreState" where
  "fam_bump f st =
     (case f of
        Ipv4 \<Rightarrow> st\<lparr>ss_next_ipv4 := sat_add (fam_max f) (ss_next_ipv4 st) 1\<rparr>
      | Ipv6 \<Rightarrow> st\<lparr>ss_next_ipv6 := sat_add (fam_max f) (ss_next_ipv6 st) 1\<rparr>)"

lemma allocate_address_eq:
  "allocate_address f st =
     (if fam_next st f \<le> fam_end st f then Some (fam_addr f (fam_next st f), fam_bump f st) else None)"
  by (cases f) (simp_all add: allocate_address_def fam_next_def fam_end_def fam_addr_def fam_bump_def fam_max_def)

lemma fam_bump_simps [simp]:
  "ss_records (fam_bump f st) = ss_records st" "ss_allocations (fam_bump f st) = ss_allocations st"
  "ss_expired_allocations (fam_bump f st) = ss_expired_allocations st" "fam_end (fam_bump f st) g = fam_end st g"
  "fam_next (fam_bump f st) g = (if g = f then sat_add (fam_max f) (fam_next st f) 1 else fam_next st g)"
  by (cases f; cases g; simp add: fam_bump_def fam_end_def fam_next_def)+

lemma fam_addr_inject:
  assumes "m \<le> fam_max f" "n \<le> fam_max g"
  shows "fam_addr f m = fam_addr g n \<longleftrightarrow> f = g \<and> m = n"
proof -
  have "unat (word_of_nat m :: 32 word) = m" if "m \<le> 2 ^ 32 - 1" for m
    using that by (simp add: unat_of_nat)
  moreover have "unat (word_of_nat m :: 128 word) = m" if "m \<le> 2 ^ 128 - 1" for m
    using that by (simp add: unat_of_nat)
  ultimately show ?thesis using assms
    by (cases f; cases g) (auto simp: fam_addr_def fam_max_def word_unat_eq_iff)
qed

lemma fam_addr_family: "family_accepts f (fam_addr f n)"
  by (cases f) (simp_all add: family_accepts_def fam_addr_def)

lemma mark_high_water_simps [simp]:
  "ss_records (mark_high_water C f st) = ss_records st"
  "ss_allocations (mark_high_water C f st) = ss_allocations st"
  "ss_expired_allocations (mark_high_water C f st) = ss_expired_allocations st"
  "fam_end (mark_high_water C f st) g = fam_end st g" "fam_next (mark_high_water C f st) g = fam_next st g"
  by (cases f; cases g; simp add: mark_high_water_def Let_def fam_end_def fam_next_def)+

lemma fam_update_simps [simp]:
  "fam_next (st\<lparr>ss_allocations := x\<rparr>) f = fam_next st f" "fam_end (st\<lparr>ss_allocations := x\<rparr>) f = fam_end st f"
  "fam_next (st\<lparr>ss_records := r, ss_expired_allocations := y\<rparr>) f = fam_next st f"
  "fam_end (st\<lparr>ss_records := r, ss_expired_allocations := y\<rparr>) f = fam_end st f"
  "fam_next (st\<lparr>ss_next_mapping_generation := g, ss_expired_allocations := y, ss_records := r\<rparr>) f = fam_next st f"
  "fam_end (st\<lparr>ss_next_mapping_generation := g, ss_expired_allocations := y, ss_records := r\<rparr>) f = fam_end st f"
  by (cases f; simp add: fam_next_def fam_end_def)+

text \<open>The counts depend on the allocations only.\<close>

lemma count_cong: "ss_allocations a = ss_allocations b \<Longrightarrow> count_allocations P a = count_allocations P b"
  by (simp add: count_allocations_def)

lemma count_fresh:
  assumes "fmlookup (ss_allocations st) key = None" and "ss_allocations st' = fmupd key a (ss_allocations st)"
  shows "count_allocations P st' = (if P key then Suc (count_allocations P st) else count_allocations P st)"
proof -
  have "key |\<notin>| fmdom (ss_allocations st)" using assms(1) by (simp add: fmdom_notI)
  then have "ffilter P (finsert key (fmdom (ss_allocations st)))
      = (if P key then finsert key (ffilter P (fmdom (ss_allocations st))) else ffilter P (fmdom (ss_allocations st)))"
    and "key |\<notin>| ffilter P (fmdom (ss_allocations st))"
    by auto
  then show ?thesis by (simp add: count_allocations_def assms(2) fcard_finsert_disjoint)
qed

lemma count_split: "count_allocations P st = count_allocations (\<lambda>k. P k \<and> Q k) st + count_allocations (\<lambda>k. P k \<and> \<not> Q k) st"
proof -
  have "ffilter P A = ffilter (\<lambda>k. P k \<and> Q k) A |\<union>| ffilter (\<lambda>k. P k \<and> \<not> Q k) A" for A by auto
  moreover have "ffilter (\<lambda>k. P k \<and> Q k) A |\<inter>| ffilter (\<lambda>k. P k \<and> \<not> Q k) A = {||}" for A by auto
  ultimately show ?thesis by (metis count_allocations_def fcard_funion_disjoint)
qed

subsection \<open>The invariant\<close>

text \<open>A pool the allocator can exhaust: not empty, and its last address is not the last address of
  the family, where the saturating increment would stop moving.\<close>

definition pools_ok :: "StoreConfig \<Rightarrow> bool" where
  "pools_ok C = (\<forall>f. fam_first C f \<le> fam_last C f \<and> fam_last C f < fam_max f)"

definition cursor_inv :: "StoreConfig \<Rightarrow> 'p StoreState \<Rightarrow> bool" where
  "cursor_inv C st = (\<forall>f. fam_end st f = fam_last C f
      \<and> fam_next st f = fam_first C f + count_allocations (\<lambda>k. ak_family k = f) st
      \<and> fam_next st f \<le> Suc (fam_last C f))"

definition alloc_inv :: "StoreConfig \<Rightarrow> 'p StoreState \<Rightarrow> bool" where
  "alloc_inv C st = (\<forall>k a. fmlookup (ss_allocations st) k = Some a \<longrightarrow>
      (\<exists>n. fam_first C (ak_family k) \<le> n \<and> n < fam_next st (ak_family k) \<and> a = fam_addr (ak_family k) n)
      \<and> (\<forall>k'. fmlookup (ss_allocations st) k' = Some a \<longrightarrow> k' = k)
      \<and> (a |\<in>| ss_expired_allocations st \<or> fmlookup (ss_records st) a \<noteq> None))"

definition record_inv :: "'p StoreState \<Rightarrow> bool" where
  "record_inv st = (\<forall>a r. fmlookup (ss_records st) a = Some r \<longrightarrow> rr_synthetic_address r = a
      \<and> a |\<notin>| ss_expired_allocations st
      \<and> (\<exists>k. fmlookup (ss_allocations st) k = Some a \<and> ak_normalized_name k = rr_normalized_name r
           \<and> ak_family k = rr_family r \<and> (ak_identity k = Observation \<longleftrightarrow> is_observation r)))"

definition budget_inv :: "StoreConfig \<Rightarrow> 'p StoreState \<Rightarrow> bool" where
  "budget_inv C st = (count_allocations (\<lambda>_. True) st \<le> sc_max_mappings C
      \<and> (\<forall>f. count_allocations (\<lambda>k. ak_identity k = Observation \<and> ak_family k = f) st \<le> observation_budget C f))"

definition store_inv :: "StoreConfig \<Rightarrow> 'p StoreState \<Rightarrow> bool" where
  "store_inv C st = (cursor_inv C st \<and> alloc_inv C st \<and> record_inv st \<and> budget_inv C st)"

lemmas store_inv_defs = store_inv_def cursor_inv_def alloc_inv_def record_inv_def budget_inv_def

lemma store_inv_new:
  assumes "pools_ok C"
  shows "store_inv C (store_new C :: 'p StoreState)"
proof -
  define st where "st = (store_new C :: 'p StoreState)"
  have "count_allocations P st = 0" for P
    by (simp add: count_allocations_def st_def store_new_def fset_eq_iff)
  moreover have "fam_next st f = fam_first C f" "fam_end st f = fam_last C f" for f
    by (cases f; simp add: fam_next_def fam_end_def fam_first_def fam_last_def st_def store_new_def)+
  moreover have "ss_allocations st = fmempty" "ss_records st = fmempty"
    by (simp_all add: st_def store_new_def)
  ultimately have "store_inv C st" using assms by (simp add: store_inv_defs pools_ok_def le_SucI)
  then show ?thesis by (simp add: st_def)
qed

lemma inv_next_le:
  assumes "pools_ok C" "store_inv C st"
  shows "fam_next st f \<le> fam_max f"
proof -
  have "fam_next st f \<le> Suc (fam_last C f)" using assms(2) unfolding store_inv_def cursor_inv_def by blast
  also have "\<dots> \<le> fam_max f" using assms(1) by (simp add: pools_ok_def Suc_leI)
  finally show ?thesis .
qed

lemma inv_alloc_cases:
  assumes "store_inv C st" "fmlookup (ss_allocations st) k = Some a"
  obtains n where "fam_first C (ak_family k) \<le> n" "n < fam_next st (ak_family k)" "a = fam_addr (ak_family k) n"
  using assms unfolding store_inv_def alloc_inv_def by blast

text \<open>A fresh address belongs to no key, so it has no record.\<close>

lemma next_address_unused:
  assumes "pools_ok C" "store_inv C st" "fam_next st f \<le> fam_end st f"
  shows "fmlookup (ss_allocations st) k \<noteq> Some (fam_addr f (fam_next st f))"
    and "fmlookup (ss_records st) (fam_addr f (fam_next st f)) = None"
proof -
  show unused: "fmlookup (ss_allocations st) k \<noteq> Some (fam_addr f (fam_next st f))" for k
  proof
    assume "fmlookup (ss_allocations st) k = Some (fam_addr f (fam_next st f))"
    with assms(2) obtain n where n: "n < fam_next st (ak_family k)" "fam_addr f (fam_next st f) = fam_addr (ak_family k) n"
      by (rule inv_alloc_cases)
    then have le: "n \<le> fam_max (ak_family k)" using inv_next_le [OF assms(1,2), of "ak_family k"] by simp
    from n show False unfolding fam_addr_inject [OF inv_next_le [OF assms(1,2)] le] by auto
  qed
  show "fmlookup (ss_records st) (fam_addr f (fam_next st f)) = None"
    using unused assms(2) unfolding store_inv_def record_inv_def by (metis not_None_eq)
qed

subsection \<open>Outcomes of a publication\<close>

definition fresh_state :: "StoreConfig \<Rightarrow> AllocationKey \<Rightarrow> 'p StoreState \<Rightarrow> 'p StoreState" where
  "fresh_state C key st =
     (let f = ak_family key
      in mark_high_water C f ((fam_bump f st)\<lparr>ss_allocations :=
           fmupd key (fam_addr f (fam_next st f)) (ss_allocations st)\<rparr>))"

definition identity_available :: "StoreConfig \<Rightarrow> AllocationKey \<Rightarrow> 'p StoreState \<Rightarrow> bool" where
  "identity_available C key st =
     ((ak_identity key = Observation \<longrightarrow>
         count_allocations (\<lambda>k. ak_identity k = Observation \<and> ak_family k = ak_family key) st
         < observation_budget C (ak_family key))
      \<and> count_allocations (\<lambda>_. True) st < sc_max_mappings C
      \<and> fam_next st (ak_family key) \<le> fam_end st (ak_family key))"

lemma publish_checked_cases:
  assumes "pools_ok C" "store_inv C st"
    and "publish_checked C key generation ttl contracts now uuid st = (r, st')"
  obtains (rejected) e where "r = Inl e" "st' = st"
      "fmlookup (ss_allocations st) key = None \<Longrightarrow> \<not> identity_available C key st"
      "\<And>a. fmlookup (ss_allocations st) key = Some a \<Longrightarrow>
         \<exists>old. fmlookup (ss_records st) a = Some old \<and> generation < rr_policy_generation old"
  | (known) a where "fmlookup (ss_allocations st) key = Some a"
      "(case fmlookup (ss_records st) a of None \<Rightarrow> True | Some old \<Rightarrow> rr_policy_generation old \<le> generation)"
      "(\<exists>record. r = Inr record \<and> (record, st') = store_record key generation ttl contracts now uuid a st)"
  | (fresh) "fmlookup (ss_allocations st) key = None" "identity_available C key st"
      "(\<exists>record. r = Inr record \<and> (record, st') = store_record key generation ttl contracts now uuid
         (fam_addr (ak_family key) (fam_next st (ak_family key))) (fresh_state C key st))"
proof (cases "fmlookup (ss_allocations st) key")
  case (Some a)
  then show ?thesis using assms(3) known [of a] rejected
    by (auto simp: publish_checked_def not_less split: option.splits if_splits prod.splits)
next
  case None
  show ?thesis
  proof (cases "identity_available C key st")
    case True
    then have "allocate_identity C key st = (Inr (fam_addr (ak_family key) (fam_next st (ak_family key))), fresh_state C key st)"
      by (auto simp: allocate_identity_def identity_available_def allocate_address_eq fresh_state_def Let_def not_le)
    moreover have "fmlookup (ss_records (fresh_state C key st)) (fam_addr (ak_family key) (fam_next st (ak_family key))) = None"
      using next_address_unused(2) [OF assms(1,2)] True by (simp add: fresh_state_def Let_def identity_available_def)
    ultimately show ?thesis using assms(3) None True fresh
      by (auto simp: publish_checked_def split: prod.splits)
  next
    case False
    then have "\<exists>e. allocate_identity C key st = (Inl e, st)"
      by (auto simp: allocate_identity_def identity_available_def allocate_address_eq Let_def not_le)
    then show ?thesis using assms(3) None False rejected by (auto simp: publish_checked_def)
  qed
qed

subsection \<open>Every operation keeps the invariant\<close>

text \<open>The invariant with one address whose record is still to be written.\<close>

definition pending_inv :: "StoreConfig \<Rightarrow> IpAddress \<Rightarrow> 'p StoreState \<Rightarrow> bool" where
  "pending_inv C a st = (cursor_inv C st \<and> record_inv st \<and> budget_inv C st
      \<and> alloc_inv C (st\<lparr>ss_expired_allocations := finsert a (ss_expired_allocations st)\<rparr>))"

lemma fam_expired_simps [simp]:
  "fam_next (st\<lparr>ss_expired_allocations := x\<rparr>) f = fam_next st f" "fam_end (st\<lparr>ss_expired_allocations := x\<rparr>) f = fam_end st f"
  by (cases f; simp add: fam_next_def fam_end_def)+

lemma pending_inv_known: "store_inv C st \<Longrightarrow> pending_inv C a st"
  by (auto simp: store_inv_def pending_inv_def alloc_inv_def)

lemma cursor_budget_cong:
  assumes "ss_allocations st' = ss_allocations st" "\<And>f. fam_next st' f = fam_next st f" "\<And>f. fam_end st' f = fam_end st f"
  shows "cursor_inv C st' = cursor_inv C st" "budget_inv C st' = budget_inv C st"
  unfolding cursor_inv_def budget_inv_def assms(2,3) count_cong [OF assms(1)] by (rule refl)+

lemma store_record_inv:
  assumes "pending_inv C a st" and "fmlookup (ss_allocations st) key = Some a"
    and "ak_identity key = Observation \<longleftrightarrow> contracts = []"
    and "store_record key generation ttl contracts now uuid a st = (record, st')"
  shows "store_inv C st'"
proof -
  have st': "ss_allocations st' = ss_allocations st" "ss_records st' = fmupd a record (ss_records st)"
    "ss_expired_allocations st' = ss_expired_allocations st |-| {|a|}"
    "fam_next st' f = fam_next st f" "fam_end st' f = fam_end st f"
    and rec: "rr_synthetic_address record = a" "rr_normalized_name record = ak_normalized_name key"
    "rr_family record = ak_family key" "is_observation record \<longleftrightarrow> contracts = []" for f
    using assms(4) by (auto simp: store_record_def Let_def is_observation_def)
  have "cursor_inv C st'" "budget_inv C st'"
    using assms(1) cursor_budget_cong [OF st'(1,4,5)] by (simp_all add: pending_inv_def)
  moreover have "alloc_inv C st'"
    using assms(1) unfolding pending_inv_def alloc_inv_def st' by (simp, metis)
  moreover have "record_inv st'"
    using assms(1) assms(2,3) rec unfolding pending_inv_def record_inv_def st' by (simp, metis)
  ultimately show ?thesis by (simp add: store_inv_def)
qed

lemma fresh_state_simps [simp]:
  "ss_allocations (fresh_state C key st) = fmupd key (fam_addr (ak_family key) (fam_next st (ak_family key))) (ss_allocations st)"
  "ss_records (fresh_state C key st) = ss_records st"
  "ss_expired_allocations (fresh_state C key st) = ss_expired_allocations st"
  "fam_end (fresh_state C key st) f = fam_end st f"
  "fam_next (fresh_state C key st) f =
     (if f = ak_family key then sat_add (fam_max f) (fam_next st f) 1 else fam_next st f)"
  by (simp_all add: fresh_state_def Let_def)

lemma cursor_facts:
  assumes "store_inv C st"
  shows "fam_end st g = fam_last C g" "fam_next st g = fam_first C g + count_allocations (\<lambda>k. ak_family k = g) st"
    "fam_next st g \<le> Suc (fam_last C g)"
  using assms unfolding store_inv_def cursor_inv_def by blast+

lemma fresh_bump:
  assumes "pools_ok C" "store_inv C st" "identity_available C key st"
  shows "fam_next (fresh_state C key st) g = (if g = ak_family key then Suc (fam_next st g) else fam_next st g)"
proof -
  have "fam_next st (ak_family key) \<le> fam_last C (ak_family key)"
    using assms(3) by (simp add: identity_available_def cursor_facts(1) [OF assms(2)])
  with assms(1) show ?thesis by (auto simp: sat_add_def pools_ok_def min_def dest: le_less_trans)
qed

lemma fresh_cursor_inv:
  assumes "pools_ok C" "store_inv C st" "fmlookup (ss_allocations st) key = None" "identity_available C key st"
  shows "cursor_inv C (fresh_state C key st)"
  unfolding cursor_inv_def fresh_bump [OF assms(1,2,4)] fresh_state_simps(4)
proof (intro allI conjI)
  fix g
  show "(if g = ak_family key then Suc (fam_next st g) else fam_next st g)
      = fam_first C g + count_allocations (\<lambda>k. ak_family k = g) (fresh_state C key st)"
    using cursor_facts(2) [OF assms(2), of g] by (auto simp: count_fresh [OF assms(3) fresh_state_simps(1)])
  show "(if g = ak_family key then Suc (fam_next st g) else fam_next st g) \<le> Suc (fam_last C g)"
    using cursor_facts(1,3) [OF assms(2), of g] assms(4) by (auto simp: identity_available_def)
qed (rule cursor_facts(1) [OF assms(2)])

lemma fresh_record_inv:
  assumes "store_inv C st" "fmlookup (ss_allocations st) key = None"
  shows "record_inv (fresh_state C key st)"
  unfolding record_inv_def fresh_state_simps
proof (intro allI impI)
  fix a r
  assume "fmlookup (ss_records st) a = Some r"
  with assms(1) obtain k where r: "rr_synthetic_address r = a \<and> a |\<notin>| ss_expired_allocations st"
    and k: "fmlookup (ss_allocations st) k = Some a" "ak_normalized_name k = rr_normalized_name r"
      "ak_family k = rr_family r" "(ak_identity k = Observation) = is_observation r"
    unfolding store_inv_def record_inv_def by blast
  then have "k \<noteq> key" using assms(2) by auto
  with r k show "rr_synthetic_address r = a \<and> a |\<notin>| ss_expired_allocations st
      \<and> (\<exists>k. fmlookup (fmupd key (fam_addr (ak_family key) (fam_next st (ak_family key))) (ss_allocations st)) k = Some a
           \<and> ak_normalized_name k = rr_normalized_name r
           \<and> ak_family k = rr_family r \<and> (ak_identity k = Observation) = is_observation r)" by auto
qed

lemma fresh_alloc_inv:
  assumes ok: "pools_ok C" and inv: "store_inv C st" and avail: "identity_available C key st"
    and a0: "a0 = fam_addr (ak_family key) (fam_next st (ak_family key))"
  shows "alloc_inv C ((fresh_state C key st)\<lparr>ss_expired_allocations := finsert a0 (ss_expired_allocations st)\<rparr>)"
proof -
  let ?f = "ak_family key"
  have unused: "fmlookup (ss_allocations st) k \<noteq> Some a0" for k
    unfolding a0 by (rule next_address_unused(1) [OF ok inv]) (use avail in \<open>simp add: identity_available_def\<close>)
  have grow: "fam_next (fresh_state C key st) g = (if g = ?f then Suc (fam_next st g) else fam_next st g)" for g
    by (rule fresh_bump [OF ok inv avail])
  have main: "(\<exists>n. fam_first C (ak_family k) \<le> n \<and> n < fam_next (fresh_state C key st) (ak_family k) \<and> a = fam_addr (ak_family k) n)
      \<and> (\<forall>k'. fmlookup (fmupd key a0 (ss_allocations st)) k' = Some a \<longrightarrow> k' = k)
      \<and> (a |\<in>| finsert a0 (ss_expired_allocations st) \<or> fmlookup (ss_records st) a \<noteq> None)"
    if "fmlookup (fmupd key a0 (ss_allocations st)) k = Some a" for k a
  proof (cases "k = key")
    case True
    have lt: "fam_next st ?f < fam_next (fresh_state C key st) ?f" unfolding grow by simp
    have ge: "fam_first C ?f \<le> fam_next st ?f" unfolding cursor_facts(2) [OF inv] by simp
    have a: "a = a0" using that True by simp
    show ?thesis unfolding True a
    proof (intro conjI)
      show "\<exists>n\<ge>fam_first C ?f. n < fam_next (fresh_state C key st) ?f \<and> a0 = fam_addr ?f n"
        unfolding a0 using lt ge by (intro exI conjI) (assumption | rule refl)+
      show "\<forall>k'. fmlookup (fmupd key a0 (ss_allocations st)) k' = Some a0 \<longrightarrow> k' = key" using unused by simp
    qed simp
  next
    case False
    then have k: "fmlookup (ss_allocations st) k = Some a" using that by simp
    obtain n where n: "fam_first C (ak_family k) \<le> n" "n < fam_next st (ak_family k)" "a = fam_addr (ak_family k) n"
      using inv k by (rule inv_alloc_cases)
    have u: "\<forall>k'. fmlookup (ss_allocations st) k' = Some a \<longrightarrow> k' = k"
      and e: "a |\<in>| ss_expired_allocations st \<or> fmlookup (ss_records st) a \<noteq> None"
      using inv k unfolding store_inv_def alloc_inv_def by blast+
    have "a \<noteq> a0" using unused [of k] k by metis
    with u have "\<forall>k'. fmlookup (fmupd key a0 (ss_allocations st)) k' = Some a \<longrightarrow> k' = k" by simp
    moreover have "n < fam_next (fresh_state C key st) (ak_family k)" using n(2) unfolding grow by auto
    ultimately show ?thesis using n(1,3) e by blast
  qed
  have "ss_allocations ((fresh_state C key st)\<lparr>ss_expired_allocations := x\<rparr>) = fmupd key a0 (ss_allocations st)"
    "ss_records ((fresh_state C key st)\<lparr>ss_expired_allocations := x\<rparr>) = ss_records st"
    "ss_expired_allocations ((fresh_state C key st)\<lparr>ss_expired_allocations := x\<rparr>) = x" for x
    by (simp_all add: a0)
  note fields = this
  show ?thesis unfolding alloc_inv_def fields fam_expired_simps using main by blast
qed

lemma pending_inv_fresh:
  assumes "pools_ok C" "store_inv C st" "fmlookup (ss_allocations st) key = None" "identity_available C key st"
  shows "pending_inv C (fam_addr (ak_family key) (fam_next st (ak_family key))) (fresh_state C key st)"
proof -
  have "budget_inv C (fresh_state C key st)"
    unfolding budget_inv_def count_fresh [OF assms(3) fresh_state_simps(1)]
    using assms(2,4) by (auto simp: store_inv_def budget_inv_def identity_available_def)
  then show ?thesis
    using fresh_cursor_inv [OF assms] fresh_record_inv [OF assms(2,3)] fresh_alloc_inv [OF assms(1,2,4) refl]
    by (simp add: pending_inv_def)
qed

lemma publish_checked_inv:
  assumes "pools_ok C" "store_inv C st" "ak_identity key = Observation \<longleftrightarrow> contracts = []"
  shows "store_inv C (snd (publish_checked C key generation ttl contracts now uuid st))"
proof -
  obtain r st' where p: "publish_checked C key generation ttl contracts now uuid st = (r, st')" by fastforce
  from assms(1,2) p have "store_inv C st'"
  proof (cases rule: publish_checked_cases)
    case (known a)
    then show ?thesis using store_record_inv [OF pending_inv_known [OF assms(2)] known(1) assms(3)] by metis
  next
    case fresh
    from fresh(3) obtain rec where "store_record key generation ttl contracts now uuid
        (fam_addr (ak_family key) (fam_next st (ak_family key))) (fresh_state C key st) = (rec, st')" by metis
    with pending_inv_fresh [OF assms(1,2) fresh(1,2)] assms(3) show ?thesis
      by (intro store_record_inv) auto
  qed (use assms in simp)
  then show ?thesis by (simp add: p)
qed

lemma expire_inv:
  assumes "store_inv C st"
  shows "store_inv C (snd (expire now st))"
proof -
  let ?st = "snd (expire now st)" and ?e = "expired_records now st"
  have st': "ss_allocations ?st = ss_allocations st" "ss_records ?st = fmdrop_fset ?e (ss_records st)"
    "ss_expired_allocations ?st = ss_expired_allocations st |\<union>| ?e" "fam_next ?st f = fam_next st f" "fam_end ?st f = fam_end st f" for f
    by (cases f; simp add: expire_def Let_def fam_next_def fam_end_def)+
  have "cursor_inv C ?st" "budget_inv C ?st"
    using assms cursor_budget_cong [OF st'(1,4,5)] by (simp_all add: store_inv_def)
  moreover have "alloc_inv C ?st" unfolding alloc_inv_def st' fmlookup_drop_fset
  proof (intro allI impI)
    fix k a
    assume "fmlookup (ss_allocations st) k = Some a"
    with assms have "(\<exists>n. fam_first C (ak_family k) \<le> n \<and> n < fam_next st (ak_family k) \<and> a = fam_addr (ak_family k) n)
        \<and> (\<forall>k'. fmlookup (ss_allocations st) k' = Some a \<longrightarrow> k' = k)"
      "a |\<in>| ss_expired_allocations st \<or> fmlookup (ss_records st) a \<noteq> None"
      unfolding store_inv_def alloc_inv_def by blast+
    then show "(\<exists>n. fam_first C (ak_family k) \<le> n \<and> n < fam_next st (ak_family k) \<and> a = fam_addr (ak_family k) n)
        \<and> (\<forall>k'. fmlookup (ss_allocations st) k' = Some a \<longrightarrow> k' = k)
        \<and> (a |\<in>| ss_expired_allocations st |\<union>| ?e
            \<or> (if a |\<notin>| ?e then fmlookup (ss_records st) a else None) \<noteq> None)"
      by (cases "a |\<in>| ?e") simp_all
  qed
  moreover have "record_inv ?st" using assms unfolding store_inv_def record_inv_def st' by (simp split: if_splits)
  ultimately show ?thesis by (simp add: store_inv_def)
qed

lemma store_step_inv: "pools_ok C \<Longrightarrow> store_inv C st \<Longrightarrow> store_inv C (store_step C st op)"
  by (cases op)
    (auto simp: publish_def publish_observation_def request_key_def observation_key_def intro!: publish_checked_inv expire_inv)

lemma foldl_store_inv: "pools_ok C \<Longrightarrow> store_inv C st \<Longrightarrow> store_inv C (foldl (store_step C) st ops)"
  by (induction ops arbitrary: st) (simp_all add: store_step_inv)

lemma store_run_inv: "pools_ok C \<Longrightarrow> store_inv C (store_run C ops)"
  unfolding store_run_def by (intro foldl_store_inv store_inv_new)

subsection \<open>Allocations are permanent, records come from publications\<close>

definition record_of ::
  "AllocationKey \<Rightarrow> nat \<Rightarrow> nat \<Rightarrow> 'p ResolvedPortContract list \<Rightarrow> nat \<Rightarrow> IpAddress \<Rightarrow> 'p ResolvedEndpointRecord \<Rightarrow> bool" where
  "record_of key generation ttl contracts now a r =
     (rr_synthetic_address r = a \<and> rr_normalized_name r = ak_normalized_name key \<and> rr_family r = ak_family key
      \<and> rr_policy_generation r = generation \<and> rr_created_at r = now \<and> rr_expires_at r = now + ttl
      \<and> rr_contracts r = contracts)"

lemma store_record_fields:
  assumes "(r, st') = store_record key generation ttl contracts now uuid a st"
  shows "ss_allocations st' = ss_allocations st" "ss_records st' = fmupd a r (ss_records st)"
    "record_of key generation ttl contracts now a r"
  using assms by (simp_all add: store_record_def Let_def record_of_def)

lemma publish_checked_effect:
  assumes "pools_ok C" "store_inv C st"
    and "publish_checked C key generation ttl contracts now uuid st = (r, st')"
  shows "(fmlookup (ss_allocations st) k = Some a \<longrightarrow> fmlookup (ss_allocations st') k = Some a)
    \<and> (fmlookup (ss_records st') b = Some x \<longrightarrow> fmlookup (ss_records st) b = Some x
        \<or> record_of key generation ttl contracts now b x)"
  using assms
proof (cases rule: publish_checked_cases)
  case (known c)
  from known(3) obtain y where "(y, st') = store_record key generation ttl contracts now uuid c st" by blast
  from store_record_fields [OF this] show ?thesis by auto
next
  case fresh
  from fresh(3) obtain y where "(y, st') = store_record key generation ttl contracts now uuid
      (fam_addr (ak_family key) (fam_next st (ak_family key))) (fresh_state C key st)" by blast
  from store_record_fields [OF this] fresh(1) show ?thesis by auto
qed simp

text \<open>A record as the publication that wrote it determines it.\<close>

fun publishes :: "'p store_op \<Rightarrow> 'p ResolvedEndpointRecord \<Rightarrow> bool" where
  "publishes (Publish request current now uuid) r =
     (pr_policy_generation request = current \<and> rr_policy_generation r = current
      \<and> rr_normalized_name r = pr_normalized_name request \<and> rr_family r = pr_family request
      \<and> rr_expires_at r = now + pr_ttl request \<and> rr_contracts r = pr_contracts request \<and> pr_contracts request \<noteq> []
      \<and> (\<forall>c\<in>set (pr_contracts request). \<not> contract_invalid (pr_family request) c))"
| "publishes (PublishObservation name family generation current now uuid) r =
     (generation = current \<and> rr_policy_generation r = current \<and> rr_normalized_name r = name \<and> rr_family r = family
      \<and> rr_contracts r = [])"
| "publishes (Expire now) r = False"

lemma store_step_effect:
  assumes "pools_ok C" "store_inv C st"
  shows "fmlookup (ss_allocations st) k = Some a \<Longrightarrow> fmlookup (ss_allocations (store_step C st op)) k = Some a"
    and "fmlookup (ss_records (store_step C st op)) a = Some x \<Longrightarrow> fmlookup (ss_records st) a = Some x \<or> publishes op x"
proof -
  note effect = publish_checked_effect [OF assms prod.collapse [symmetric], THEN conjunct1, rule_format]
    publish_checked_effect [OF assms prod.collapse [symmetric], THEN conjunct2, rule_format]
  show "fmlookup (ss_allocations st) k = Some a \<Longrightarrow> fmlookup (ss_allocations (store_step C st op)) k = Some a"
    by (cases op) (auto simp: publish_def publish_observation_def expire_def Let_def intro: effect(1))
  show "fmlookup (ss_records (store_step C st op)) a = Some x \<Longrightarrow> fmlookup (ss_records st) a = Some x \<or> publishes op x"
  proof (cases op)
    case (Publish request current now uuid)
    assume "fmlookup (ss_records (store_step C st op)) a = Some x"
    with Publish effect(2) [of "request_key request" "pr_policy_generation request" "pr_ttl request" "pr_contracts request" now uuid a x]
    show ?thesis by (auto simp: publish_def request_key_def record_of_def list_ex_iff split: if_splits)
  next
    case (PublishObservation name family generation current now uuid)
    assume "fmlookup (ss_records (store_step C st op)) a = Some x"
    with PublishObservation effect(2) [of "observation_key name family" generation MAX_MAPPING_TTL "[]" now uuid a x]
    show ?thesis by (auto simp: publish_observation_def observation_key_def record_of_def split: if_splits)
  qed (simp add: expire_def Let_def split: if_splits)
qed

lemma foldl_alloc_mono:
  assumes "pools_ok C" "store_inv C st" "fmlookup (ss_allocations st) k = Some a"
  shows "fmlookup (ss_allocations (foldl (store_step C) st ops)) k = Some a"
  using assms(2,3)
  by (induction ops arbitrary: st) (simp_all add: store_step_inv [OF assms(1)] store_step_effect(1) [OF assms(1)])

lemma store_run_append: "store_run C (ops @ ops') = foldl (store_step C) (store_run C ops) ops'"
  by (simp add: store_run_def)

lemma run_record_published:
  assumes "pools_ok C" "fmlookup (ss_records (store_run C ops)) a = Some x"
  shows "\<exists>op\<in>set ops. publishes op x"
  using assms(2)
proof (induction ops rule: rev_induct)
  case Nil
  then show ?case by (simp add: store_run_def store_new_def)
next
  case (snoc op ops)
  then show ?case
    using store_step_effect(2) [OF assms(1) store_run_inv [OF assms(1)], of ops op a x]
    by (auto simp: store_run_append)
qed

subsection \<open>Room for policy names\<close>

fun op_generation :: "'p store_op \<Rightarrow> nat" where
  "op_generation (Publish request current now uuid) = current"
| "op_generation (PublishObservation name family generation current now uuid) = current"
| "op_generation (Expire now) = 0"

lemma published_generation: "publishes op x \<Longrightarrow> rr_policy_generation x = op_generation op"
  by (cases op) auto

definition contract_count :: "'p StoreState \<Rightarrow> AddressFamily \<Rightarrow> nat" where
  "contract_count st f = count_allocations (\<lambda>k. ak_identity k \<noteq> Observation \<and> ak_family k = f) st"

lemma count_family:
  "count_allocations (\<lambda>k. ak_family k = f) st
   = contract_count st f + count_allocations (\<lambda>k. ak_identity k = Observation \<and> ak_family k = f) st"
  using count_split [of "\<lambda>k. ak_family k = f" st "\<lambda>k. ak_identity k = Observation"]
  by (simp add: contract_count_def conj_commute)

lemma count_both:
  "count_allocations (\<lambda>_. True) st = count_allocations (\<lambda>k. ak_family k = Ipv4) st + count_allocations (\<lambda>k. ak_family k = Ipv6) st"
proof -
  have "(ak_family k \<noteq> Ipv4) = (ak_family k = Ipv6)" for k :: AllocationKey by (cases "ak_family k") auto
  then show ?thesis using count_split [of "\<lambda>_. True" st "\<lambda>k. ak_family k = Ipv4"] by simp
qed

lemma room_for_contract:
  assumes "store_inv C st" and "ak_identity key \<noteq> Observation"
    and "contract_count st (ak_family key) + observation_budget C (ak_family key) \<le> fam_last C (ak_family key) - fam_first C (ak_family key)"
    and "contract_count st Ipv4 + contract_count st Ipv6 + observation_budget C Ipv4 + observation_budget C Ipv6 < sc_max_mappings C"
    and "fam_first C (ak_family key) \<le> fam_last C (ak_family key)"
  shows "identity_available C key st"
proof -
  have obs: "count_allocations (\<lambda>k. ak_identity k = Observation \<and> ak_family k = f) st \<le> observation_budget C f" for f
    using assms(1) by (simp add: store_inv_def budget_inv_def)
  have "count_allocations (\<lambda>_. True) st < sc_max_mappings C"
    using assms(4) obs [of Ipv4] obs [of Ipv6] unfolding count_both count_family by linarith
  moreover have "fam_next st (ak_family key) \<le> fam_end st (ak_family key)"
    using assms(3,5) obs [of "ak_family key"] unfolding cursor_facts(1,2) [OF assms(1)] count_family by linarith
  ultimately show ?thesis using assms(2) by (simp add: identity_available_def)
qed

section \<open>Properties\<close>

text \<open>A small configuration: four IPv4 and two IPv6 addresses, eight mappings.\<close>

definition sample_config :: StoreConfig where
  "sample_config = \<lparr>sc_pools = \<lparr>sp_start4 = v4_new 198 18 0 1, sp_end4 = v4_new 198 18 0 4,
     sp_start6 = 0xfd000000000000000000000000000001, sp_end6 = 0xfd000000000000000000000000000002\<rparr>, sc_max_mappings = 8\<rparr>"

definition sample_request :: "string \<Rightarrow> unit PublishRequest" where
  "sample_request name = \<lparr>pr_normalized_name = name, pr_family = Ipv4, pr_allocation_identity = ''id'', pr_policy_generation = 7,
     pr_ttl = 10, pr_contracts = [\<lparr>rc_endpoint_id = \<lparr>pe_policy_name = ''database'', pe_endpoint_index = 0\<rparr>, rc_port = 5432,
       rc_destination_plan = (), rc_pinned_addresses = [Ip4 (v4_new 93 184 216 34)]\<rparr>]\<rparr>"

definition sample_ops :: "unit store_op list" where
  "sample_ops = [PublishObservation ''unknown.example'' Ipv4 7 7 0 1, Publish (sample_request ''db.example'') 7 5 2,
     PublishObservation ''other.example'' Ipv4 7 7 6 3]"

lemma sample_pools_ok: "pools_ok sample_config"
  unfolding pools_ok_def
proof
  fix f
  show "fam_first sample_config f \<le> fam_last sample_config f \<and> fam_last sample_config f < fam_max f"
    by (cases f) (simp_all add: fam_first_def fam_last_def fam_max_def sample_config_def v4_new_def unat_of_nat)
qed

text \<open>C7. A synthetic identity is permanent. Once a name, family and contract have an address, every later
  sequence of publications, observations and expiries leaves the address with them and gives it to
  no other name or contract; the address has the right family and lies in the configured pool.\<close>
theorem dns_identity_permanent:
  assumes "pools_ok C" and "fmlookup (ss_allocations (store_run C ops)) k = Some a"
  shows "fmlookup (ss_allocations (store_run C (ops @ ops'))) k = Some a
    \<and> (\<forall>k'. fmlookup (ss_allocations (store_run C (ops @ ops'))) k' = Some a \<longrightarrow> k' = k)
    \<and> family_accepts (ak_family k) a
    \<and> (\<exists>n\<in>{fam_first C (ak_family k)..fam_last C (ak_family k)}. a = fam_addr (ak_family k) n)"
proof -
  note inv = store_run_inv [OF assms(1)]
  have kept: "fmlookup (ss_allocations (store_run C (ops @ ops'))) k = Some a"
    unfolding store_run_append by (rule foldl_alloc_mono [OF assms(1) inv assms(2)])
  then have "\<forall>k'. fmlookup (ss_allocations (store_run C (ops @ ops'))) k' = Some a \<longrightarrow> k' = k"
    using inv [of "ops @ ops'"] unfolding store_inv_def alloc_inv_def by blast
  moreover obtain n where "fam_first C (ak_family k) \<le> n" "n < fam_next (store_run C ops) (ak_family k)" "a = fam_addr (ak_family k) n"
    using inv assms(2) by (rule inv_alloc_cases)
  moreover have "fam_next (store_run C ops) (ak_family k) \<le> Suc (fam_last C (ak_family k))" by (rule cursor_facts(3) [OF inv])
  ultimately show ?thesis using kept fam_addr_family by fastforce
qed

theorem dns_identity_permanent_witness:
  "fmlookup (ss_allocations (store_run sample_config (sample_ops @ [Expire 100, Publish (sample_request ''new.example'') 7 101 4])))
     (request_key (sample_request ''db.example'')) = Some (Ip4 (v4_new 198 18 0 2))"
proof -
  have "fmlookup (ss_allocations (store_run sample_config sample_ops)) (request_key (sample_request ''db.example''))
      = Some (Ip4 (v4_new 198 18 0 2))" by code_simp
  from dns_identity_permanent [OF sample_pools_ok this] show ?thesis by blast
qed

text \<open>C16. Only a publication authorizes a connection. When the authorization lookup of a synthetic address
  succeeds, some earlier publication, made under the very policy generation the caller is in and
  not yet expired, published the name with an endpoint contract for the port, and the addresses the
  caller may dial for given endpoints are the ones pinned by contracts of that publication for
  that port and those endpoints. Observations of unapproved names never authorize anything.\<close>
theorem dns_lookup_authorized:
  assumes "pools_ok C" and "lookup (store_run C ops) a port generation now = Inr m"
  shows "\<exists>request t uuid. Publish request generation t uuid \<in> set ops
    \<and> pr_policy_generation request = generation \<and> now < t + pr_ttl request
    \<and> rr_normalized_name (ml_record m) = pr_normalized_name request
    \<and> (\<exists>c\<in>set (pr_contracts request). rc_port c = port)
    \<and> (\<forall>ids ips. pinned_addresses_for m ids = Inr ips \<longrightarrow>
         (\<forall>ip\<in>set ips. family_accepts (pr_family request) ip
            \<and> (\<exists>c\<in>set (pr_contracts request). rc_port c = port \<and> rc_endpoint_id c \<in> set ids \<and> ip \<in> set (rc_pinned_addresses c))))"
proof -
  obtain r where r: "fmlookup (ss_records (store_run C ops)) a = Some r" "now < rr_expires_at r"
    "rr_policy_generation r = generation" "\<exists>c\<in>set (rr_contracts r). rc_port c = port" "m = \<lparr>ml_record = r, ml_port = port\<rparr>"
    using assms(2) by (auto simp: lookup_def live_record_def list_ex_iff split: option.splits if_splits)
  obtain op where op: "op \<in> set ops" "publishes op r" using run_record_published [OF assms(1) r(1)] by blast
  show ?thesis
  proof (cases op)
    case (Publish request current t uuid)
    then have p: "Publish request generation t uuid \<in> set ops" "pr_policy_generation request = generation"
      "now < t + pr_ttl request" "rr_contracts r = pr_contracts request" "rr_normalized_name r = pr_normalized_name request"
      and valid: "\<forall>c\<in>set (pr_contracts request). \<not> contract_invalid (pr_family request) c"
      using op r(2,3) by auto
    have pinned: "family_accepts (pr_family request) ip
        \<and> (\<exists>c\<in>set (pr_contracts request). rc_port c = port \<and> rc_endpoint_id c \<in> set ids \<and> ip \<in> set (rc_pinned_addresses c))"
      if ids: "pinned_addresses_for m ids = Inr ips" and ip: "ip \<in> set ips" for ids ips ip
    proof -
      obtain c where c: "c \<in> set (pr_contracts request)" "rc_port c = port" "rc_endpoint_id c \<in> set ids" "ip \<in> set (rc_pinned_addresses c)"
        using ids ip r(5) p(4) by (auto simp: pinned_addresses_for_def Let_def split: if_splits)
      then have "family_accepts (pr_family request) ip" using valid by (auto simp: contract_invalid_def list_ex_iff)
      with c show ?thesis by blast
    qed
    show ?thesis
    proof (intro exI conjI allI impI ballI)
      show "\<exists>c\<in>set (pr_contracts request). rc_port c = port" using r(4) p(4) by simp
      show "rr_normalized_name (ml_record m) = pr_normalized_name request" using r(5) p(5) by simp
    qed (use p(1,2,3) pinned in blast)+
  qed (use op r(4) in auto)
qed

theorem dns_lookup_authorized_witness:
  "\<exists>request t uuid. Publish request 7 t uuid \<in> set sample_ops \<and> 9 < t + pr_ttl request"
proof -
  have "isOk (lookup (store_run sample_config sample_ops) (Ip4 (v4_new 198 18 0 2)) 5432 7 9)" by code_simp
  then obtain m where "lookup (store_run sample_config sample_ops) (Ip4 (v4_new 198 18 0 2)) 5432 7 9 = Inr m"
    unfolding isOk_iff by blast
  from dns_lookup_authorized [OF sample_pools_ok this] show ?thesis by blast
qed

text \<open>C17. Unapproved names cannot starve approved ones. However many observations of unknown names came
  before, a valid publication for a policy-backed name succeeds while the contracts of that family,
  together with the observation budget, leave an address free and all contracts with both budgets
  stay below the mapping limit. The published address can be looked up at every published port
  until it expires.\<close>
theorem dns_publication_not_starved:
  assumes "pools_ok C" and "pr_policy_generation request = generation" and "pr_ttl request \<noteq> 0"
    and "pr_contracts request \<noteq> []" and "\<not> list_ex (contract_invalid (pr_family request)) (pr_contracts request)"
    and "\<forall>op\<in>set ops. op_generation op \<le> generation"
    and "contract_count (store_run C ops) (pr_family request) + observation_budget C (pr_family request)
           \<le> fam_last C (pr_family request) - fam_first C (pr_family request)"
    and "contract_count (store_run C ops) Ipv4 + contract_count (store_run C ops) Ipv6
           + observation_budget C Ipv4 + observation_budget C Ipv6 < sc_max_mappings C"
  shows "\<exists>r st. publish C request generation now uuid (store_run C ops) = (Inr r, st)
    \<and> (\<forall>c\<in>set (pr_contracts request). \<forall>t<now + pr_ttl request.
         lookup st (rr_synthetic_address r) (rc_port c) generation t = Inr \<lparr>ml_record = r, ml_port = rc_port c\<rparr>)"
proof -
  let ?st = "store_run C ops" and ?key = "request_key request"
  note inv = store_run_inv [OF assms(1), of ops]
  have key: "ak_family ?key = pr_family request" "ak_identity ?key \<noteq> Observation" by (simp_all add: request_key_def)
  have avail: "identity_available C ?key ?st"
    using room_for_contract [OF inv key(2)] assms(1,7,8) by (simp add: key(1) pools_ok_def)
  have old: "rr_policy_generation x \<le> generation" if "fmlookup (ss_records ?st) a = Some x" for a x
    using run_record_published [OF assms(1) that] assms(6) published_generation by metis
  obtain r st where p: "publish_checked C ?key generation (pr_ttl request) (pr_contracts request) now uuid ?st = (r, st)"
    by fastforce
  have "\<exists>x a. r = Inr x \<and> ss_records st = fmupd a x (ss_records ?st)
      \<and> record_of ?key generation (pr_ttl request) (pr_contracts request) now a x"
    using assms(1) inv p
  proof (cases rule: publish_checked_cases)
    case (rejected e)
    then show ?thesis using avail old by (cases "fmlookup (ss_allocations ?st) ?key") force+
  next
    case (known a)
    from known(3) obtain x where "r = Inr x" "(x, st) = store_record ?key generation (pr_ttl request) (pr_contracts request) now uuid a ?st"
      by blast
    then show ?thesis by (intro exI conjI) (assumption | rule store_record_fields(2,3))+
  next
    case fresh
    from fresh(3) obtain x where "r = Inr x" "(x, st) = store_record ?key generation (pr_ttl request) (pr_contracts request) now uuid
       (fam_addr (ak_family ?key) (fam_next ?st (ak_family ?key))) (fresh_state C ?key ?st)" by blast
    then show ?thesis using store_record_fields(2) store_record_fields(3) fresh_state_simps(2) by metis
  qed
  then obtain x a where x: "r = Inr x" "ss_records st = fmupd a x (ss_records ?st)"
    "record_of ?key generation (pr_ttl request) (pr_contracts request) now a x" by blast
  have "lookup st (rr_synthetic_address x) (rc_port c) generation t = Inr \<lparr>ml_record = x, ml_port = rc_port c\<rparr>"
    if "c \<in> set (pr_contracts request)" "t < now + pr_ttl request" for c t
    using x(2,3) that by (auto simp: lookup_def live_record_def record_of_def list_ex_iff)
  moreover have "publish C request generation now uuid ?st = (Inr x, st)"
    using p x(1) assms(2-5) by (simp add: publish_def)
  ultimately show ?thesis by blast
qed

theorem dns_publication_not_starved_witness:
  "\<exists>r st. publish sample_config (sample_request ''new.example'') 7 20 9 (store_run sample_config sample_ops) = (Inr r, st)"
proof -
  have "contract_count (store_run sample_config sample_ops) Ipv4 = 1" by code_simp
  moreover have "contract_count (store_run sample_config sample_ops) Ipv6 = 0" by code_simp
  moreover have "observation_budget sample_config Ipv4 = 1" "observation_budget sample_config Ipv6 = 1" by code_simp+
  moreover have "fam_last sample_config Ipv4 - fam_first sample_config Ipv4 = 3" by code_simp
  moreover have "\<forall>op\<in>set sample_ops. op_generation op \<le> 7" by code_simp
  moreover have "\<not> list_ex (contract_invalid Ipv4) (pr_contracts (sample_request ''new.example''))" by code_simp
  ultimately show ?thesis
    using dns_publication_not_starved [OF sample_pools_ok, of "sample_request ''new.example''" 7 sample_ops 20 9]
    by (simp add: sample_request_def sample_config_def) blast
qed

section \<open>A pool that ends at the last address\<close>

text \<open>The configuration check accepts a pool whose last address is the last address of the family. There
  the saturating increment stops moving, and two names get the same synthetic address.\<close>

lemma broadcast_pool_accepted:
  "SyntheticPools_new (v4_new 255 255 255 254) (v4_new 255 255 255 255) 0xfd000000000000000000000000000001 0xfd000000000000000000000000000002
     = Inr \<lparr>sp_start4 = v4_new 255 255 255 254, sp_end4 = v4_new 255 255 255 255,
            sp_start6 = 0xfd000000000000000000000000000001, sp_end6 = 0xfd000000000000000000000000000002\<rparr>"
  by code_simp

lemma saturated_pool_reuses_address:
  assumes "ss_end_ipv4 st = 2 ^ 32 - 1" and "ss_next_ipv4 st = 2 ^ 32 - 1"
  shows "allocate_address Ipv4 st = Some (Ip4 (word_of_nat (2 ^ 32 - 1)), st)"
  using assms by (cases st) (simp add: allocate_address_def sat_add_def)

end
