(* ===== verification/Dns_Resolver.thy ===== *)
theory Dns_Resolver
  imports Dns_Store Egress_Destination
begin

text \<open>
  The trusted resolver of policy DNS (\<open>policy_dns/resolver.rs\<close>) and the normalized names it is asked
  for (\<open>policy_dns/name.rs\<close>). The names and the wire format of the \<open>hickory\<close> crate and the sockets are
  parameters. The lemmas show where the addresses of an answer come from and that following aliases
  always ends.
\<close>

section \<open>Definitions\<close>

subsection \<open>Messages\<close>

text \<open>The names of \<open>hickory_proto\<close>.\<close>

record 'n name_lib =
  nl_from_ascii :: "string \<Rightarrow> 'n option"
  nl_to_ascii :: "'n \<Rightarrow> string"
  nl_is_root :: "'n \<Rightarrow> bool"

datatype RecordType = A | AAAA | OtherType nat

datatype MessageType = Query | Response

datatype OpCode = OpQuery | OtherOp nat

datatype ResponseCode = NoError | FormErr | ServFail | NXDomain | NotImp | Refused | OtherCode nat

datatype DNSClass = IN | OtherClass nat

datatype 'n RData = RData_A Ipv4Addr | RData_AAAA Ipv6Addr | RData_CNAME 'n | RData_Other

record 'n dns_query =
  q_name :: 'n
  q_type :: RecordType
  q_class :: DNSClass

record 'n dns_record =
  dr_name :: 'n
  dr_ttl :: nat
  dr_data :: "'n RData"

record 'n Message =
  msg_id :: nat
  msg_type :: MessageType
  msg_op_code :: OpCode
  msg_recursion_desired :: bool
  msg_recursion_available :: bool
  msg_truncation :: bool
  msg_response_code :: ResponseCode
  msg_queries :: "'n dns_query list"
  msg_answers :: "'n dns_record list"

text \<open>The wire format of \<open>hickory_proto\<close>: \<open>Message::from_vec\<close>, \<open>Message::to_vec\<close> and the equality of queries.\<close>

record 'n wire_lib =
  wl_from_vec :: "string \<Rightarrow> 'n Message option"
  wl_to_vec :: "'n Message \<Rightarrow> string option"
  wl_query_eq :: "'n dns_query \<Rightarrow> 'n dns_query \<Rightarrow> bool"

definition MAX_DNS_MESSAGE_BYTES :: nat where "MAX_DNS_MESSAGE_BYTES = 8 * 1024"
definition MAX_RETAINED_ADDRESSES :: nat where "MAX_RETAINED_ADDRESSES = 16"
definition MAX_CNAME_HOPS :: nat where "MAX_CNAME_HOPS = 8"

definition record_type :: "AddressFamily \<Rightarrow> RecordType" where
  "record_type family = (case family of Ipv4 \<Rightarrow> A | Ipv6 \<Rightarrow> AAAA)"

record TrustedAnswer =
  ta_addresses :: "IpAddress list"
  ta_ttl :: nat

datatype ResolveError =
    Timeout | Io string | Oversized | Malformed | NxDomain | ResponseError ResponseCode | NoData | CnameLimit

subsection \<open>Names\<close>

text \<open>A normalized name is kept as its string; \<open>None\<close> is \<open>NameError\<close>.\<close>

definition NormalizedName_parse :: "'n name_lib \<Rightarrow> string \<Rightarrow> string option" where
  "NormalizedName_parse N raw =
     (let trimmed = str_trim raw
      in if trimmed = [] \<or> parse_ip trimmed \<noteq> None then None
         else (let absolute = (if ends_with ''.'' trimmed then trimmed else trimmed @ ''.'')
               in case nl_from_ascii N absolute of
                    None \<Rightarrow> None
                  | Some parsed \<Rightarrow>
                      if nl_is_root N parsed then None
                      else (let normalized = to_ascii_lowercase (trim_end_matches (CHR ''.'') (nl_to_ascii N parsed))
                            in if normalized = [] then None else Some normalized)))"

text \<open>\<open>None\<close> is the panic of \<open>expect\<close>.\<close>

definition as_absolute_name :: "'n name_lib \<Rightarrow> string \<Rightarrow> 'n option" where
  "as_absolute_name N name = nl_from_ascii N (name @ ''.'')"

definition canonical_name :: "'n name_lib \<Rightarrow> 'n \<Rightarrow> string" where
  "canonical_name N name = to_ascii_lowercase (trim_end_matches (CHR ''.'') (nl_to_ascii N name))"

subsection \<open>Exchanges\<close>

text \<open>What one exchange sees of the network: the random query id, the datagram that answers a request,
  and the steps of a TCP exchange.\<close>

record dns_net =
  net_id :: nat
  net_udp :: "string \<Rightarrow> ResolveError + string"
  net_tcp_connect :: "ResolveError + unit"
  net_tcp_write :: "nat \<Rightarrow> string \<Rightarrow> ResolveError + unit"
  net_tcp_read_u16 :: "ResolveError + nat"
  net_tcp_read_exact :: "nat \<Rightarrow> ResolveError + string"

definition udp_exchange :: "dns_net \<Rightarrow> string \<Rightarrow> ResolveError + string" where
  "udp_exchange net request =
     bindE (net_udp net request)
       (\<lambda>datagram.
          let response = take (MAX_DNS_MESSAGE_BYTES + 1) datagram
          in if length response > MAX_DNS_MESSAGE_BYTES then Inl Oversized else Inr response)"

definition tcp_exchange :: "dns_net \<Rightarrow> string \<Rightarrow> ResolveError + string" where
  "tcp_exchange net request =
     bindE (net_tcp_connect net)
       (\<lambda>_. if length request > 2 ^ 16 - 1 then Inl Oversized
            else bindE (net_tcp_write net (length request) request)
              (\<lambda>_. bindE (net_tcp_read_u16 net)
                (\<lambda>response_len. if response_len > MAX_DNS_MESSAGE_BYTES then Inl Oversized
                                else net_tcp_read_exact net response_len)))"

definition parse_response :: "'n wire_lib \<Rightarrow> string \<Rightarrow> nat \<Rightarrow> 'n dns_query \<Rightarrow> ResolveError + 'n Message" where
  "parse_response W wire qid query =
     (if length wire > MAX_DNS_MESSAGE_BYTES then Inl Oversized
      else case wl_from_vec W wire of
             None \<Rightarrow> Inl Malformed
           | Some response \<Rightarrow>
               if msg_id response \<noteq> qid \<or> msg_type response \<noteq> Response \<or> msg_op_code response \<noteq> OpQuery
                  \<or> length (msg_queries response) \<noteq> 1 \<or> \<not> wl_query_eq W (hd (msg_queries response)) query
               then Inl Malformed
               else (case msg_response_code response of
                       NoError \<Rightarrow> Inr response
                     | NXDomain \<Rightarrow> Inl NxDomain
                     | code \<Rightarrow> Inl (ResponseError code)))"

definition query_message :: "nat \<Rightarrow> 'n dns_query \<Rightarrow> 'n Message" where
  "query_message qid query =
     \<lparr>msg_id = qid, msg_type = Query, msg_op_code = OpQuery, msg_recursion_desired = True, msg_recursion_available = False,
      msg_truncation = False, msg_response_code = NoError, msg_queries = [query], msg_answers = []\<rparr>"

definition exchange :: "'n wire_lib \<Rightarrow> dns_net \<Rightarrow> 'n \<Rightarrow> RecordType \<Rightarrow> ResolveError + 'n Message" where
  "exchange W net name rtype =
     (let query = \<lparr>q_name = name, q_type = rtype, q_class = IN\<rparr>;
          qid = net_id net
      in case wl_to_vec W (query_message qid query) of
           None \<Rightarrow> Inl Malformed
         | Some wire \<Rightarrow>
             bindE (udp_exchange net wire)
               (\<lambda>udp_response. bindE (parse_response W udp_response qid query)
                 (\<lambda>response.
                    if msg_truncation response
                    then bindE (tcp_exchange net wire) (\<lambda>tcp_response. parse_response W tcp_response qid query)
                    else Inr response)))"

subsection \<open>Answers\<close>

record 'n ParsedRecords =
  pa_addresses :: "(IpAddress \<times> nat) list smap"
  pa_cnames :: "('n \<times> nat) smap"

definition push_address :: "string \<Rightarrow> IpAddress \<Rightarrow> nat \<Rightarrow> 'n ParsedRecords \<Rightarrow> 'n ParsedRecords" where
  "push_address owner address ttl parsed =
     parsed\<lparr>pa_addresses :=
       fmupd owner ((case fmlookup (pa_addresses parsed) owner of None \<Rightarrow> [] | Some rs \<Rightarrow> rs) @ [(address, ttl)])
         (pa_addresses parsed)\<rparr>"

definition parse_answer_record :: "'n name_lib \<Rightarrow> AddressFamily \<Rightarrow> 'n ParsedRecords \<Rightarrow> 'n dns_record \<Rightarrow> 'n ParsedRecords" where
  "parse_answer_record N family parsed rec =
     (let owner = canonical_name N (dr_name rec)
      in case dr_data rec of
           RData_A value \<Rightarrow> if family = Ipv4 then push_address owner (Ip4 value) (dr_ttl rec) parsed else parsed
         | RData_AAAA value \<Rightarrow> if family = Ipv6 then push_address owner (Ip6 value) (dr_ttl rec) parsed else parsed
         | RData_CNAME target \<Rightarrow>
             if fm_contains (pa_cnames parsed) owner then parsed
             else parsed\<lparr>pa_cnames := fmupd owner (target, dr_ttl rec) (pa_cnames parsed)\<rparr>
         | RData_Other \<Rightarrow> parsed)"

definition parse_answer_records :: "'n name_lib \<Rightarrow> 'n Message \<Rightarrow> AddressFamily \<Rightarrow> 'n ParsedRecords" where
  "parse_answer_records N message family =
     foldl (parse_answer_record N family) \<lparr>pa_addresses = fmempty, pa_cnames = fmempty\<rparr> (msg_answers message)"

definition retain_first_addresses :: "IpAddress list \<Rightarrow> IpAddress list" where
  "retain_first_addresses addresses = dedup_by (\<lambda>a. a) {} addresses"

definition trusted_answer :: "(IpAddress \<times> nat) list \<Rightarrow> nat \<Rightarrow> TrustedAnswer" where
  "trusted_answer records chain_ttl =
     \<lparr>ta_addresses = take MAX_RETAINED_ADDRESSES (retain_first_addresses (map fst records)),
      ta_ttl = min chain_ttl (if records = [] then 1 else Min (set (map snd records))) * 10 ^ 9\<rparr>"

subsection \<open>Following aliases\<close>

datatype 'n chase = Answered TrustedAnswer | Failed ResolveError | Requery 'n "string set" nat nat

text \<open>The inner loop of \<open>resolve\<close>, over the records of one response.\<close>

function chase_records :: "'n name_lib \<Rightarrow> 'n ParsedRecords \<Rightarrow> string \<Rightarrow> string set \<Rightarrow> nat \<Rightarrow> nat \<Rightarrow> 'n chase" where
  "chase_records N parsed cursor visited cname_hops chain_ttl =
     (case fmlookup (pa_addresses parsed) cursor of
        Some records \<Rightarrow> Answered (trusted_answer records chain_ttl)
      | None \<Rightarrow>
          (case fmlookup (pa_cnames parsed) cursor of
             None \<Rightarrow> Failed NoData
           | Some (target, ttl) \<Rightarrow>
               if cname_hops + 1 > MAX_CNAME_HOPS then Failed CnameLimit
               else (let target_key = canonical_name N target
                     in if target_key \<in> visited then Failed CnameLimit
                        else if \<not> fm_contains (pa_addresses parsed) target_key \<and> \<not> fm_contains (pa_cnames parsed) target_key
                        then Requery target (insert target_key visited) (cname_hops + 1) (min chain_ttl ttl)
                        else chase_records N parsed target_key (insert target_key visited) (cname_hops + 1) (min chain_ttl ttl))))"
  by pat_completeness auto
termination by (relation "measure (\<lambda>(_, _, _, _, cname_hops, _). MAX_CNAME_HOPS - cname_hops)") auto

text \<open>The outer loop. Each name is queried at most once, so what the network does during a resolution is
  a function of the queried name.\<close>

fun resolve_loop ::
  "'n name_lib \<Rightarrow> 'n wire_lib \<Rightarrow> ('n \<Rightarrow> dns_net) \<Rightarrow> AddressFamily \<Rightarrow> nat \<Rightarrow> 'n \<Rightarrow> string set \<Rightarrow> nat \<Rightarrow> nat
   \<Rightarrow> ResolveError + TrustedAnswer" where
  "resolve_loop N W net family 0 current visited cname_hops chain_ttl = Inl CnameLimit"
| "resolve_loop N W net family (Suc n) current visited cname_hops chain_ttl =
     bindE (exchange W (net current) current (record_type family))
       (\<lambda>response.
          case chase_records N (parse_answer_records N response family) (canonical_name N current) visited cname_hops chain_ttl of
            Answered answer \<Rightarrow> Inr answer
          | Failed e \<Rightarrow> Inl e
          | Requery target visited cname_hops chain_ttl \<Rightarrow>
              resolve_loop N W net family n target visited cname_hops chain_ttl)"

text \<open>\<open>None\<close> is a panic.\<close>

definition resolve ::
  "'n name_lib \<Rightarrow> 'n wire_lib \<Rightarrow> ('n \<Rightarrow> dns_net) \<Rightarrow> string \<Rightarrow> AddressFamily \<Rightarrow> (ResolveError + TrustedAnswer) option" where
  "resolve N W net name family =
     (case as_absolute_name N name of
        None \<Rightarrow> None
      | Some current \<Rightarrow>
          Some (resolve_loop N W net family (MAX_CNAME_HOPS + 1) current {canonical_name N current} 0 (2 ^ 32 - 1)))"

section \<open>The records of a response\<close>

fun rdata_address :: "AddressFamily \<Rightarrow> 'n RData \<Rightarrow> IpAddress option" where
  "rdata_address Ipv4 (RData_A value) = Some (Ip4 value)"
| "rdata_address Ipv6 (RData_AAAA value) = Some (Ip6 value)"
| "rdata_address _ _ = None"

fun rdata_alias :: "'n RData \<Rightarrow> 'n option" where
  "rdata_alias (RData_CNAME target) = Some target"
| "rdata_alias _ = None"

text \<open>The addresses of a name, and its first alias, in a list of answers.\<close>

definition owned_addresses :: "'n name_lib \<Rightarrow> AddressFamily \<Rightarrow> string \<Rightarrow> 'n dns_record list \<Rightarrow> (IpAddress \<times> nat) list" where
  "owned_addresses N family owner answers =
     List.map_filter (\<lambda>r. if canonical_name N (dr_name r) = owner
                          then map_option (\<lambda>a. (a, dr_ttl r)) (rdata_address family (dr_data r)) else None) answers"

definition owned_aliases :: "'n name_lib \<Rightarrow> string \<Rightarrow> 'n dns_record list \<Rightarrow> ('n \<times> nat) list" where
  "owned_aliases N owner answers =
     List.map_filter (\<lambda>r. if canonical_name N (dr_name r) = owner
                          then map_option (\<lambda>n. (n, dr_ttl r)) (rdata_alias (dr_data r)) else None) answers"

definition first_alias :: "'n name_lib \<Rightarrow> string \<Rightarrow> 'n dns_record list \<Rightarrow> ('n \<times> nat) option" where
  "first_alias N owner answers = (case owned_aliases N owner answers of [] \<Rightarrow> None | x # _ \<Rightarrow> Some x)"

lemma map_filter_snoc [simp]:
  "List.map_filter f (xs @ [x]) = List.map_filter f xs @ (case f x of None \<Rightarrow> [] | Some y \<Rightarrow> [y])"
  by (simp add: List.map_filter_def split: option.splits)

lemma parse_answer_records_snoc:
  "parse_answer_records N (m\<lparr>msg_answers := as @ [r]\<rparr>) family =
     parse_answer_record N family (parse_answer_records N (m\<lparr>msg_answers := as\<rparr>) family) r"
  by (simp add: parse_answer_records_def)

lemma parsed_addresses_aux:
  "fmlookup (pa_addresses (parse_answer_records N (m\<lparr>msg_answers := as\<rparr>) family)) k =
     (if owned_addresses N family k as = [] then None else Some (owned_addresses N family k as))"
proof (induction as rule: rev_induct)
  case Nil
  show ?case by (simp add: parse_answer_records_def owned_addresses_def List.map_filter_def)
next
  case (snoc r as)
  show ?case unfolding parse_answer_records_snoc using snoc.IH
    by (cases family; cases "dr_data r")
      (auto simp: parse_answer_record_def Let_def push_address_def owned_addresses_def split: option.splits if_splits)
qed

lemma parsed_cnames_aux:
  "fmlookup (pa_cnames (parse_answer_records N (m\<lparr>msg_answers := as\<rparr>) family)) k = first_alias N k as"
proof (induction as rule: rev_induct)
  case Nil
  show ?case by (simp add: parse_answer_records_def first_alias_def owned_aliases_def List.map_filter_def)
next
  case (snoc r as)
  show ?case unfolding parse_answer_records_snoc using snoc.IH
    by (cases "dr_data r")
      (auto simp: parse_answer_record_def Let_def push_address_def first_alias_def owned_aliases_def fm_contains_def
         split: option.splits list.splits if_splits)
qed

lemma parsed_records:
  "fmlookup (pa_addresses (parse_answer_records N m family)) k =
     (if owned_addresses N family k (msg_answers m) = [] then None else Some (owned_addresses N family k (msg_answers m)))"
  "fmlookup (pa_cnames (parse_answer_records N m family)) k = first_alias N k (msg_answers m)"
  using parsed_addresses_aux [of N "msg_answers m" m family k] parsed_cnames_aux [of N "msg_answers m" m family k] by simp_all

lemma rdata_address_family: "rdata_address family d = Some a \<Longrightarrow> family_accepts family a"
  by (induction family d rule: rdata_address.induct) (auto simp: family_accepts_def)

lemma owned_addresses_family: "(a, t) \<in> set (owned_addresses N family k as) \<Longrightarrow> family_accepts family a"
  by (auto simp: owned_addresses_def List.map_filter_def rdata_address_family split: if_splits)

section \<open>Chains of aliases\<close>

abbreviation ask :: "'n wire_lib \<Rightarrow> ('n \<Rightarrow> dns_net) \<Rightarrow> AddressFamily \<Rightarrow> 'n \<Rightarrow> ResolveError + 'n Message" where
  "ask W net family name \<equiv> exchange W (net name) name (record_type family)"

definition mentions :: "'n name_lib \<Rightarrow> AddressFamily \<Rightarrow> string \<Rightarrow> 'n Message \<Rightarrow> bool" where
  "mentions N family k m \<longleftrightarrow> owned_addresses N family k (msg_answers m) \<noteq> [] \<or> first_alias N k (msg_answers m) \<noteq> None"

text \<open>\<open>alias_path N W net family start current (k # ks) ttl\<close>: the aliases lead from \<open>start\<close> through the
  distinct names \<open>ks\<close> to \<open>k\<close>, about which the response to the query for \<open>current\<close> is consulted.
  A name without an address is followed to its first alias, in the same response as long as this
  says something about the alias. The smallest lifetime on the way is \<open>ttl\<close>.\<close>

inductive alias_path ::
  "'n name_lib \<Rightarrow> 'n wire_lib \<Rightarrow> ('n \<Rightarrow> dns_net) \<Rightarrow> AddressFamily \<Rightarrow> 'n \<Rightarrow> 'n \<Rightarrow> string list \<Rightarrow> nat \<Rightarrow> bool"
  for N W net family start where
  alias_start: "alias_path N W net family start start [canonical_name N start] (2 ^ 32 - 1)"
| alias_step: "alias_path N W net family start current (k # ks) ttl \<Longrightarrow> ask W net family current = Inr m
     \<Longrightarrow> owned_addresses N family k (msg_answers m) = [] \<Longrightarrow> first_alias N k (msg_answers m) = Some (target, t)
     \<Longrightarrow> canonical_name N target \<notin> set (k # ks)
     \<Longrightarrow> alias_path N W net family start (if mentions N family (canonical_name N target) m then current else target)
           (canonical_name N target # k # ks) (min ttl t)"

lemma alias_path_distinct:
  "alias_path N W net family start current path ttl \<Longrightarrow> path \<noteq> [] \<and> distinct path \<and> last path = canonical_name N start \<and> ttl < 2 ^ 32"
  by (induction rule: alias_path.induct) auto

text \<open>The state in the middle of a resolution.\<close>

definition resume ::
  "'n name_lib \<Rightarrow> 'n wire_lib \<Rightarrow> ('n \<Rightarrow> dns_net) \<Rightarrow> AddressFamily \<Rightarrow> nat \<Rightarrow> 'n \<Rightarrow> string \<Rightarrow> string set \<Rightarrow> nat \<Rightarrow> nat
   \<Rightarrow> ResolveError + TrustedAnswer" where
  "resume N W net family n current cursor visited hops ttl =
     bindE (ask W net family current)
       (\<lambda>response.
          case chase_records N (parse_answer_records N response family) cursor visited hops ttl of
            Answered answer \<Rightarrow> Inr answer
          | Failed e \<Rightarrow> Inl e
          | Requery target visited hops ttl \<Rightarrow> resolve_loop N W net family n target visited hops ttl)"

lemma resolve_loop_Suc:
  "resolve_loop N W net family (Suc n) current visited hops ttl =
     resume N W net family n current (canonical_name N current) visited hops ttl"
  by (simp add: resume_def)

declare chase_records.simps [simp del]

lemma resume_answer:
  assumes "ask W net family current = Inr m" and "owned_addresses N family k (msg_answers m) \<noteq> []"
  shows "resume N W net family n current k visited hops ttl
    = Inr (trusted_answer (owned_addresses N family k (msg_answers m)) ttl)"
  using assms by (simp add: resume_def chase_records.simps [of N _ k] parsed_records)

lemma resume_alias:
  assumes "ask W net family current = Inr m" and "owned_addresses N family k (msg_answers m) = []"
    and "first_alias N k (msg_answers m) = Some (target, t)" and "hops < MAX_CNAME_HOPS"
    and "canonical_name N target \<notin> visited"
  shows "resume N W net family (Suc n) current k visited hops ttl =
    resume N W net family (if mentions N family (canonical_name N target) m then Suc n else n)
      (if mentions N family (canonical_name N target) m then current else target)
      (canonical_name N target) (insert (canonical_name N target) visited) (Suc hops) (min ttl t)"
proof (cases "mentions N family (canonical_name N target) m")
  case True
  then show ?thesis using assms
    by (auto simp: resume_def chase_records.simps [of N _ k] parsed_records mentions_def fm_contains_def Let_def)
next
  case False
  then have "resume N W net family (Suc n) current k visited hops ttl =
      resolve_loop N W net family (Suc n) target (insert (canonical_name N target) visited) (Suc hops) (min ttl t)"
    using assms by (auto simp: resume_def chase_records.simps [of N _ k] parsed_records mentions_def fm_contains_def Let_def)
  then show ?thesis using False unfolding resolve_loop_Suc by simp
qed

lemma resume_cases:
  assumes "resume N W net family n current k visited hops ttl = Inr a"
  obtains (answer) m where "ask W net family current = Inr m" "owned_addresses N family k (msg_answers m) \<noteq> []"
      "a = trusted_answer (owned_addresses N family k (msg_answers m)) ttl"
  | (follow) m target t where "ask W net family current = Inr m" "owned_addresses N family k (msg_answers m) = []"
      "first_alias N k (msg_answers m) = Some (target, t)" "hops < MAX_CNAME_HOPS" "canonical_name N target \<notin> visited"
proof -
  from assms obtain m where m: "ask W net family current = Inr m" by (auto simp: resume_def)
  with assms show thesis
    using answer [OF m] follow [OF m]
    by (auto simp: resume_def chase_records.simps [of N _ k] parsed_records Let_def split: if_splits option.splits)
qed

lemma resolve_resume:
  assumes "as_absolute_name N name = Some start"
  shows "resolve N W net name family = Some (resume N W net family MAX_CNAME_HOPS start (canonical_name N start)
    {canonical_name N start} 0 (2 ^ 32 - 1))"
proof -
  have "MAX_CNAME_HOPS + 1 = Suc MAX_CNAME_HOPS" by simp
  then show ?thesis using assms unfolding resolve_def by (simp only: option.case resolve_loop_Suc)
qed

lemma alias_path_resume:
  assumes "alias_path N W net family start current path ttl" and "length path \<le> Suc MAX_CNAME_HOPS"
  shows "\<exists>n. n + length path \<ge> Suc MAX_CNAME_HOPS
    \<and> resume N W net family MAX_CNAME_HOPS start (canonical_name N start) {canonical_name N start} 0 (2 ^ 32 - 1)
        = resume N W net family n current (hd path) (set path) (length path - 1) ttl"
  using assms
proof (induction rule: alias_path.induct)
  case alias_start
  show ?case by (intro exI [of _ MAX_CNAME_HOPS]) simp
next
  case (alias_step current k ks ttl m target t)
  from alias_step.prems have len: "length ks < MAX_CNAME_HOPS" by simp
  with alias_step.IH obtain n where n: "n + length (k # ks) \<ge> Suc MAX_CNAME_HOPS"
    "resume N W net family MAX_CNAME_HOPS start (canonical_name N start) {canonical_name N start} 0 (2 ^ 32 - 1)
       = resume N W net family n current k (set (k # ks)) (length ks) ttl" by auto
  from n(1) len obtain n' where n': "n = Suc n'" by (cases n) simp_all
  note step = resume_alias [where net = net, OF alias_step.hyps(2,3,4) len alias_step.hyps(5), of n' ttl]
  show ?case using n(1) unfolding n(2) n' step
    by (intro exI [of _ "if mentions N family (canonical_name N target) m then Suc n' else n'"]) auto
qed

lemma resume_alias_path:
  assumes "resume N W net family n current k (set (k # ks)) (length ks) ttl = Inr a"
    and "alias_path N W net family start current (k # ks) ttl" and "MAX_CNAME_HOPS \<le> n + length ks"
    and "length ks \<le> MAX_CNAME_HOPS"
  shows "\<exists>current' k' ks' ttl' m. alias_path N W net family start current' (k' # ks') ttl' \<and> length ks' \<le> MAX_CNAME_HOPS
    \<and> ask W net family current' = Inr m \<and> owned_addresses N family k' (msg_answers m) \<noteq> []
    \<and> a = trusted_answer (owned_addresses N family k' (msg_answers m)) ttl'"
  using assms
proof (induction "MAX_CNAME_HOPS - length ks" arbitrary: n current k ks ttl rule: less_induct)
  case less
  from less.prems(1) show ?case
  proof (cases rule: resume_cases)
    case (answer m)
    with less.prems(2,4) show ?thesis by blast
  next
    case (follow m target t)
    from follow(4) less.prems(3) obtain n' where n': "n = Suc n'" by (cases n) simp_all
    let ?key = "canonical_name N target" and ?go = "mentions N family (canonical_name N target) m"
    show ?thesis
    proof (rule less.hyps [where ks = "k # ks" and k = ?key])
      show "MAX_CNAME_HOPS - length (k # ks) < MAX_CNAME_HOPS - length ks" using follow(4) by simp
      show "resume N W net family (if ?go then Suc n' else n') (if ?go then current else target) ?key
          (set (?key # k # ks)) (length (k # ks)) (min ttl t) = Inr a"
        using less.prems(1) resume_alias [where net = net, OF follow, of n' ttl] n' by simp
      show "alias_path N W net family start (if ?go then current else target) (?key # k # ks) (min ttl t)"
        using less.prems(2) follow(1-3,5) by (rule alias_step)
      show "MAX_CNAME_HOPS \<le> (if ?go then Suc n' else n') + length (k # ks)" using less.prems(3) n' by simp
      show "length (k # ks) \<le> MAX_CNAME_HOPS" using follow(4) by simp
    qed
  qed
qed

lemma trusted_answer_bounds:
  assumes "records \<noteq> []" and "ttl < 2 ^ 32" and "\<And>a t. (a, t) \<in> set records \<Longrightarrow> family_accepts family a"
  shows "ta_addresses (trusted_answer records ttl) \<noteq> [] \<and> distinct (ta_addresses (trusted_answer records ttl))
    \<and> length (ta_addresses (trusted_answer records ttl)) \<le> MAX_RETAINED_ADDRESSES
    \<and> list_all (family_accepts family) (ta_addresses (trusted_answer records ttl))
    \<and> ta_ttl (trusted_answer records ttl) < 2 ^ 32 * 10 ^ 9"
proof -
  let ?all = "retain_first_addresses (map fst records)"
  have "distinct ?all" using dedup_by_distinct [of "\<lambda>a. a" "{}"] by (simp add: retain_first_addresses_def)
  moreover have "?all \<noteq> []" using assms(1) by (simp add: retain_first_addresses_def)
  moreover have "set (take n ?all) \<subseteq> fst ` set records" for n
    using set_take_subset [of n ?all] by (simp add: retain_first_addresses_def)
  ultimately show ?thesis using assms(2,3)
    by (fastforce simp: trusted_answer_def list_all_iff MAX_RETAINED_ADDRESSES_def min_def)
qed

lemma resolve_chain:
  assumes "resolve N W net name family = Some (Inr a)"
  shows "\<exists>start current k ks ttl m. as_absolute_name N name = Some start
        \<and> alias_path N W net family start current (k # ks) ttl \<and> length ks \<le> MAX_CNAME_HOPS
        \<and> ask W net family current = Inr m \<and> owned_addresses N family k (msg_answers m) \<noteq> []
        \<and> a = trusted_answer (owned_addresses N family k (msg_answers m)) ttl"
proof -
  from assms obtain start where s: "as_absolute_name N name = Some start" by (auto simp: resolve_def split: option.splits)
  have "resume N W net family MAX_CNAME_HOPS start (canonical_name N start) (set [canonical_name N start]) (length [])
      (2 ^ 32 - 1) = Inr a" using assms unfolding resolve_resume [OF s] by simp
  from resume_alias_path [OF this alias_start] s show ?thesis by simp
qed

lemma resolve_bounds:
  assumes "resolve N W net name family = Some (Inr a)"
  shows "ta_addresses a \<noteq> [] \<and> distinct (ta_addresses a) \<and> length (ta_addresses a) \<le> MAX_RETAINED_ADDRESSES
    \<and> list_all (family_accepts family) (ta_addresses a) \<and> ta_ttl a < 2 ^ 32 * 10 ^ 9"
proof -
  from resolve_chain [OF assms] obtain start current k ks ttl m
    where path: "alias_path N W net family start current (k # ks) ttl"
      and "ask W net family current = Inr m" "owned_addresses N family k (msg_answers m) \<noteq> []"
      and "a = trusted_answer (owned_addresses N family k (msg_answers m)) ttl" by blast
  with trusted_answer_bounds [of "owned_addresses N family k (msg_answers m)" ttl family]
    alias_path_distinct [OF path] owned_addresses_family show ?thesis by blast
qed

section \<open>Properties\<close>

text \<open>C10. The trusted resolver answers exactly when the name has an address at the end of a chain of at
  most eight aliases without a repeated name, each being the first alias in the response that was
  asked for it. The answer has the addresses of the last name, in order and without duplicates, cut
  at sixteen, and the smallest lifetime of the chain and the addresses.\<close>
theorem resolver_follows_aliases:
  "resolve N W net name family = Some (Inr a) \<longleftrightarrow>
     (\<exists>start current k ks ttl m. as_absolute_name N name = Some start
        \<and> alias_path N W net family start current (k # ks) ttl \<and> length ks \<le> MAX_CNAME_HOPS
        \<and> ask W net family current = Inr m \<and> owned_addresses N family k (msg_answers m) \<noteq> []
        \<and> a = trusted_answer (owned_addresses N family k (msg_answers m)) ttl)" (is "?resolved \<longleftrightarrow> ?chain")
proof
  assume ?resolved
  then show ?chain by (rule resolve_chain)
next
  assume ?chain
  then obtain start current k ks ttl m where s: "as_absolute_name N name = Some start"
    and path: "alias_path N W net family start current (k # ks) ttl" "length ks \<le> MAX_CNAME_HOPS"
    and m: "ask W net family current = Inr m" "owned_addresses N family k (msg_answers m) \<noteq> []"
    and a: "a = trusted_answer (owned_addresses N family k (msg_answers m)) ttl" by blast
  from alias_path_resume [OF path(1)] path(2) show ?resolved
    unfolding resolve_resume [OF s] a by (auto simp: resume_answer [where net = net, OF m])
qed

end
