(* ===== verification/Policy_Engine.thy ===== *)
theory Policy_Engine
  imports Prelude
begin

text \<open>
  The policy engine as the network supervisor sees it (\<open>opa.rs\<close>): a compiled policy with a generation
  number and a quarantine flag, the snapshots taken from it, and the transitions between generations.
  The Rego interpreter is a parameter: the views of its values and the evaluation of a rule.
\<close>

section \<open>Definitions\<close>

subsection \<open>Values\<close>

text \<open>The views of \<open>regorus::Value\<close> that the program takes: the field of an object, a string, the elements
  of an array, a number that fits 64 bits, the truth value, undefined, and the printed form.\<close>

record 'v rego_lib =
  rv_field :: "'v \<Rightarrow> string \<Rightarrow> 'v option"
  rv_string :: "'v \<Rightarrow> string option"
  rv_array :: "'v \<Rightarrow> 'v list option"
  rv_i64 :: "'v \<Rightarrow> int option"
  rv_bool :: "'v \<Rightarrow> bool option"
  rv_is_undefined :: "'v \<Rightarrow> bool"
  rv_to_string :: "'v \<Rightarrow> string"

definition get_field :: "'v rego_lib \<Rightarrow> 'v \<Rightarrow> string \<Rightarrow> 'v option" where
  "get_field R v key = rv_field R v key"

definition get_str :: "'v rego_lib \<Rightarrow> 'v \<Rightarrow> string \<Rightarrow> string option" where
  "get_str R v key = Option.bind (rv_field R v key) (rv_string R)"

definition get_bool :: "'v rego_lib \<Rightarrow> 'v \<Rightarrow> string \<Rightarrow> bool option" where
  "get_bool R v key = Option.bind (rv_field R v key) (rv_bool R)"

record 'v MatchedEndpoint =
  me_policy_name :: string
  me_endpoint_index :: nat
  me_endpoint :: 'v

definition parse_matched_endpoint :: "'v rego_lib \<Rightarrow> 'v \<Rightarrow> 'v MatchedEndpoint option" where
  "parse_matched_endpoint R v =
     (case get_str R v ''policy_name'' of
        None \<Rightarrow> None
      | Some policy_name \<Rightarrow>
          (case Option.bind (get_field R v ''endpoint_index'') (rv_i64 R) of
             None \<Rightarrow> None
           | Some number \<Rightarrow>
               if number < 0 then None
               else (case get_field R v ''endpoint'' of
                       None \<Rightarrow> None
                     | Some endpoint \<Rightarrow>
                         Some \<lparr>me_policy_name = policy_name, me_endpoint_index = nat number, me_endpoint = endpoint\<rparr>)))"

subsection \<open>The engine\<close>

record 'g OpaEngine =
  oe_engine :: 'g
  oe_generation :: nat
  oe_fail_closed_reason :: "string option"

definition advance_generation :: "'g OpaEngine \<Rightarrow> 'g OpaEngine" where
  "advance_generation engine = engine\<lparr>oe_generation := (oe_generation engine + 1) mod 2 ^ 64\<rparr>"

definition reload :: "'g \<Rightarrow> 'g OpaEngine \<Rightarrow> 'g OpaEngine" where
  "reload new_engine engine = advance_generation (engine\<lparr>oe_engine := new_engine, oe_fail_closed_reason := None\<rparr>)"

definition enter_fail_closed :: "string \<Rightarrow> 'g OpaEngine \<Rightarrow> 'g OpaEngine" where
  "enter_fail_closed reason engine = advance_generation (engine\<lparr>oe_fail_closed_reason := Some reason\<rparr>)"

definition exit_fail_closed :: "'g OpaEngine \<Rightarrow> 'g OpaEngine" where
  "exit_fail_closed engine =
     (if oe_fail_closed_reason engine \<noteq> None
      then advance_generation (engine\<lparr>oe_fail_closed_reason := None\<rparr>) else engine)"

text \<open>The registry itself is not part of the model.\<close>

definition replace_middleware_registry :: "'g OpaEngine \<Rightarrow> 'g OpaEngine" where
  "replace_middleware_registry engine = advance_generation engine"

text \<open>\<open>None\<close> when another generation is current. The engine lock makes the comparison and the operation one
  step.\<close>

definition with_current_generation :: "'g OpaEngine \<Rightarrow> nat \<Rightarrow> (nat \<Rightarrow> 'a) \<Rightarrow> 'a option" where
  "with_current_generation engine expected_generation operation =
     (if oe_generation engine \<noteq> expected_generation then None else Some (operation (oe_generation engine)))"

subsection \<open>Snapshots\<close>

record 'v PolicyDnsEligibilitySnapshot =
  es_endpoints :: "'v MatchedEndpoint list"
  es_generation :: nat
  es_fail_closed :: bool

text \<open>The interpreter: the value or the error of a rule in a compiled policy.\<close>

type_synonym ('g, 'v) rego_eval = "'g \<Rightarrow> string \<Rightarrow> string + 'v"

definition policy_dns_eligibility_snapshot ::
  "'v rego_lib \<Rightarrow> ('g, 'v) rego_eval \<Rightarrow> 'g OpaEngine \<Rightarrow> string + 'v PolicyDnsEligibilitySnapshot" where
  "policy_dns_eligibility_snapshot R eval_rule engine =
     (if oe_fail_closed_reason engine \<noteq> None
      then Inr \<lparr>es_endpoints = [], es_generation = oe_generation engine, es_fail_closed = True\<rparr>
      else bindE (eval_rule (oe_engine engine) ''data.openshell.sandbox.policy_dns_eligible_endpoint_records'')
        (\<lambda>v. Inr \<lparr>es_endpoints =
                     (case rv_array R v of
                        Some vs \<Rightarrow> List.map_filter (parse_matched_endpoint R) vs
                      | None \<Rightarrow> if rv_is_undefined R v then []
                                else List.map_filter (parse_matched_endpoint R) [v]),
                   es_generation = oe_generation engine, es_fail_closed = False\<rparr>))"

datatype NetworkAction = Allow "string option" | Deny string

record 'v EgressAuthorization =
  ea_action :: NetworkAction
  ea_endpoint_configs :: "'v list"
  ea_matched_endpoints :: "'v MatchedEndpoint list"
  ea_exact_declared_endpoint_host :: bool
  ea_generation :: nat

text \<open>Here the rule is evaluated on the input of one connection.\<close>

definition authorize_egress ::
  "'v rego_lib \<Rightarrow> ('i \<Rightarrow> ('g, 'v) rego_eval) \<Rightarrow> 'g OpaEngine \<Rightarrow> 'i \<Rightarrow> string + 'v EgressAuthorization" where
  "authorize_egress R eval_rule engine input =
     (case oe_fail_closed_reason engine of
        Some reason \<Rightarrow>
          Inr \<lparr>ea_action = Deny reason, ea_endpoint_configs = [], ea_matched_endpoints = [],
               ea_exact_declared_endpoint_host = False, ea_generation = oe_generation engine\<rparr>
      | None \<Rightarrow>
          bindE (eval_rule input (oe_engine engine) ''data.openshell.sandbox.egress_authorization'')
            (\<lambda>result.
               let nonempty = (\<lambda>key. Option.bind (get_str R result key) (\<lambda>s. if s = [] then None else Some s));
                   action_str = (case get_str R result ''action'' of None \<Rightarrow> [] | Some s \<Rightarrow> s);
                   values = (\<lambda>key. case Option.bind (get_field R result key) (rv_array R) of None \<Rightarrow> [] | Some vs \<Rightarrow> vs)
               in Inr \<lparr>ea_action =
                         (if action_str = ''allow'' then Allow (nonempty ''matched_policy'')
                          else Deny (case nonempty ''deny_reason'' of
                                       None \<Rightarrow> ''network connections not allowed by policy'' | Some reason \<Rightarrow> reason)),
                       ea_endpoint_configs = values ''endpoint_configs'',
                       ea_matched_endpoints = List.map_filter (parse_matched_endpoint R) (values ''matched_endpoints''),
                       ea_exact_declared_endpoint_host =
                         (case get_bool R result ''exact_declared_endpoint_host'' of None \<Rightarrow> False | Some b \<Rightarrow> b),
                       ea_generation = oe_generation engine\<rparr>))"

section \<open>Lemmas\<close>

lemma transition_generation [simp]:
  "oe_generation (reload g engine) = (oe_generation engine + 1) mod 2 ^ 64"
  "oe_generation (enter_fail_closed r engine) = (oe_generation engine + 1) mod 2 ^ 64"
  "oe_generation (replace_middleware_registry engine) = (oe_generation engine + 1) mod 2 ^ 64"
  by (simp_all add: reload_def enter_fail_closed_def replace_middleware_registry_def advance_generation_def)

lemma snapshot_generation:
  "policy_dns_eligibility_snapshot R eval_rule engine = Inr snap \<Longrightarrow> es_generation snap = oe_generation engine"
  by (auto simp: policy_dns_eligibility_snapshot_def split: if_splits)

text \<open>Under quarantine nothing is eligible and every connection is denied.\<close>

lemma fail_closed_denies:
  assumes "oe_fail_closed_reason engine = Some reason"
  shows "policy_dns_eligibility_snapshot R eval_rule engine
      = Inr \<lparr>es_endpoints = [], es_generation = oe_generation engine, es_fail_closed = True\<rparr>"
    and "\<exists>a. authorize_egress R eval_input engine input = Inr a \<and> ea_action a = Deny reason"
  using assms by (simp_all add: policy_dns_eligibility_snapshot_def authorize_egress_def)

lemma authorization_generation:
  "authorize_egress R eval_rule engine input = Inr a \<Longrightarrow> ea_generation a = oe_generation engine"
  by (auto simp: authorize_egress_def Let_def split: option.splits)

end
