(* ===== verification/Dns_Service.thy ===== *)
theory Dns_Service
  imports Dns_Resolver Policy_Engine Host_Pattern "HOL-Library.Product_Lexorder"
begin

text \<open>
  The policy DNS service (\<open>policy_dns/mod.rs\<close>) and its runs: queries that overlap with reloads of the policy and with expiry. A query takes a
  snapshot of the policy, waits for the trusted resolver, and publishes under the generation check.
\<close>

section \<open>Definitions\<close>

subsection \<open>Interfaces\<close>

text \<open>The packages the service uses and its configuration.\<close>

record ('g, 'v, 'n, 'n4, 'n6) dns_env =
  de_rego :: "'v rego_lib"
  de_eval :: "('g, 'v) rego_eval"
  de_glob :: glob_lib
  de_cidr :: "('n4, 'n6) cidr_lib"
  de_names :: "'n name_lib"
  de_wire :: "'n wire_lib"
  de_server :: "IpAddress \<times> nat"
  de_sha256 :: "string \<Rightarrow> string"
  de_trusted_host_gateway :: "IpAddress option"

text \<open>The trait \<open>TrustedResolver\<close>. A panic of \<open>as_absolute_name\<close> ends the query without an answer and without
  an effect on the store, as an error does.\<close>

type_synonym trusted_resolver_fn = "string \<Rightarrow> AddressFamily \<Rightarrow> ResolveError + TrustedAnswer"

text \<open>What the network does during a query: an exchange for each address of a server and each name asked there.\<close>

type_synonym 'n network = "IpAddress \<times> nat \<Rightarrow> 'n \<Rightarrow> dns_net"

text \<open>\<open>SocketTrustedResolver\<close>: every exchange goes to the one configured server.\<close>

definition socket_resolver :: "'n name_lib \<Rightarrow> 'n wire_lib \<Rightarrow> IpAddress \<times> nat \<Rightarrow> 'n network \<Rightarrow> trusted_resolver_fn" where
  "socket_resolver N W server network name family =
     (case resolve N W (network server) name family of None \<Rightarrow> Inl Malformed | Some r \<Rightarrow> r)"

definition MIN_MAPPING_TTL :: nat where "MIN_MAPPING_TTL = 10 ^ 9"
definition POLICY_LOCAL_ADDRESS :: Ipv4Addr where "POLICY_LOCAL_ADDRESS = v4_new 198 18 0 1"
definition POLICY_LOCAL_HOST :: string where "POLICY_LOCAL_HOST = ''policy.local''"

record SyntheticAnswer =
  sa_address :: IpAddress
  sa_ttl :: nat
  sa_mapping_id :: nat
  sa_mapping_generation :: nat
  sa_policy_generation :: nat

datatype PolicyFailure = EvalFailed string | SelectorInvalid string | PlanDenied DenialReason

datatype PolicyDnsError =
    InvalidName | Ineligible | TrustedGatewayUnavailable | ResolverError ResolveError | NoValidAddress
  | DnsStalePolicy | PublishFailed PublishError | PolicyError PolicyFailure

subsection \<open>Eligibility\<close>

definition observation_eligible :: "string \<Rightarrow> bool" where
  "observation_eligible name =
     (name \<noteq> ''localhost'' \<and> \<not> is_known_metadata_hostname name \<and> \<not> is_host_gateway_alias name)"

definition value_string :: "'v rego_lib \<Rightarrow> 'v \<Rightarrow> string \<Rightarrow> string option" where
  "value_string R v key = Option.bind (rv_field R v key) (rv_string R)"

definition value_string_array :: "'v rego_lib \<Rightarrow> 'v \<Rightarrow> string \<Rightarrow> string list" where
  "value_string_array R v key =
     (case Option.bind (rv_field R v key) (rv_array R) of
        None \<Rightarrow> [] | Some values \<Rightarrow> List.map_filter (rv_string R) values)"

definition value_ports :: "'v rego_lib \<Rightarrow> 'v \<Rightarrow> nat list" where
  "value_ports R v =
     sort_dedup
       (case Option.bind (rv_field R v ''ports'') (rv_array R) of
          None \<Rightarrow> []
        | Some values \<Rightarrow>
            List.map_filter (\<lambda>value. Option.bind (rv_i64 R value)
              (\<lambda>port. if 0 < port \<and> port < 2 ^ 16 then Some (nat port) else None)) values)"

record ('n4, 'n6) EligibleEndpoint =
  ee_endpoint_id :: PolicyEndpointId
  ee_ports :: "nat list"
  ee_destination_plan :: "('n4, 'n6) AddressAuthorization"
  ee_contract_fingerprint :: string

definition eligible_endpoint ::
  "('g, 'v, 'n, 'n4, 'n6) dns_env \<Rightarrow> string \<Rightarrow> 'v MatchedEndpoint \<Rightarrow> PolicyDnsError + ('n4, 'n6) EligibleEndpoint option" where
  "eligible_endpoint D name endpoint =
     (case value_string (de_rego D) (me_endpoint endpoint) ''host'' of
        None \<Rightarrow> Inr None
      | Some raw \<Rightarrow>
          let pattern = to_ascii_lowercase (trim_end_matches (CHR ''.'') raw)
          in case HostSelector_new (de_glob D) [pattern] [] of
               Inl message \<Rightarrow> Inl (PolicyError (SelectorInvalid message))
             | Inr selector \<Rightarrow>
                 if \<not> HostSelector_matches (de_glob D) selector name then Inr None
                 else
                   let ports = value_ports (de_rego D) (me_endpoint endpoint);
                       raw_allowed_ips = value_string_array (de_rego D) (me_endpoint endpoint) ''allowed_ips'';
                       exact_declared_host = (CHR ''*'' \<notin> set pattern \<and> pattern = name
                         \<and> Option.bind (rv_field (de_rego D) (me_endpoint endpoint) ''advisor_proposed'') (rv_bool (de_rego D))
                             \<noteq> Some True)
                   in if ports = [] then Inr None
                      else case build_validation_plan (de_cidr D) name name (de_trusted_host_gateway D) None
                                  raw_allowed_ips exact_declared_host of
                             Inl d \<Rightarrow> Inl (PolicyError (PlanDenied (dd_reason d)))
                           | Inr destination_plan \<Rightarrow>
                               Inr (Some
                                 \<lparr>ee_endpoint_id = \<lparr>pe_policy_name = me_policy_name endpoint,
                                                    pe_endpoint_index = me_endpoint_index endpoint\<rparr>,
                                  ee_ports = ports, ee_destination_plan = destination_plan,
                                  ee_contract_fingerprint = rv_to_string (de_rego D) (me_endpoint endpoint)\<rparr>))"

definition eligible_endpoints ::
  "('g, 'v, 'n, 'n4, 'n6) dns_env \<Rightarrow> 'v MatchedEndpoint list \<Rightarrow> string \<Rightarrow> PolicyDnsError + ('n4, 'n6) EligibleEndpoint list" where
  "eligible_endpoints D endpoints name =
     foldE (\<lambda>eligible endpoint. bindE (eligible_endpoint D name endpoint)
              (\<lambda>e. Inr (case e of None \<Rightarrow> eligible | Some e \<Rightarrow> eligible @ [e]))) [] endpoints"

definition allocation_identity :: "(string \<Rightarrow> string) \<Rightarrow> ('n4, 'n6) EligibleEndpoint list \<Rightarrow> string" where
  "allocation_identity sha256 endpoints =
     sha256 (concat (map (\<lambda>contract. contract @ [char_of (255 :: nat)])
       (sort (map (\<lambda>endpoint. pe_policy_name (ee_endpoint_id endpoint) @ [char_of (0 :: nat)]
                     @ show_nat (pe_endpoint_index (ee_endpoint_id endpoint)) @ [char_of (0 :: nat)]
                     @ ee_contract_fingerprint endpoint) endpoints))))"

definition clamp_mapping_ttl :: "nat \<Rightarrow> nat" where
  "clamp_mapping_ttl ttl = min (max ttl MIN_MAPPING_TTL) MAX_MAPPING_TTL"

subsection \<open>Queries\<close>

definition endpoint_contracts ::
  "('n4, 'n6) cidr_lib \<Rightarrow> string \<Rightarrow> IpAddress list \<Rightarrow> ('n4, 'n6) EligibleEndpoint
   \<Rightarrow> ('n4, 'n6) AddressAuthorization ResolvedPortContract list" where
  "endpoint_contracts L name addresses endpoint =
     List.map_filter
       (\<lambda>port. case filter_resolved_addresses L (ee_destination_plan endpoint) name port addresses of
                 Inl _ \<Rightarrow> None
               | Inr pinned_addresses \<Rightarrow>
                   Some \<lparr>rc_endpoint_id = ee_endpoint_id endpoint, rc_port = port,
                         rc_destination_plan = ee_destination_plan endpoint, rc_pinned_addresses = pinned_addresses\<rparr>)
       (ee_ports endpoint)"

definition query_contracts ::
  "('n4, 'n6) cidr_lib \<Rightarrow> string \<Rightarrow> IpAddress list \<Rightarrow> ('n4, 'n6) EligibleEndpoint list
   \<Rightarrow> ('n4, 'n6) AddressAuthorization ResolvedPortContract list" where
  "query_contracts L name addresses eligible =
     sort_key (\<lambda>c. (pe_policy_name (rc_endpoint_id c), pe_endpoint_index (rc_endpoint_id c), rc_port c))
       (concat (map (endpoint_contracts L name addresses) eligible))"

definition trusted_answer_for ::
  "('g, 'v, 'n, 'n4, 'n6) dns_env \<Rightarrow> trusted_resolver_fn \<Rightarrow> string \<Rightarrow> AddressFamily \<Rightarrow> PolicyDnsError + TrustedAnswer" where
  "trusted_answer_for D resolver name family =
     (if is_host_gateway_alias name
      then (case de_trusted_host_gateway D of
              None \<Rightarrow> Inl NoValidAddress
            | Some address \<Rightarrow>
                if family_accepts family address then Inr \<lparr>ta_addresses = [address], ta_ttl = MAX_MAPPING_TTL\<rparr>
                else Inl NoValidAddress)
      else map_err ResolverError (resolver name family))"

text \<open>Publication under the engine lock; \<open>engine\<close> is the policy at that time.\<close>

definition publish_guarded ::
  "'g OpaEngine \<Rightarrow> nat \<Rightarrow> (nat \<Rightarrow> (PublishError + 'p ResolvedEndpointRecord) \<times> 'p StoreState) \<Rightarrow> 'p StoreState
   \<Rightarrow> (PolicyDnsError + 'p ResolvedEndpointRecord) \<times> 'p StoreState" where
  "publish_guarded engine policy_generation publish_fn st =
     (case with_current_generation engine policy_generation publish_fn of
        Some (Inr rec, st') \<Rightarrow> (Inr rec, st')
      | Some (Inl e, st') \<Rightarrow> (Inl (PublishFailed e), st')
      | None \<Rightarrow> (Inl DnsStalePolicy, st))"

definition synthetic_answer :: "nat \<Rightarrow> 'p ResolvedEndpointRecord \<Rightarrow> SyntheticAnswer" where
  "synthetic_answer ttl rec =
     \<lparr>sa_address = rr_synthetic_address rec, sa_ttl = ttl, sa_mapping_id = rr_mapping_id rec,
      sa_mapping_generation = rr_mapping_generation rec, sa_policy_generation = rr_policy_generation rec\<rparr>"

definition stage_observation ::
  "StoreConfig \<Rightarrow> 'g OpaEngine \<Rightarrow> string \<Rightarrow> AddressFamily \<Rightarrow> nat \<Rightarrow> nat \<Rightarrow> nat \<Rightarrow> 'p StoreState
   \<Rightarrow> (PolicyDnsError + SyntheticAnswer) \<times> 'p StoreState" where
  "stage_observation C engine name family policy_generation now uuid st =
     (case publish_guarded engine policy_generation
             (\<lambda>current_generation. publish_observation C name family policy_generation current_generation now uuid st) st of
        (Inl (PublishFailed ObservationBudgetExhausted), st') \<Rightarrow> (Inl Ineligible, st')
      | (Inl (PublishFailed PoolExhausted), st') \<Rightarrow> (Inl Ineligible, st')
      | (Inl e, st') \<Rightarrow> (Inl e, st')
      | (Inr rec, st') \<Rightarrow> (Inr (synthetic_answer MAX_MAPPING_TTL rec), st'))"

text \<open>A query reads the policy \<open>engine\<close> when it starts. When it publishes, the policy is \<open>engine'\<close> and the
  store is \<open>st\<close>.\<close>

definition answer_query ::
  "('g, 'v, 'n, 'n4, 'n6) dns_env \<Rightarrow> StoreConfig \<Rightarrow> trusted_resolver_fn \<Rightarrow> 'g OpaEngine \<Rightarrow> 'g OpaEngine
   \<Rightarrow> string \<Rightarrow> AddressFamily \<Rightarrow> nat \<Rightarrow> nat \<Rightarrow> ('n4, 'n6) AddressAuthorization StoreState
   \<Rightarrow> (PolicyDnsError + SyntheticAnswer) \<times> ('n4, 'n6) AddressAuthorization StoreState" where
  "answer_query D C resolver engine engine' raw_name family now uuid st =
     (case NormalizedName_parse (de_names D) raw_name of
        None \<Rightarrow> (Inl InvalidName, st)
      | Some name \<Rightarrow>
          if name = POLICY_LOCAL_HOST
          then (if family = Ipv4
                then Inr \<lparr>sa_address = Ip4 POLICY_LOCAL_ADDRESS, sa_ttl = MAX_MAPPING_TTL, sa_mapping_id = 0,
                          sa_mapping_generation = 0, sa_policy_generation = oe_generation engine\<rparr>
                else Inl (ResolverError NoData), st)
          else if is_host_gateway_alias name \<and> de_trusted_host_gateway D = None then (Inl TrustedGatewayUnavailable, st)
          else case policy_dns_eligibility_snapshot (de_rego D) (de_eval D) engine of
                 Inl message \<Rightarrow> (Inl (PolicyError (EvalFailed message)), st)
               | Inr snapshot \<Rightarrow>
                   (case eligible_endpoints D (es_endpoints snapshot) name of
                      Inl e \<Rightarrow> (Inl e, st)
                    | Inr eligible \<Rightarrow>
                        if eligible = []
                        then (if es_fail_closed snapshot \<or> \<not> observation_eligible name then (Inl Ineligible, st)
                              else stage_observation C engine' name family (es_generation snapshot) now uuid st)
                        else case trusted_answer_for D resolver name family of
                               Inl e \<Rightarrow> (Inl e, st)
                             | Inr answer \<Rightarrow>
                                 let ttl = clamp_mapping_ttl (ta_ttl answer);
                                     contracts = query_contracts (de_cidr D) name (ta_addresses answer) eligible
                                 in if contracts = [] then (Inl NoValidAddress, st)
                                    else
                                      let request = \<lparr>pr_normalized_name = name, pr_family = family,
                                            pr_allocation_identity = allocation_identity (de_sha256 D) eligible,
                                            pr_policy_generation = es_generation snapshot, pr_ttl = ttl,
                                            pr_contracts = contracts\<rparr>
                                      in case publish_guarded engine' (es_generation snapshot)
                                                (\<lambda>current_generation. publish C request current_generation now uuid st) st of
                                           (Inl e, st') \<Rightarrow> (Inl e, st')
                                         | (Inr rec, st') \<Rightarrow> (Inr (synthetic_answer ttl rec), st')))"

subsection \<open>Runs\<close>

record ('g, 'p) dns_system =
  sy_engine :: "'g OpaEngine"
  sy_store :: "'p StoreState"

text \<open>A transition of the policy.\<close>

inductive policy_step :: "'g OpaEngine \<Rightarrow> 'g OpaEngine \<Rightarrow> bool" where
  "policy_step engine (reload new_engine engine)"
| "policy_step engine (enter_fail_closed reason engine)"
| "policy_step engine (exit_fail_closed engine)"
| "policy_step engine (replace_middleware_registry engine)"

text \<open>A query of a history: the name and family that were asked for, and what the network did during it.\<close>

record 'n dns_event =
  dq_name :: string
  dq_family :: AddressFamily
  dq_network :: "'n network"

abbreviation env_resolver :: "('g, 'v, 'n, 'n4, 'n6) dns_env \<Rightarrow> 'n network \<Rightarrow> trusted_resolver_fn" where
  "env_resolver D network \<equiv> socket_resolver (de_names D) (de_wire D) (de_server D) network"

text \<open>The histories of the service with the queries and the states, newest first. A query that finishes in the
  newest state may have started in any earlier one.\<close>

inductive dns_run ::
  "('g, 'v, 'n, 'n4, 'n6) dns_env \<Rightarrow> StoreConfig \<Rightarrow> 'n dns_event list \<Rightarrow> ('g, ('n4, 'n6) AddressAuthorization) dns_system list \<Rightarrow> bool"
  for D C where
  run_start: "dns_run D C [] [\<lparr>sy_engine = engine, sy_store = store_new C\<rparr>]"
| run_query: "dns_run D C log (s # tr) \<Longrightarrow> s0 \<in> set (s # tr)
     \<Longrightarrow> answer_query D C (env_resolver D (dq_network q)) (sy_engine s0) (sy_engine s) (dq_name q) (dq_family q) now uuid (sy_store s)
           = (r, st) \<Longrightarrow> dns_run D C (q # log) (s\<lparr>sy_store := st\<rparr> # s # tr)"
| run_expire: "dns_run D C log (s # tr) \<Longrightarrow> dns_run D C log (s\<lparr>sy_store := snd (expire now (sy_store s))\<rparr> # s # tr)"
| run_policy: "dns_run D C log (s # tr) \<Longrightarrow> policy_step (sy_engine s) engine \<Longrightarrow> dns_run D C log (s\<lparr>sy_engine := engine\<rparr> # s # tr)"

section \<open>Lemmas\<close>

subsection \<open>Eligible endpoints and their contracts\<close>

lemma foldE_collect:
  "foldE (\<lambda>acc x. bindE (f x) (\<lambda>e. Inr (case e of None \<Rightarrow> acc | Some e \<Rightarrow> acc @ [e]))) acc xs = Inr out
   \<Longrightarrow> set out = set acc \<union> {e. \<exists>x\<in>set xs. f x = Inr (Some e)}"
  by (induction xs arbitrary: acc) (auto split: option.splits)

lemma eligible_endpoints_set:
  "eligible_endpoints D endpoints name = Inr eligible
   \<Longrightarrow> set eligible = {e. \<exists>x\<in>set endpoints. eligible_endpoint D name x = Inr (Some e)}"
  unfolding eligible_endpoints_def by (drule foldE_collect) simp

lemma query_contracts_iff:
  "c \<in> set (query_contracts L name addresses eligible) \<longleftrightarrow>
     (\<exists>e\<in>set eligible. rc_port c \<in> set (ee_ports e) \<and> rc_endpoint_id c = ee_endpoint_id e
        \<and> rc_destination_plan c = ee_destination_plan e
        \<and> filter_resolved_addresses L (ee_destination_plan e) name (rc_port c) addresses = Inr (rc_pinned_addresses c))"
  by (cases c) (force simp: query_contracts_def endpoint_contracts_def List.map_filter_def split: sum.splits option.splits)

lemma value_ports_range: "p \<in> set (value_ports R v) \<Longrightarrow> 0 < p \<and> p < 2 ^ 16"
  by (auto simp: value_ports_def List.map_filter_def split: option.splits bind_splits if_splits)

text \<open>What an eligible endpoint is.\<close>

lemma eligible_endpoint_Some:
  assumes "eligible_endpoint D name x = Inr (Some e)"
  obtains raw selector exact where "value_string (de_rego D) (me_endpoint x) ''host'' = Some raw"
    and "HostSelector_new (de_glob D) [to_ascii_lowercase (trim_end_matches (CHR ''.'') raw)] [] = Inr selector"
    and "HostSelector_matches (de_glob D) selector name"
    and "ee_ports e = value_ports (de_rego D) (me_endpoint x)"
    and "ee_endpoint_id e = \<lparr>pe_policy_name = me_policy_name x, pe_endpoint_index = me_endpoint_index x\<rparr>"
    and "build_validation_plan (de_cidr D) name name (de_trusted_host_gateway D) None
           (value_string_array (de_rego D) (me_endpoint x) ''allowed_ips'') exact = Inr (ee_destination_plan e)"
    and "exact \<longrightarrow> to_ascii_lowercase (trim_end_matches (CHR ''.'') raw) = name"
proof -
  from assms obtain raw selector where *: "value_string (de_rego D) (me_endpoint x) ''host'' = Some raw"
    "HostSelector_new (de_glob D) [to_ascii_lowercase (trim_end_matches (CHR ''.'') raw)] [] = Inr selector"
    "HostSelector_matches (de_glob D) selector name"
    by (auto simp: eligible_endpoint_def Let_def split: option.splits sum.splits if_splits)
  show thesis
    by (rule that [OF *]) (use assms * in \<open>auto simp: eligible_endpoint_def Let_def split: sum.splits if_splits\<close>)
qed

lemma clamp_mapping_ttl_range: "MIN_MAPPING_TTL \<le> clamp_mapping_ttl ttl \<and> clamp_mapping_ttl ttl \<le> MAX_MAPPING_TTL"
  by (simp add: clamp_mapping_ttl_def MIN_MAPPING_TTL_def MAX_MAPPING_TTL_def)

subsection \<open>The contract of a trusted resolver\<close>

text \<open>What the service relies on of its resolver: an answer has at least one address, and only addresses
  of the family that was asked for.\<close>

locale trusted_resolver =
  fixes resolver :: trusted_resolver_fn
  assumes resolver_answers: "resolver name family = Inr answer
    \<Longrightarrow> ta_addresses answer \<noteq> [] \<and> list_all (family_accepts family) (ta_addresses answer)"
begin

lemma trusted_answer_family:
  assumes "trusted_answer_for D resolver name family = Inr answer"
  shows "ta_addresses answer \<noteq> [] \<and> list_all (family_accepts family) (ta_addresses answer)"
  using assms resolver_answers by (auto simp: trusted_answer_for_def split: if_splits option.splits)

lemma contracts_valid:
  assumes "trusted_answer_for D resolver name family = Inr answer"
    and "\<And>e. e \<in> set eligible \<Longrightarrow> 0 \<notin> set (ee_ports e)"
  shows "\<not> list_ex (contract_invalid family) (query_contracts L name (ta_addresses answer) eligible)"
proof -
  have "\<not> contract_invalid family c" if "c \<in> set (query_contracts L name (ta_addresses answer) eligible)" for c
  proof -
    from that obtain e where e: "e \<in> set eligible" "rc_port c \<in> set (ee_ports e)"
      "filter_resolved_addresses L (ee_destination_plan e) name (rc_port c) (ta_addresses answer) = Inr (rc_pinned_addresses c)"
      unfolding query_contracts_iff by blast
    then have "rc_port c \<noteq> 0" using assms(2) by metis
    moreover have "rc_pinned_addresses c \<noteq> []" "set (rc_pinned_addresses c) \<subseteq> set (ta_addresses answer)"
      using e(3) unfolding filter_resolved_addresses_iff by (auto split: if_splits)
    ultimately show ?thesis using trusted_answer_family [OF assms(1)] by (auto simp: contract_invalid_def list_ex_iff list_all_iff)
  qed
  then show ?thesis by (simp add: list_ex_iff)
qed

end

lemma socket_resolver_Inr:
  "socket_resolver N W server network name family = Inr answer \<longleftrightarrow> resolve N W (network server) name family = Some (Inr answer)"
  by (auto simp: socket_resolver_def split: option.splits)

interpretation socket: trusted_resolver "socket_resolver N W server network"
  by unfold_locales (auto simp: socket_resolver_Inr dest: resolve_bounds)

subsection \<open>What a query does to the store\<close>

text \<open>The request that a query builds from a snapshot of the policy.\<close>

definition authorized_request ::
  "('g, 'v, 'n, 'n4, 'n6) dns_env \<Rightarrow> trusted_resolver_fn \<Rightarrow> 'g OpaEngine \<Rightarrow> ('n4, 'n6) AddressAuthorization PublishRequest \<Rightarrow> bool" where
  "authorized_request D resolver engine request \<longleftrightarrow>
     (\<exists>snapshot eligible answer.
        policy_dns_eligibility_snapshot (de_rego D) (de_eval D) engine = Inr snapshot
        \<and> eligible_endpoints D (es_endpoints snapshot) (pr_normalized_name request) = Inr eligible
        \<and> trusted_answer_for D resolver (pr_normalized_name request) (pr_family request) = Inr answer
        \<and> pr_policy_generation request = oe_generation engine
        \<and> pr_allocation_identity request = allocation_identity (de_sha256 D) eligible
        \<and> pr_ttl request = clamp_mapping_ttl (ta_ttl answer)
        \<and> pr_contracts request = query_contracts (de_cidr D) (pr_normalized_name request) (ta_addresses answer) eligible)"

text \<open>The store operation of a query for \<open>asked\<close> and \<open>kind\<close>.\<close>

fun justified_op ::
  "('g, 'v, 'n, 'n4, 'n6) dns_env \<Rightarrow> trusted_resolver_fn \<Rightarrow> 'g OpaEngine \<Rightarrow> string \<Rightarrow> AddressFamily
   \<Rightarrow> ('n4, 'n6) AddressAuthorization store_op \<Rightarrow> bool" where
  "justified_op D resolver engine asked kind (Publish request current now uuid) =
     (current = oe_generation engine \<and> pr_normalized_name request = asked \<and> pr_family request = kind
      \<and> authorized_request D resolver engine request)"
| "justified_op D resolver engine asked kind (PublishObservation name family generation current now uuid) =
     (generation = oe_generation engine \<and> current = oe_generation engine \<and> name = asked \<and> family = kind
      \<and> observation_eligible name \<and> oe_fail_closed_reason engine = None)"
| "justified_op D resolver engine asked kind (Expire now) = True"

lemma publish_guarded_step:
  assumes "publish_guarded engine generation (\<lambda>g. f g) st = (r, st')"
  shows "st' = st \<or> oe_generation engine = generation \<and> st' = snd (f generation)"
  using assms by (auto simp: publish_guarded_def with_current_generation_def split: if_splits prod.splits sum.splits)

lemma snapshot_fail_closed:
  "policy_dns_eligibility_snapshot R eval_rule engine = Inr snap \<Longrightarrow> es_fail_closed snap \<longleftrightarrow> oe_fail_closed_reason engine \<noteq> None"
  by (auto simp: policy_dns_eligibility_snapshot_def split: if_splits)

lemma stage_observation_step:
  assumes "stage_observation C engine name family generation now uuid st = (r, st')"
  shows "st' = st \<or> oe_generation engine = generation
    \<and> st' = store_step C st (PublishObservation name family generation generation now uuid)"
proof -
  obtain x y where p: "publish_guarded engine generation
      (\<lambda>g. publish_observation C name family generation g now uuid st) st = (x, y)" by fastforce
  then have "st' = y" using assms
    by (auto simp: stage_observation_def split: sum.splits PolicyDnsError.splits PublishError.splits)
  with publish_guarded_step [OF p] show ?thesis by simp
qed

text \<open>A query either leaves the store alone or performs one store operation, justified by the policy it
  read. It does so only if the generation it read is still current.\<close>

lemma answer_query_step:
  assumes "answer_query D C resolver engine engine' raw family now uuid st = (r, st')"
  shows "st' = st \<or> oe_generation engine' = oe_generation engine
    \<and> (\<exists>name op. NormalizedName_parse (de_names D) raw = Some name \<and> st' = store_step C st op
         \<and> justified_op D resolver engine name family op)"
proof (cases "st' = st")
  case False
  then obtain name snapshot eligible where n: "NormalizedName_parse (de_names D) raw = Some name"
    and s: "policy_dns_eligibility_snapshot (de_rego D) (de_eval D) engine = Inr snapshot"
    and e: "eligible_endpoints D (es_endpoints snapshot) name = Inr eligible"
    and noloc: "name \<noteq> POLICY_LOCAL_HOST" and gw: "\<not> (is_host_gateway_alias name \<and> de_trusted_host_gateway D = None)"
    using assms by (auto simp: answer_query_def split: option.splits if_splits sum.splits)
  note base = assms [unfolded answer_query_def n option.case if_not_P [OF noloc] if_not_P [OF gw] s e sum.case]
  have g: "es_generation snapshot = oe_generation engine" by (rule snapshot_generation [OF s])
  show ?thesis
  proof (cases "eligible = []")
    case True
    with base False have obs: "\<not> es_fail_closed snapshot" "observation_eligible name"
      and st: "stage_observation C engine' name family (oe_generation engine) now uuid st = (r, st')"
      by (auto simp: g split: if_splits)
    have "justified_op D resolver engine name family
        (PublishObservation name family (oe_generation engine) (oe_generation engine) now uuid)"
      using obs snapshot_fail_closed [OF s] by simp
    with stage_observation_step [OF st] False n show ?thesis by metis
  next
    case ne: False
    with base False obtain answer where a: "trusted_answer_for D resolver name family = Inr answer"
      by (auto split: sum.splits)
    define request where "request = \<lparr>pr_normalized_name = name, pr_family = family,
      pr_allocation_identity = allocation_identity (de_sha256 D) eligible, pr_policy_generation = oe_generation engine,
      pr_ttl = clamp_mapping_ttl (ta_ttl answer),
      pr_contracts = query_contracts (de_cidr D) name (ta_addresses answer) eligible\<rparr>"
    obtain x y where p: "publish_guarded engine' (oe_generation engine) (\<lambda>g. publish C request g now uuid st) st = (x, y)"
      by fastforce
    have "y = st'" using base False ne p
      by (auto simp: a g Let_def request_def [symmetric] split: if_splits sum.splits)
    moreover have "justified_op D resolver engine name family (Publish request (oe_generation engine) now uuid)"
      using s e a by (auto simp: authorized_request_def request_def)
    ultimately show ?thesis using publish_guarded_step [OF p] False n by (metis store_step.simps(1))
  qed
qed simp

subsection \<open>Histories\<close>

text \<open>An operation of the store is an expiry or the work of a query of the history.\<close>

definition justified_in ::
  "('g, 'v, 'n, 'n4, 'n6) dns_env \<Rightarrow> 'n dns_event list \<Rightarrow> ('g, ('n4, 'n6) AddressAuthorization) dns_system list
   \<Rightarrow> ('n4, 'n6) AddressAuthorization store_op \<Rightarrow> bool" where
  "justified_in D log tr op \<longleftrightarrow> (\<exists>now. op = Expire now)
     \<or> (\<exists>s\<in>set tr. \<exists>q\<in>set log. \<exists>name. NormalizedName_parse (de_names D) (dq_name q) = Some name
          \<and> justified_op D (env_resolver D (dq_network q)) (sy_engine s) name (dq_family q) op)"

lemma justified_in_mono: "justified_in D log tr op \<Longrightarrow> set log \<subseteq> set log' \<Longrightarrow> set tr \<subseteq> set tr' \<Longrightarrow> justified_in D log' tr' op"
  unfolding justified_in_def by blast

lemma store_run_snoc: "store_run C (ops @ [op]) = store_step C (store_run C ops) op"
  by (simp add: store_run_def)

definition extends_store :: "StoreConfig \<Rightarrow> 'p store_op list \<Rightarrow> ('g, 'p) dns_system \<Rightarrow> bool" where
  "extends_store C ops s \<longleftrightarrow> (\<exists>before after. ops = before @ after \<and> sy_store s = store_run C before)"

lemma extends_store_snoc: "extends_store C ops s \<Longrightarrow> extends_store C (ops @ [op]) s"
  unfolding extends_store_def by (metis append.assoc)

lemma extends_store_refl: "sy_store s = store_run C ops \<Longrightarrow> extends_store C ops s"
  unfolding extends_store_def by (intro exI [of _ ops] exI [of _ "[]"]) simp

text \<open>The store of any history is a run of the store that extends the runs of the earlier states, each
  operation justified by a policy of the history.\<close>

lemma dns_run_store:
  "dns_run D C log tr \<Longrightarrow> \<exists>ops. sy_store (hd tr) = store_run C ops \<and> list_all (justified_in D log tr) ops
     \<and> (\<forall>s\<in>set tr. extends_store C ops s)"
proof (induction rule: dns_run.induct)
  case (run_start engine)
  show ?case by (intro exI [of _ "[]"]) (simp add: store_run_def extends_store_def)
next
  case (run_query log s tr s0 q now uuid r st)
  then obtain ops where ops: "sy_store s = store_run C ops" "list_all (justified_in D log (s # tr)) ops"
    "\<forall>x\<in>set (s # tr). extends_store C ops x" by auto
  let ?tr = "s\<lparr>sy_store := st\<rparr> # s # tr" and ?log = "q # log"
  have mono: "list_all (justified_in D ?log ?tr) ops" using ops(2) justified_in_mono [of D log "s # tr" _ ?log ?tr]
    by (auto simp: list_all_iff)
  from answer_query_step [OF run_query.hyps(3)] show ?case
  proof (elim disjE conjE exE)
    assume st: "st = sy_store s"
    have "extends_store C ops (s\<lparr>sy_store := st\<rparr>)" by (rule extends_store_refl) (simp add: st ops(1))
    then have "\<forall>x\<in>set ?tr. extends_store C ops x" using ops(3) unfolding list.set by blast
    moreover have "sy_store (hd ?tr) = store_run C ops" using ops(1) st by simp
    ultimately show ?thesis using mono by blast
  next
    fix name op
    assume op: "NormalizedName_parse (de_names D) (dq_name q) = Some name" "st = store_step C (sy_store s) op"
      "justified_op D (env_resolver D (dq_network q)) (sy_engine s0) name (dq_family q) op"
    then have "justified_in D ?log ?tr op" using run_query.hyps(2) unfolding justified_in_def by auto
    moreover have "extends_store C (ops @ [op]) (s\<lparr>sy_store := st\<rparr>)"
      by (rule extends_store_refl) (simp add: op(2) ops(1) store_run_snoc)
    ultimately show ?thesis using op(2) ops(1,3) mono
      by (intro exI [of _ "ops @ [op]"]) (simp add: store_run_snoc extends_store_snoc)
  qed
next
  case (run_expire log s tr now)
  then obtain ops where ops: "sy_store s = store_run C ops" "list_all (justified_in D log (s # tr)) ops"
    "\<forall>x\<in>set (s # tr). extends_store C ops x" by auto
  moreover have "extends_store C (ops @ [Expire now]) (s\<lparr>sy_store := snd (expire now (sy_store s))\<rparr>)"
    by (rule extends_store_refl) (simp add: ops(1) store_run_snoc)
  ultimately show ?case
    by (intro exI [of _ "ops @ [Expire now]"]) (auto simp: store_run_snoc list_all_iff justified_in_def extends_store_snoc)
next
  case (run_policy log s tr engine)
  then obtain ops where ops: "sy_store s = store_run C ops" "list_all (justified_in D log (s # tr)) ops"
    "\<forall>x\<in>set (s # tr). extends_store C ops x" by auto
  moreover have "extends_store C ops (s\<lparr>sy_engine := engine\<rparr>)" by (rule extends_store_refl) (simp add: ops(1))
  ultimately show ?case by (intro exI [of _ ops]) (auto simp: list_all_iff justified_in_def)
qed

lemma policy_step_generation:
  "policy_step engine engine' \<Longrightarrow> engine' = engine \<or> oe_generation engine' = (oe_generation engine + 1) mod 2 ^ 64"
  by (cases rule: policy_step.cases) (auto simp: exit_fail_closed_def advance_generation_def)

text \<open>Before the counter wraps around, a generation number stands for one policy.\<close>

lemma dns_run_generations:
  assumes "dns_run D C log tr" and "oe_generation (sy_engine (last tr)) + length tr \<le> 2 ^ 64"
  shows "oe_generation (sy_engine (hd tr)) < oe_generation (sy_engine (last tr)) + length tr
    \<and> (\<forall>s\<in>set tr. oe_generation (sy_engine s) \<le> oe_generation (sy_engine (hd tr)))
    \<and> (\<forall>s\<in>set tr. \<forall>s'\<in>set tr. oe_generation (sy_engine s) = oe_generation (sy_engine s') \<longrightarrow> sy_engine s = sy_engine s')"
  using assms
proof (induction rule: dns_run.induct)
  case (run_policy log s tr engine)
  let ?g = "\<lambda>s. oe_generation (sy_engine s)"
  from run_policy.prems run_policy.IH have IH: "?g s < ?g (last (s # tr)) + length (s # tr)"
    "\<forall>x\<in>set (s # tr). ?g x \<le> ?g s"
    "\<forall>x\<in>set (s # tr). \<forall>y\<in>set (s # tr). ?g x = ?g y \<longrightarrow> sy_engine x = sy_engine y" by simp_all
  from policy_step_generation [OF run_policy.hyps(2)] show ?case
  proof
    assume "engine = sy_engine s"
    then show ?thesis using IH by simp
  next
    assume "oe_generation engine = (?g s + 1) mod 2 ^ 64"
    moreover have "?g s + 1 < 2 ^ 64" using IH(1) run_policy.prems by simp
    ultimately have "oe_generation engine = ?g s + 1" by simp
    then show ?thesis using IH by force
  qed
qed auto

lemma lookup_record:
  assumes "lookup st a port generation now = Inr m"
  shows "fmlookup (ss_records st) a = Some (ml_record m)" "ml_port m = port" "now < rr_expires_at (ml_record m)"
    "rr_policy_generation (ml_record m) = generation" "\<exists>c\<in>set (rr_contracts (ml_record m)). rc_port c = port"
  using assms by (auto simp: lookup_def live_record_def list_ex_iff split: option.splits if_splits)

lemma pinned_addresses_contract:
  assumes "pinned_addresses_for m ids = Inr ips" and "ip \<in> set ips"
  obtains c where "c \<in> set (rr_contracts (ml_record m))" "rc_port c = ml_port m" "rc_endpoint_id c \<in> set ids"
    "ip \<in> set (rc_pinned_addresses c)"
  using assms by (auto simp: pinned_addresses_for_def Let_def split: if_splits)

text \<open>An address belongs to the same name in every state of a history.\<close>

lemma dns_run_name_stable:
  assumes "pools_ok C" and "dns_run D C log tr" and "s \<in> set tr" and "fmlookup (ss_records (sy_store s)) a = Some r"
    and "fmlookup (ss_records (sy_store (hd tr))) a = Some r'"
  shows "rr_normalized_name r' = rr_normalized_name r \<and> rr_family r' = rr_family r"
proof -
  from dns_run_store [OF assms(2)] assms(3) obtain ops where ops: "sy_store (hd tr) = store_run C ops" "extends_store C ops s" by blast
  then obtain before after where split: "ops = before @ after" "sy_store s = store_run C before" unfolding extends_store_def by blast
  note inv = store_run_inv [OF assms(1)]
  obtain k where k: "fmlookup (ss_allocations (store_run C before)) k = Some a" "ak_normalized_name k = rr_normalized_name r"
    "ak_family k = rr_family r"
    using inv [of before] assms(4) unfolding split(2) store_inv_def record_inv_def by blast
  obtain k' where k': "fmlookup (ss_allocations (store_run C ops)) k' = Some a" "ak_normalized_name k' = rr_normalized_name r'"
    "ak_family k' = rr_family r'"
    using inv [of ops] assms(5) unfolding ops(1) store_inv_def record_inv_def by blast
  have "fmlookup (ss_allocations (store_run C ops)) k = Some a"
    unfolding split(1) store_run_append by (rule foldl_alloc_mono [OF assms(1) inv k(1)])
  then have "k = k'" using inv [of ops] k'(1) unfolding store_inv_def alloc_inv_def by blast
  with k k' show ?thesis by simp
qed

text \<open>What the policy \<open>engine\<close> says about dialling \<open>ip\<close> for \<open>name\<close> at \<open>port\<close> on behalf of the endpoints \<open>ids\<close>: an
  eligible endpoint of it, among \<open>ids\<close>, matches the name, has the port, and permits the address.\<close>

definition policy_permits ::
  "('g, 'v, 'n, 'n4, 'n6) dns_env \<Rightarrow> 'g OpaEngine \<Rightarrow> string \<Rightarrow> nat \<Rightarrow> PolicyEndpointId list \<Rightarrow> IpAddress \<Rightarrow> bool" where
  "policy_permits D engine name port ids ip \<longleftrightarrow>
     (\<exists>snapshot x e. policy_dns_eligibility_snapshot (de_rego D) (de_eval D) engine = Inr snapshot
        \<and> x \<in> set (es_endpoints snapshot) \<and> eligible_endpoint D name x = Inr (Some e)
        \<and> ee_endpoint_id e \<in> set ids \<and> port \<in> set (ee_ports e)
        \<and> address_permitted (de_cidr D) (ee_destination_plan e) port ip)"

text \<open>Where a trusted address comes from: the configured gateway for its aliases, and for any other name a
  query of the history for that name. During that query the configured server gave the address, in
  a response about the name at the end of a chain of aliases that starts at the name.\<close>

definition server_gave :: "('g, 'v, 'n, 'n4, 'n6) dns_env \<Rightarrow> 'n dns_event \<Rightarrow> string \<Rightarrow> IpAddress \<Rightarrow> bool" where
  "server_gave D q name ip \<longleftrightarrow>
     (\<exists>start current k ks ttl m. as_absolute_name (de_names D) name = Some start
        \<and> alias_path (de_names D) (de_wire D) (dq_network q (de_server D)) (dq_family q) start current (k # ks) ttl
        \<and> length ks \<le> MAX_CNAME_HOPS
        \<and> ask (de_wire D) (dq_network q (de_server D)) (dq_family q) current = Inr m
        \<and> ip \<in> fst ` set (owned_addresses (de_names D) (dq_family q) k (msg_answers m)))"

definition trusted_source :: "('g, 'v, 'n, 'n4, 'n6) dns_env \<Rightarrow> 'n dns_event list \<Rightarrow> string \<Rightarrow> IpAddress \<Rightarrow> bool" where
  "trusted_source D log name ip \<longleftrightarrow>
     (if is_host_gateway_alias name then de_trusted_host_gateway D = Some ip
      else \<exists>q\<in>set log. NormalizedName_parse (de_names D) (dq_name q) = Some name \<and> server_gave D q name ip)"

lemma trusted_answer_addresses: "ip \<in> set (ta_addresses (trusted_answer records ttl)) \<Longrightarrow> ip \<in> fst ` set records"
  by (auto simp: trusted_answer_def retain_first_addresses_def dest: in_set_takeD)

lemma trusted_answer_source:
  assumes "trusted_answer_for D (env_resolver D (dq_network q)) name (dq_family q) = Inr answer" and "ip \<in> set (ta_addresses answer)"
    and "q \<in> set log" and "NormalizedName_parse (de_names D) (dq_name q) = Some name"
  shows "trusted_source D log name ip"
proof (cases "is_host_gateway_alias name")
  case True
  then show ?thesis using assms
    by (auto simp: trusted_answer_for_def trusted_source_def split: option.splits if_splits)
next
  case False
  then have "resolve (de_names D) (de_wire D) (dq_network q (de_server D)) name (dq_family q) = Some (Inr answer)"
    using assms(1) by (simp add: trusted_answer_for_def socket_resolver_Inr)
  from resolve_chain [OF this] have "server_gave D q name ip"
    unfolding server_gave_def using trusted_answer_addresses assms(2) by metis
  then show ?thesis using False assms(3,4) unfolding trusted_source_def by auto
qed

lemma authorized_request_permits:
  assumes "authorized_request D (env_resolver D (dq_network q)) engine request"
    and "c \<in> set (pr_contracts request)" "rc_endpoint_id c \<in> set ids" "ip \<in> set (rc_pinned_addresses c)"
    and "q \<in> set log" "NormalizedName_parse (de_names D) (dq_name q) = Some (pr_normalized_name request)" "pr_family request = dq_family q"
  shows "policy_permits D engine (pr_normalized_name request) (rc_port c) ids ip
    \<and> trusted_source D log (pr_normalized_name request) ip"
proof -
  let ?name = "pr_normalized_name request"
  from assms(1) obtain snapshot eligible answer where s: "policy_dns_eligibility_snapshot (de_rego D) (de_eval D) engine = Inr snapshot"
    and e: "eligible_endpoints D (es_endpoints snapshot) ?name = Inr eligible"
    and a: "trusted_answer_for D (env_resolver D (dq_network q)) ?name (dq_family q) = Inr answer"
    and c: "pr_contracts request = query_contracts (de_cidr D) ?name (ta_addresses answer) eligible"
    unfolding authorized_request_def assms(7) by blast
  from assms(2) obtain x where x: "x \<in> set eligible" "rc_port c \<in> set (ee_ports x)" "rc_endpoint_id c = ee_endpoint_id x"
    and f: "filter_resolved_addresses (de_cidr D) (ee_destination_plan x) ?name (rc_port c) (ta_addresses answer)
      = Inr (rc_pinned_addresses c)"
    unfolding c query_contracts_iff by blast
  from f assms(4) have ip: "address_permitted (de_cidr D) (ee_destination_plan x) (rc_port c) ip" "ip \<in> set (ta_addresses answer)"
    unfolding filter_resolved_addresses_iff by auto
  from x(1) eligible_endpoints_set [OF e] obtain y where "y \<in> set (es_endpoints snapshot)" "eligible_endpoint D ?name y = Inr (Some x)"
    by blast
  then have "policy_permits D engine ?name (rc_port c) ids ip"
    unfolding policy_permits_def using s x ip(1) assms(3) by metis
  with trusted_answer_source [OF a ip(2) assms(5,6)] show ?thesis by blast
qed

lemma mapping_justified:
  assumes "pools_ok C" and "dns_run D C log tr" and "lookup (sy_store (hd tr)) a port generation now = Inr m"
    and "pinned_addresses_for m ids = Inr ips" and "ip \<in> set ips"
  shows "\<exists>s\<in>set tr. oe_generation (sy_engine s) = generation
    \<and> policy_permits D (sy_engine s) (rr_normalized_name (ml_record m)) port ids ip
    \<and> trusted_source D log (rr_normalized_name (ml_record m)) ip"
proof -
  note look = lookup_record [OF assms(3)]
  from dns_run_store [OF assms(2)] obtain ops where ops: "sy_store (hd tr) = store_run C ops" "list_all (justified_in D log tr) ops"
    by blast
  from look(1) obtain op where op: "op \<in> set ops" "publishes op (ml_record m)"
    using run_record_published [OF assms(1)] unfolding ops(1) by blast
  obtain c where c: "c \<in> set (rr_contracts (ml_record m))" "rc_port c = port" "rc_endpoint_id c \<in> set ids" "ip \<in> set (rc_pinned_addresses c)"
    using pinned_addresses_contract [OF assms(4,5)] unfolding look(2) by blast
  show ?thesis
  proof (cases op)
    case (Publish request current t uuid)
    with op(1) ops(2) obtain s q where s: "s \<in> set tr" "q \<in> set log"
      "NormalizedName_parse (de_names D) (dq_name q) = Some (pr_normalized_name request)" "pr_family request = dq_family q"
      and r: "authorized_request D (env_resolver D (dq_network q)) (sy_engine s) request" and "current = oe_generation (sy_engine s)"
      by (auto simp: list_all_iff justified_in_def)
    moreover from Publish op(2) look(4) this have "oe_generation (sy_engine s) = generation"
      and "rr_contracts (ml_record m) = pr_contracts request" "rr_normalized_name (ml_record m) = pr_normalized_name request" by auto
    ultimately show ?thesis using authorized_request_permits [OF r _ c(3,4) s(2-4)] c(1,2) by auto
  qed (use op(2) c(1) in auto)
qed

section \<open>A small system\<close>

text \<open>Values, names and messages with one endpoint \<open>db.example\<close> at port 5432 and one answer, used to run the
  definitions.\<close>

datatype sample_value = SObject "(string \<times> sample_value) list" | SString string | SArray "sample_value list" | SNumber int

definition sample_rego :: "sample_value rego_lib" where
  "sample_rego =
     \<lparr>rv_field = (\<lambda>v key. case v of SObject fs \<Rightarrow> map_of fs key | _ \<Rightarrow> None),
      rv_string = (\<lambda>v. case v of SString s \<Rightarrow> Some s | _ \<Rightarrow> None),
      rv_array = (\<lambda>v. case v of SArray vs \<Rightarrow> Some vs | _ \<Rightarrow> None),
      rv_i64 = (\<lambda>v. case v of SNumber n \<Rightarrow> Some n | _ \<Rightarrow> None),
      rv_bool = (\<lambda>_. None), rv_is_undefined = (\<lambda>_. False), rv_to_string = (\<lambda>_. ''endpoint'')\<rparr>"

definition sample_endpoint :: sample_value where
  "sample_endpoint = SObject [(''policy_name'', SString ''database''), (''endpoint_index'', SNumber 0),
     (''endpoint'', SObject [(''host'', SString ''db.example''), (''ports'', SArray [SNumber 5432])])]"

definition sample_eval :: "(unit, sample_value) rego_eval" where
  "sample_eval g rule = Inr
     (if rule = ''data.openshell.sandbox.egress_authorization''
      then SObject [(''action'', SString ''allow''), (''matched_policy'', SString ''database''),
                    (''matched_endpoints'', SArray [sample_endpoint])]
      else SArray [sample_endpoint])"

definition sample_names :: "string name_lib" where
  "sample_names = \<lparr>nl_from_ascii = Some, nl_to_ascii = (\<lambda>s. s), nl_is_root = (\<lambda>s. s = ''.'')\<rparr>"

definition sample_message :: "string Message" where
  "sample_message =
     (query_message 0 \<lparr>q_name = ''db.example.'', q_type = A, q_class = IN\<rparr>)\<lparr>msg_type := Response,
        msg_answers := [\<lparr>dr_name = ''db.example.'', dr_ttl = 20, dr_data = RData_A (v4_new 93 184 216 34)\<rparr>]\<rparr>"

definition sample_server :: "IpAddress \<times> nat" where
  "sample_server = (Ip4 (v4_new 10 0 0 53), 53)"

definition sample_dns_env :: "(unit, sample_value, string, Ipv4Addr \<times> nat, Ipv6Addr \<times> nat) dns_env" where
  "sample_dns_env =
     \<lparr>de_rego = sample_rego, de_eval = sample_eval, de_glob = star_glob, de_cidr = pair_cidr, de_names = sample_names,
      de_wire = \<lparr>wl_from_vec = (\<lambda>_. Some sample_message), wl_to_vec = (\<lambda>_. Some ''q''), wl_query_eq = (=)\<rparr>,
      de_server = sample_server, de_sha256 = (\<lambda>s. s), de_trusted_host_gateway = None\<rparr>"

text \<open>Only the configured server answers.\<close>

definition sample_net :: "string network" where
  "sample_net server name = \<lparr>net_id = 0, net_udp = (\<lambda>_. if server = sample_server then Inr ''r'' else Inl Timeout),
     net_tcp_connect = Inr (), net_tcp_write = (\<lambda>_ _. Inr ()), net_tcp_read_u16 = Inr 0, net_tcp_read_exact = (\<lambda>_. Inr [])\<rparr>"

end
