(* ===== verification/Dns_Runtime.thy ===== *)
theory Dns_Runtime
  imports Dns_Service
begin

text \<open>
  The outer layers of policy DNS: the address pools of a supervisor epoch (\<open>policy_dns/runtime.rs\<close>) and the
  handling of requests as datagrams and TCP frames (\<open>policy_dns/wire.rs\<close>). The lemmas show that the pools
  of every epoch satisfy what the store needs, and what a sandbox can learn from a response.
\<close>

section \<open>Definitions\<close>

subsection \<open>Pools\<close>

definition IPV4_POOL_PREFIX :: nat where "IPV4_POOL_PREFIX = 23"
definition IPV6_POOL_PREFIX :: nat where "IPV6_POOL_PREFIX = 119"
definition IPV4_EPOCH_WINDOWS :: nat where "IPV4_EPOCH_WINDOWS = 2 ^ (IPV4_POOL_PREFIX - 15)"
definition MAX_MAPPINGS :: nat where "MAX_MAPPINGS = 1024"

record ('n4, 'n6) PolicyDnsRuntimeConfig =
  rt_ipv4_cidr :: 'n4
  rt_ipv6_cidr :: 'n6
  rt_pools :: SyntheticPools

text \<open>The parents are the networks of the literals \<open>198.18.0.0/15\<close> and \<open>fd23:6f70:656e::/48\<close>. The offset of the
  IPv4 window is below \<open>2 ^ 17\<close>, so its conversion to 32 bits cannot fail.\<close>

definition for_epoch :: "('n4, 'n6) cidr_lib \<Rightarrow> nat \<Rightarrow> StoreConfigError + ('n4, 'n6) PolicyDnsRuntimeConfig" where
  "for_epoch L epoch =
     (let ipv4_parent = n4_new (cl_net L) (v4_new 198 18 0 0) 15;
          ipv4_window = epoch mod IPV4_EPOCH_WINDOWS;
          ipv4_start = n4_network (cl_net L) ipv4_parent + word_of_nat (ipv4_window * 2 ^ (32 - IPV4_POOL_PREFIX));
          ipv4_cidr = n4_new (cl_net L) ipv4_start IPV4_POOL_PREFIX;
          ipv6_parent = n6_new (cl_net L) 0xfd236f70656e00000000000000000000 48;
          ipv6_window = word_of_nat epoch;
          ipv6_start = n6_network (cl_net L) ipv6_parent + push_bit (128 - IPV6_POOL_PREFIX) ipv6_window;
          ipv6_cidr = n6_new (cl_net L) ipv6_start IPV6_POOL_PREFIX;
          ipv4_pool_start =
            (if cl_contains L (Net4 ipv4_cidr) (Ip4 POLICY_LOCAL_ADDRESS) then POLICY_LOCAL_ADDRESS + 1
             else n4_network (cl_net L) ipv4_cidr)
      in bindE (SyntheticPools_new ipv4_pool_start (n4_broadcast (cl_net L) ipv4_cidr)
                  (n6_network (cl_net L) ipv6_cidr) (n6_broadcast (cl_net L) ipv6_cidr))
           (\<lambda>pools. Inr \<lparr>rt_ipv4_cidr = ipv4_cidr, rt_ipv6_cidr = ipv6_cidr, rt_pools = pools\<rparr>))"

text \<open>The store that both ways of starting the runtime build.\<close>

definition runtime_store_config :: "('n4, 'n6) PolicyDnsRuntimeConfig \<Rightarrow> StoreConfigError + StoreConfig" where
  "runtime_store_config config = StoreConfig_new (rt_pools config) MAX_MAPPINGS"

subsection \<open>Requests and responses\<close>

text \<open>\<open>Message::response\<close> and \<open>Message::error_msg\<close> of \<open>hickory\<close>.\<close>

record 'n reply_lib =
  rl_response :: "nat \<Rightarrow> OpCode \<Rightarrow> 'n Message"
  rl_error_msg :: "nat \<Rightarrow> OpCode \<Rightarrow> ResponseCode \<Rightarrow> 'n Message"

datatype WireError = Encode | InvalidTcpFrame

definition validate_request :: "'n Message \<Rightarrow> ('n dns_query \<times> AddressFamily) option" where
  "validate_request request =
     (if msg_type request \<noteq> Query \<or> msg_op_code request \<noteq> OpQuery \<or> length (msg_queries request) \<noteq> 1 then None
      else let query = hd (msg_queries request)
           in if q_class query \<noteq> IN then None
              else (case q_type query of
                      A \<Rightarrow> Some (query, Ipv4)
                    | AAAA \<Rightarrow> Some (query, Ipv6)
                    | _ \<Rightarrow> None))"

definition response_with_code :: "'n reply_lib \<Rightarrow> 'n Message \<Rightarrow> ResponseCode \<Rightarrow> 'n Message" where
  "response_with_code P request code =
     (rl_response P (msg_id request) (msg_op_code request))
       \<lparr>msg_recursion_desired := msg_recursion_desired request, msg_recursion_available := True,
        msg_response_code := code, msg_queries := msg_queries request\<rparr>"

definition encode_message :: "'n wire_lib \<Rightarrow> 'n Message \<Rightarrow> WireError + string" where
  "encode_message W m = (case wl_to_vec W m of None \<Rightarrow> Inl Encode | Some wire \<Rightarrow> Inr wire)"

definition u16_from_be :: "string \<Rightarrow> nat option" where
  "u16_from_be bytes = (case bytes of a # b # _ \<Rightarrow> Some (of_char a * 256 + of_char b) | _ \<Rightarrow> None)"

definition u16_to_be :: "nat \<Rightarrow> string" where
  "u16_to_be n = [char_of (n div 256), char_of (n mod 256)]"

definition answer_rdata :: "AddressFamily \<Rightarrow> IpAddress \<Rightarrow> 'n RData option" where
  "answer_rdata family address =
     (case (address, family) of
        (Ip4 a, Ipv4) \<Rightarrow> Some (RData_A a)
      | (Ip6 a, Ipv6) \<Rightarrow> Some (RData_AAAA a)
      | _ \<Rightarrow> None)"

definition error_code :: "PolicyDnsError \<Rightarrow> ResponseCode" where
  "error_code e =
     (case e of
        Ineligible \<Rightarrow> Refused
      | TrustedGatewayUnavailable \<Rightarrow> Refused
      | ResolverError NxDomain \<Rightarrow> NXDomain
      | ResolverError NoData \<Rightarrow> NoError
      | InvalidName \<Rightarrow> FormErr
      | _ \<Rightarrow> ServFail)"

definition answer_message ::
  "'n reply_lib \<Rightarrow> 'n Message \<Rightarrow> 'n dns_query \<Rightarrow> AddressFamily \<Rightarrow> PolicyDnsError + SyntheticAnswer \<Rightarrow> 'n Message" where
  "answer_message P request query family r =
     (case r of
        Inr answer \<Rightarrow>
          (case answer_rdata family (sa_address answer) of
             None \<Rightarrow> response_with_code P request ServFail
           | Some rdata \<Rightarrow>
               let response = response_with_code P request NoError
               in response\<lparr>msg_answers := msg_answers response @
                    [\<lparr>dr_name = q_name query, dr_ttl = min (sa_ttl answer div 10 ^ 9) (2 ^ 32 - 1), dr_data = rdata\<rparr>]\<rparr>)
      | Inl e \<Rightarrow> response_with_code P request (error_code e))"

text \<open>As for \<open>answer_query\<close>, the policy is \<open>engine\<close> when the request arrives and \<open>engine'\<close> when it is answered.\<close>

definition handle_udp_query_with_ipv6 ::
  "('g, 'v, 'n, 'n4, 'n6) dns_env \<Rightarrow> 'n reply_lib \<Rightarrow> StoreConfig \<Rightarrow> trusted_resolver_fn \<Rightarrow> 'g OpaEngine \<Rightarrow> 'g OpaEngine
   \<Rightarrow> string \<Rightarrow> bool \<Rightarrow> nat \<Rightarrow> nat \<Rightarrow> ('n4, 'n6) AddressAuthorization StoreState
   \<Rightarrow> (WireError + string) \<times> ('n4, 'n6) AddressAuthorization StoreState" where
  "handle_udp_query_with_ipv6 D P C resolver engine engine' wire ipv6_egress now uuid st =
     (let fallback_id = (case u16_from_be wire of None \<Rightarrow> 0 | Some qid \<Rightarrow> qid);
          encode = encode_message (de_wire D)
      in if length wire > MAX_DNS_MESSAGE_BYTES then (encode (rl_error_msg P fallback_id OpQuery FormErr), st)
         else case wl_from_vec (de_wire D) wire of
                None \<Rightarrow> (encode (rl_error_msg P fallback_id OpQuery FormErr), st)
              | Some request \<Rightarrow>
                  (case validate_request request of
                     None \<Rightarrow>
                       (encode (response_with_code P request
                          (if msg_type request \<noteq> Query \<or> msg_op_code request \<noteq> OpQuery \<or> length (msg_queries request) \<noteq> 1
                           then FormErr else NotImp)), st)
                   | Some (query, family) \<Rightarrow>
                       if family = Ipv6 \<and> \<not> ipv6_egress then (encode (response_with_code P request NoError), st)
                       else (case answer_query D C resolver engine engine' (nl_to_ascii (de_names D) (q_name query))
                                    family now uuid st of
                               (r, st') \<Rightarrow> (encode (answer_message P request query family r), st'))))"

definition handle_tcp_query_with_ipv6 ::
  "('g, 'v, 'n, 'n4, 'n6) dns_env \<Rightarrow> 'n reply_lib \<Rightarrow> StoreConfig \<Rightarrow> trusted_resolver_fn \<Rightarrow> 'g OpaEngine \<Rightarrow> 'g OpaEngine
   \<Rightarrow> string \<Rightarrow> bool \<Rightarrow> nat \<Rightarrow> nat \<Rightarrow> ('n4, 'n6) AddressAuthorization StoreState
   \<Rightarrow> (WireError + string) \<times> ('n4, 'n6) AddressAuthorization StoreState" where
  "handle_tcp_query_with_ipv6 D P C resolver engine engine' frame ipv6_egress now uuid st =
     (case u16_from_be frame of
        None \<Rightarrow> (Inl InvalidTcpFrame, st)
      | Some declared \<Rightarrow>
          if declared > MAX_DNS_MESSAGE_BYTES \<or> length frame \<noteq> declared + 2 then (Inl InvalidTcpFrame, st)
          else (case handle_udp_query_with_ipv6 D P C resolver engine engine' (drop 2 frame) ipv6_egress now uuid st of
                  (Inl e, st') \<Rightarrow> (Inl e, st')
                | (Inr response, st') \<Rightarrow>
                    if length response > 2 ^ 16 - 1 then (Inl Encode, st')
                    else (Inr (u16_to_be (length response) @ response), st')))"

section \<open>Lemmas\<close>

subsection \<open>Pools\<close>

text \<open>Membership of \<open>ipnet\<close> is membership in the range of the network.\<close>

definition cidr_net_ok :: "('n4, 'n6) cidr_lib \<Rightarrow> bool" where
  "cidr_net_ok L = (ipnet_ok (cl_net L) \<and> (\<forall>net ip. cl_contains L net ip \<longleftrightarrow> net_member (cl_net L) net ip))"

lemma pair_cidr_net_ok: "cidr_net_ok pair_cidr"
  by (simp add: cidr_net_ok_def pair_cidr_def pair_net_ok)

lemma epoch_net4:
  assumes "ipnet_ok N" and "w < 256"
  defines "n \<equiv> n4_new N (n4_network N (n4_new N (v4_new 198 18 0 0) 15) + word_of_nat (w * 512)) 23"
  shows "unat (n4_network N n) = 3323068416 + w * 512" "unat (n4_broadcast N n) = 3323068416 + w * 512 + 511"
proof -
  have p: "unat (n4_network N (n4_new N (v4_new 198 18 0 0) 15)) = 3323068416"
    using assms(1) by (simp add: ipnet_ok_def unat_v4_new)
  have s: "unat (n4_network N (n4_new N (v4_new 198 18 0 0) 15) + word_of_nat (w * 512)) = 3323068416 + w * 512"
    using assms(2) unfolding unat_word_ariths p unat_of_nat by simp
  have "n4_prefix_len N n = 23" "unat (n4_network N n) = (3323068416 + w * 512) div 2 ^ 9 * 2 ^ 9"
    using assms(1) unfolding n_def s [symmetric] ipnet_ok_def by auto
  moreover have "unat (n4_broadcast N n) = unat (n4_network N n) + (2 ^ (32 - n4_prefix_len N n) - 1)"
    using assms(1) unfolding ipnet_ok_def by blast
  ultimately show "unat (n4_network N n) = 3323068416 + w * 512" "unat (n4_broadcast N n) = 3323068416 + w * 512 + 511"
    by auto
qed

lemma epoch_net6:
  assumes "ipnet_ok N" and "epoch < 2 ^ 64"
  defines "n \<equiv> n6_new N (n6_network N (n6_new N 0xfd236f70656e00000000000000000000 48) + push_bit 9 (word_of_nat epoch)) 119"
  shows "unat (n6_network N n) = 0xfd236f70656e00000000000000000000 + epoch * 512"
    "unat (n6_broadcast N n) = 0xfd236f70656e00000000000000000000 + epoch * 512 + 511"
proof -
  have p: "unat (n6_network N (n6_new N 0xfd236f70656e00000000000000000000 48)) = 0xfd236f70656e00000000000000000000"
    using assms(1) by (simp add: ipnet_ok_def)
  have w: "push_bit 9 (word_of_nat epoch) = (word_of_nat (epoch * 512) :: 128 word)"
    by (simp add: push_bit_eq_mult mult.commute)
  have s: "unat (n6_network N (n6_new N 0xfd236f70656e00000000000000000000 48) + push_bit 9 (word_of_nat epoch))
      = 0xfd236f70656e00000000000000000000 + epoch * 512"
    using assms(2) unfolding w unat_word_ariths p unat_of_nat by simp
  have "unat (n6_network N n) = (0xfd236f70656e00000000000000000000 + epoch * 512) div 2 ^ 9 * 2 ^ 9"
    "unat (n6_broadcast N n) = unat (n6_network N n) + (2 ^ 9 - 1)"
    using assms(1) unfolding n_def s [symmetric] ipnet_ok_def by auto
  then show "unat (n6_network N n) = 0xfd236f70656e00000000000000000000 + epoch * 512"
    "unat (n6_broadcast N n) = 0xfd236f70656e00000000000000000000 + epoch * 512 + 511"
    by simp_all
qed

text \<open>The range of addresses of an epoch, as numbers.\<close>

definition epoch_start :: "AddressFamily \<Rightarrow> nat \<Rightarrow> nat" where
  "epoch_start f epoch =
     (case f of Ipv4 \<Rightarrow> 3323068416 + epoch mod 256 * 512 | Ipv6 \<Rightarrow> 0xfd236f70656e00000000000000000000 + epoch * 512)"

lemma unat_policy_local: "unat POLICY_LOCAL_ADDRESS = 3323068417" "unat (POLICY_LOCAL_ADDRESS + 1) = 3323068418"
  by (simp_all add: POLICY_LOCAL_ADDRESS_def v4_new_def)

lemma unblocked4: "198 * 2 ^ 24 \<le> unat a \<Longrightarrow> unat a < 199 * 2 ^ 24 \<Longrightarrow> \<not> is_always_blocked_ip (Ip4 a)"
  unfolding always_blocked4 in_blocks_def hard_blocks4_def by auto

lemma unblocked6: "0xfd * 2 ^ 120 \<le> unat a \<Longrightarrow> unat a < 0xfe * 2 ^ 120 \<Longrightarrow> \<not> is_always_blocked_ip (Ip6 a)"
  unfolding always_blocked6 in_blocks_def hard_blocks6_def mapped_blocks_def hard_blocks4_def by auto

lemma for_epoch_pools:
  assumes "cidr_net_ok L" and "epoch < 2 ^ 64"
  obtains config C where "for_epoch L epoch = Inr config" and "runtime_store_config config = Inr C"
    and "sc_max_mappings C = 1024"
    and "fam_first C Ipv4 = epoch_start Ipv4 epoch + (if epoch mod 256 = 0 then 2 else 0)"
    and "fam_last C Ipv4 = epoch_start Ipv4 epoch + 511"
    and "fam_first C Ipv6 = epoch_start Ipv6 epoch" and "fam_last C Ipv6 = epoch_start Ipv6 epoch + 511"
proof -
  let ?N = "cl_net L"
  define w where "w = epoch mod 256"
  then have w: "w < 256" by simp
  from assms(1) have N: "ipnet_ok ?N" and c: "\<And>net ip. cl_contains L net ip \<longleftrightarrow> net_member ?N net ip"
    by (auto simp: cidr_net_ok_def)
  define n4 where "n4 = n4_new ?N (n4_network ?N (n4_new ?N (v4_new 198 18 0 0) 15) + word_of_nat (w * 512)) 23"
  define n6 where "n6 = n6_new ?N (n6_network ?N (n6_new ?N 0xfd236f70656e00000000000000000000 48) + push_bit 9 (word_of_nat epoch)) 119"
  note v4 = epoch_net4 [OF N w, folded n4_def] and v6 = epoch_net6 [OF N assms(2), folded n6_def]
  have local: "cl_contains L (Net4 n4) (Ip4 POLICY_LOCAL_ADDRESS) \<longleftrightarrow> w = 0"
    by (auto simp: c net_member_def word_le_nat_alt v4 unat_policy_local)
  define start where "start = (if cl_contains L (Net4 n4) (Ip4 POLICY_LOCAL_ADDRESS) then POLICY_LOCAL_ADDRESS + 1 else n4_network ?N n4)"
  have s: "unat start = 3323068416 + w * 512 + (if w = 0 then 2 else 0)"
    by (simp add: start_def local v4 unat_policy_local)
  define pools where "pools = \<lparr>sp_start4 = start, sp_end4 = n4_broadcast ?N n4, sp_start6 = n6_network ?N n6, sp_end6 = n6_broadcast ?N n6\<rparr>"
  have "\<not> is_always_blocked_ip (Ip4 start)" "\<not> is_always_blocked_ip (Ip4 (n4_broadcast ?N n4))"
    by (rule unblocked4; use w in \<open>simp add: s v4\<close>)+
  moreover have "\<not> is_always_blocked_ip (Ip6 (n6_network ?N n6))" "\<not> is_always_blocked_ip (Ip6 (n6_broadcast ?N n6))"
    by (rule unblocked6; use assms(2) in \<open>simp add: v6\<close>)+
  moreover have "start \<le> n4_broadcast ?N n4" "n6_network ?N n6 \<le> n6_broadcast ?N n6"
    by (simp_all add: word_le_nat_alt s v4 v6)
  ultimately have "SyntheticPools_new start (n4_broadcast ?N n4) (n6_network ?N n6) (n6_broadcast ?N n6) = Inr pools"
    by (simp add: SyntheticPools_new_def pools_def linorder_not_less)
  moreover have "for_epoch L epoch = bindE (SyntheticPools_new start (n4_broadcast ?N n4) (n6_network ?N n6) (n6_broadcast ?N n6))
      (\<lambda>pools. Inr \<lparr>rt_ipv4_cidr = n4, rt_ipv6_cidr = n6, rt_pools = pools\<rparr>)"
    unfolding for_epoch_def Let_def IPV4_POOL_PREFIX_def IPV6_POOL_PREFIX_def IPV4_EPOCH_WINDOWS_def start_def n4_def n6_def w_def
    by (simp del: of_nat_mult)
  ultimately have f: "for_epoch L epoch = Inr \<lparr>rt_ipv4_cidr = n4, rt_ipv6_cidr = n6, rt_pools = pools\<rparr>"
    by simp
  define C where "C = \<lparr>sc_pools = pools, sc_max_mappings = 1024\<rparr>"
  show thesis
    by (rule that [OF f, of C]) (simp_all add: runtime_store_config_def StoreConfig_new_def MAX_MAPPINGS_def fam_first_def fam_last_def
        epoch_start_def C_def pools_def w_def [symmetric] s v4 v6)
qed

lemma epoch_pools_ok:
  assumes "cidr_net_ok L" and "epoch < 2 ^ 64" and "for_epoch L epoch = Inr config" and "runtime_store_config config = Inr C"
  shows "pools_ok C"
proof (rule for_epoch_pools [OF assms(1,2)])
  fix config' C'
  assume *: "for_epoch L epoch = Inr config'" "runtime_store_config config' = Inr C'"
    "fam_first C' Ipv4 = epoch_start Ipv4 epoch + (if epoch mod 256 = 0 then 2 else 0)"
    "fam_last C' Ipv4 = epoch_start Ipv4 epoch + 511"
    "fam_first C' Ipv6 = epoch_start Ipv6 epoch" "fam_last C' Ipv6 = epoch_start Ipv6 epoch + 511"
  from *(1,2) assms(3,4) have C: "C' = C" by simp
  define w where "w = epoch mod 256"
  then have "w < 256" by simp
  then have "fam_first C f \<le> fam_last C f \<and> fam_last C f < fam_max f" for f
    using *(3-6) assms(2) by (cases f) (auto simp: C epoch_start_def fam_max_def w_def [symmetric])
  then show ?thesis by (simp add: pools_ok_def)
qed

text \<open>What the store configuration of an epoch is.\<close>

definition epoch_config :: "('n4, 'n6) cidr_lib \<Rightarrow> nat \<Rightarrow> StoreConfig \<Rightarrow> bool" where
  "epoch_config L epoch C \<longleftrightarrow> (\<exists>config. for_epoch L epoch = Inr config \<and> runtime_store_config config = Inr C)"

lemma epoch_range:
  assumes "cidr_net_ok L" and "epoch < 2 ^ 64" and "epoch_config L epoch C" and "n \<in> {fam_first C f..fam_last C f}"
  shows "epoch_start f epoch \<le> n \<and> n \<le> epoch_start f epoch + 511"
    and "\<not> is_always_blocked_ip (fam_addr f n)" and "fam_addr f n \<noteq> Ip4 POLICY_LOCAL_ADDRESS"
proof -
  from for_epoch_pools [OF assms(1,2)] assms(3) have C:
    "fam_first C Ipv4 = epoch_start Ipv4 epoch + (if epoch mod 256 = 0 then 2 else 0)"
    "fam_last C Ipv4 = epoch_start Ipv4 epoch + 511"
    "fam_first C Ipv6 = epoch_start Ipv6 epoch" "fam_last C Ipv6 = epoch_start Ipv6 epoch + 511"
    unfolding epoch_config_def by (metis sum.inject(2))+
  show n: "epoch_start f epoch \<le> n \<and> n \<le> epoch_start f epoch + 511"
    using assms(4) C by (cases f) (auto split: if_splits)
  define w where "w = epoch mod 256"
  then have w: "w < 256" by simp
  have u: "unat (word_of_nat n :: 32 word) = n" if "f = Ipv4"
    using n w that by (simp add: unat_of_nat epoch_start_def w_def [symmetric])
  have v: "unat (word_of_nat n :: 128 word) = n" if "f = Ipv6"
    using n assms(2) that by (simp add: unat_of_nat epoch_start_def)
  show "\<not> is_always_blocked_ip (fam_addr f n)"
    using n w assms(2) u v unblocked4 [of "word_of_nat n"] unblocked6 [of "word_of_nat n"]
    by (cases f) (simp_all add: fam_addr_def epoch_start_def w_def [symmetric])
  have "n \<noteq> 3323068417" if "f = Ipv4"
    using assms(4) w that by (auto simp: C epoch_start_def w_def [symmetric] split: if_splits)
  then show "fam_addr f n \<noteq> Ip4 POLICY_LOCAL_ADDRESS"
    using u by (cases f) (auto simp: fam_addr_def word_unat_eq_iff unat_policy_local)
qed

lemma windows_disjoint:
  "(a :: nat) \<noteq> b \<Longrightarrow> c + a * 512 \<le> n \<Longrightarrow> n \<le> c + a * 512 + 511 \<Longrightarrow> c + b * 512 \<le> n \<Longrightarrow> n \<le> c + b * 512 + 511 \<Longrightarrow> False"
  by (cases "a < b") auto

subsection \<open>Answers\<close>

lemma publish_checked_answer:
  assumes "publish_checked C key generation ttl contracts now uuid st = (Inr rec, st')"
  shows "fmlookup (ss_records st') (rr_synthetic_address rec) = Some rec" "rr_normalized_name rec = ak_normalized_name key"
    "rr_family rec = ak_family key" "rr_expires_at rec = now + ttl"
  using assms by (auto simp: publish_checked_def store_record_def Let_def split: prod.splits sum.splits if_splits)

lemma publish_guarded_Inr:
  "publish_guarded engine generation f st = (Inr rec, st') \<Longrightarrow> f generation = (Inr rec, st')"
  by (auto simp: publish_guarded_def with_current_generation_def split: option.splits prod.splits sum.splits if_splits)

text \<open>A positive answer is the address of the local policy API, or an address with a record for the
  name, valid as long as the answer.\<close>

lemma answer_query_Inr:
  assumes "answer_query D C resolver engine engine' raw family now uuid st = (Inr a, st')"
  obtains name where "NormalizedName_parse (de_names D) raw = Some name"
    and "sa_ttl a \<le> MAX_MAPPING_TTL"
    and "if name = POLICY_LOCAL_HOST then sa_address a = Ip4 POLICY_LOCAL_ADDRESS \<and> st' = st
         else \<exists>rec. fmlookup (ss_records st') (sa_address a) = Some rec \<and> rr_normalized_name rec = name
           \<and> rr_family rec = family \<and> rr_expires_at rec = now + sa_ttl a"
proof -
  from assms obtain name where n: "NormalizedName_parse (de_names D) raw = Some name"
    by (auto simp: answer_query_def split: option.splits)
  show thesis
  proof (cases "name = POLICY_LOCAL_HOST")
    case True
    then show thesis using assms n by (intro that [OF n]) (auto simp: answer_query_def split: if_splits)
  next
    case noloc: False
    from assms n noloc obtain snapshot eligible where
      s: "policy_dns_eligibility_snapshot (de_rego D) (de_eval D) engine = Inr snapshot"
      and e: "eligible_endpoints D (es_endpoints snapshot) name = Inr eligible"
      and gw: "\<not> (is_host_gateway_alias name \<and> de_trusted_host_gateway D = None)"
      by (auto simp: answer_query_def split: if_splits sum.splits)
    note base = assms [unfolded answer_query_def n option.case if_not_P [OF noloc] if_not_P [OF gw] s e sum.case]
    have "\<exists>rec ttl. a = synthetic_answer ttl rec \<and> ttl \<le> MAX_MAPPING_TTL \<and> rr_normalized_name rec = name \<and> rr_family rec = family
        \<and> fmlookup (ss_records st') (rr_synthetic_address rec) = Some rec \<and> rr_expires_at rec = now + ttl"
    proof (cases "eligible = []")
      case True
      with base have "stage_observation C engine' name family (es_generation snapshot) now uuid st = (Inr a, st')"
        by (auto split: if_splits)
      then obtain rec where "publish_guarded engine' (es_generation snapshot)
          (\<lambda>g. publish_observation C name family (es_generation snapshot) g now uuid st) st = (Inr rec, st')"
        and a: "a = synthetic_answer MAX_MAPPING_TTL rec"
        by (auto simp: stage_observation_def split: prod.splits sum.splits PolicyDnsError.splits PublishError.splits)
      from publish_guarded_Inr [OF this(1)] have
        "publish_checked C (observation_key name family) (es_generation snapshot) MAX_MAPPING_TTL [] now uuid st = (Inr rec, st')"
        by (simp add: publish_observation_def)
      from publish_checked_answer [OF this] a show ?thesis by (auto simp: observation_key_def)
    next
      case ne: False
      with base obtain answer where t: "trusted_answer_for D resolver name family = Inr answer"
        by (auto split: sum.splits)
      define ttl where "ttl = clamp_mapping_ttl (ta_ttl answer)"
      define request where "request = \<lparr>pr_normalized_name = name, pr_family = family,
        pr_allocation_identity = allocation_identity (de_sha256 D) eligible, pr_policy_generation = es_generation snapshot,
        pr_ttl = ttl, pr_contracts = query_contracts (de_cidr D) name (ta_addresses answer) eligible\<rparr>"
      from base ne obtain rec where "publish_guarded engine' (es_generation snapshot) (\<lambda>g. publish C request g now uuid st) st = (Inr rec, st')"
        and a: "a = synthetic_answer ttl rec"
        by (auto simp: t Let_def ttl_def [symmetric] request_def [symmetric] split: if_splits prod.splits sum.splits)
      from publish_guarded_Inr [OF this(1)] have
        "publish_checked C (request_key request) (es_generation snapshot) ttl (pr_contracts request) now uuid st = (Inr rec, st')"
        by (auto simp: publish_def request_def split: if_splits)
      from publish_checked_answer [OF this] a clamp_mapping_ttl_range [of "ta_ttl answer"] show ?thesis
        by (auto simp: request_key_def request_def ttl_def)
    qed
    then show thesis using noloc by (intro that [OF n]) (auto simp: synthetic_answer_def)
  qed
qed

text \<open>The address of a record lies in the pool of its family.\<close>

lemma record_in_pool:
  assumes "store_inv C st" and "fmlookup (ss_records st) a = Some rec"
  obtains n where "fam_first C (rr_family rec) \<le> n" "n \<le> fam_last C (rr_family rec)" "a = fam_addr (rr_family rec) n"
proof -
  from assms obtain k where k: "fmlookup (ss_allocations st) k = Some a" "ak_family k = rr_family rec"
    unfolding store_inv_def record_inv_def by blast
  with assms(1) obtain n where n: "fam_first C (rr_family rec) \<le> n" "n < fam_next st (rr_family rec)" "a = fam_addr (rr_family rec) n"
    by (metis inv_alloc_cases)
  moreover have "fam_next st (rr_family rec) \<le> Suc (fam_last C (rr_family rec))"
    using assms(1) unfolding store_inv_def cursor_inv_def by blast
  ultimately show thesis by (intro that [of n]) simp_all
qed

text \<open>The two constructors of \<open>hickory\<close> return messages without answers.\<close>

definition reply_ok :: "'n reply_lib \<Rightarrow> bool" where
  "reply_ok P = ((\<forall>qid op. msg_answers (rl_response P qid op) = []) \<and> (\<forall>qid op code. msg_answers (rl_error_msg P qid op code) = []))"

lemma response_with_code_answers [simp]: "reply_ok P \<Longrightarrow> msg_answers (response_with_code P request code) = []"
  by (simp add: reply_ok_def response_with_code_def)

lemma handle_udp_answer:
  fixes P :: "'n reply_lib"
  assumes "reply_ok P"
    and "handle_udp_query_with_ipv6 D P C resolver engine engine' wire ipv6_egress now uuid st = (Inr bytes, st')"
  obtains m where "wl_to_vec (de_wire D) m = Some bytes" and "msg_answers m = []"
  | m request query family answer rdata where "wl_to_vec (de_wire D) m = Some bytes" and "wl_from_vec (de_wire D) wire = Some request"
      and "validate_request request = Some (query, family)"
      and "answer_query D C resolver engine engine' (nl_to_ascii (de_names D) (q_name query)) family now uuid st = (Inr answer, st')"
      and "answer_rdata family (sa_address answer) = Some rdata"
      and "msg_answers m = [\<lparr>dr_name = q_name query, dr_ttl = min (sa_ttl answer div 10 ^ 9) (2 ^ 32 - 1), dr_data = rdata\<rparr>]"
proof -
  have enc: "wl_to_vec (de_wire D) m = Some bytes" if "encode_message (de_wire D) m = Inr bytes" for m
    using that by (auto simp: encode_message_def split: option.splits)
  consider (plain) m where "encode_message (de_wire D) m = Inr bytes" "msg_answers m = []"
    | (query) request query family r where "wl_from_vec (de_wire D) wire = Some request" "validate_request request = Some (query, family)"
        "answer_query D C resolver engine engine' (nl_to_ascii (de_names D) (q_name query)) family now uuid st = (r, st')"
        "encode_message (de_wire D) (answer_message P request query family r) = Inr bytes"
    using assms unfolding handle_udp_query_with_ipv6_def Let_def
    by (auto simp: reply_ok_def split: if_splits option.splits prod.splits)
  then show thesis
  proof cases
    case plain
    then show thesis using that(1) enc by blast
  next
    case query
    show thesis
    proof (cases "msg_answers (answer_message P request query family r) = []")
      case True
      then show thesis using that(1) enc query(4) by blast
    next
      case False
      then obtain answer and rdata :: "'n RData" where r: "r = Inr answer" "answer_rdata family (sa_address answer) = Some rdata"
        using assms(1) by (auto simp: answer_message_def split: sum.splits option.splits)
      show thesis by (rule that(2) [OF enc [OF query(4)] query(1,2) query(3) [unfolded r(1)] r(2)])
          (simp add: r answer_message_def Let_def assms(1))
    qed
  qed
qed

lemma tcp_frame:
  assumes "handle_tcp_query_with_ipv6 D P C resolver engine engine' frame ipv6_egress now uuid st = (Inr framed, st')"
  obtains response where
    "handle_udp_query_with_ipv6 D P C resolver engine engine' (drop 2 frame) ipv6_egress now uuid st = (Inr response, st')"
    "framed = u16_to_be (length response) @ response" "u16_from_be framed = Some (length response)"
proof -
  from assms obtain response where r: "length response \<le> 2 ^ 16 - 1" "framed = u16_to_be (length response) @ response"
    and u: "handle_udp_query_with_ipv6 D P C resolver engine engine' (drop 2 frame) ipv6_egress now uuid st = (Inr response, st')"
    by (auto simp: handle_tcp_query_with_ipv6_def split: option.splits if_splits prod.splits sum.splits)
  have "u16_from_be framed = Some (length response)" using r
    by (auto simp: u16_to_be_def u16_from_be_def)
  with r u show thesis using that by blast
qed

section \<open>A small system\<close>

text \<open>The small system of the service, with a wire format that has one question, and the pools of epoch 0.\<close>

definition sample_question :: "string Message" where
  "sample_question = query_message 7 \<lparr>q_name = ''DB.example.'', q_type = A, q_class = IN\<rparr>"

definition sample_wire_env :: "(unit, sample_value, string, Ipv4Addr \<times> nat, Ipv6Addr \<times> nat) dns_env" where
  "sample_wire_env = sample_dns_env\<lparr>de_wire :=
     \<lparr>wl_from_vec = (\<lambda>wire. Some (if wire = ''question'' then sample_question else sample_message)),
      wl_to_vec = (\<lambda>m. Some (if msg_type m = Query then ''query'' else if msg_answers m = [] then ''empty'' else ''answer'')),
      wl_query_eq = (=)\<rparr>\<rparr>"

definition sample_reply :: "string reply_lib" where
  "sample_reply =
     \<lparr>rl_response = (\<lambda>qid op. sample_question\<lparr>msg_id := qid, msg_op_code := op, msg_type := Response, msg_queries := []\<rparr>),
      rl_error_msg = (\<lambda>qid op code.
        sample_question\<lparr>msg_id := qid, msg_op_code := op, msg_type := Response, msg_response_code := code, msg_queries := []\<rparr>)\<rparr>"

definition sample_epoch_pools :: StoreConfig where
  "sample_epoch_pools = \<lparr>sc_pools = \<lparr>sp_start4 = v4_new 198 18 0 2, sp_end4 = v4_new 198 18 1 255,
     sp_start6 = 0xfd236f70656e00000000000000000000, sp_end6 = 0xfd236f70656e000000000000000001ff\<rparr>, sc_max_mappings = 1024\<rparr>"

definition sample_answered ::
  "(WireError + string) \<times> (Ipv4Addr \<times> nat, Ipv6Addr \<times> nat) AddressAuthorization StoreState" where
  "sample_answered =
     (let engine = \<lparr>oe_engine = (), oe_generation = 0, oe_fail_closed_reason = None\<rparr>
      in handle_udp_query_with_ipv6 sample_wire_env sample_reply sample_epoch_pools (env_resolver sample_wire_env sample_net)
           engine engine ''question'' False 5 0 (store_new sample_epoch_pools))"

lemma sample_epoch_config: "epoch_config pair_cidr 0 sample_epoch_pools"
proof (rule for_epoch_pools [OF pair_cidr_net_ok, of 0])
  fix config C
  assume *: "for_epoch pair_cidr 0 = Inr config" "runtime_store_config config = Inr C" "sc_max_mappings C = 1024"
    "fam_first C Ipv4 = epoch_start Ipv4 0 + (if (0 :: nat) mod 256 = 0 then 2 else 0)" "fam_last C Ipv4 = epoch_start Ipv4 0 + 511"
    "fam_first C Ipv6 = epoch_start Ipv6 0" "fam_last C Ipv6 = epoch_start Ipv6 0 + 511"
  have "sc_pools C = sc_pools sample_epoch_pools"
    by (rule SyntheticPools.equality) (use *(4-7) in \<open>simp_all add: sample_epoch_pools_def fam_first_def fam_last_def epoch_start_def
      word_unat_eq_iff unat_v4_new\<close>)
  then have "C = sample_epoch_pools" using *(3) by (simp add: sample_epoch_pools_def)
  then show ?thesis using *(1,2) by (auto simp: epoch_config_def)
qed simp

lemma sample_reply_ok: "reply_ok sample_reply"
  by (simp add: reply_ok_def sample_reply_def sample_question_def query_message_def)

section \<open>Properties\<close>

text \<open>C26. The address pools of every supervisor epoch are usable and kept apart. Building them never fails,
  and they satisfy what the store relies on. They contain no always-blocked address and not the
  address of the local policy API. The pools of different epochs are disjoint, for IPv6 always and
  for IPv4 unless the epochs are equal modulo 256.\<close>
theorem epoch_pools_disjoint:
  assumes "cidr_net_ok L" and "epoch < 2 ^ 64" and "epoch' < 2 ^ 64"
  shows "\<exists>C C'. epoch_config L epoch C \<and> epoch_config L epoch' C' \<and> pools_ok C
    \<and> (\<forall>f. \<forall>n\<in>{fam_first C f..fam_last C f}. \<not> is_always_blocked_ip (fam_addr f n) \<and> fam_addr f n \<noteq> Ip4 POLICY_LOCAL_ADDRESS)
    \<and> (\<forall>f. (if f = Ipv4 then epoch mod 256 \<noteq> epoch' mod 256 else epoch \<noteq> epoch')
         \<longrightarrow> {fam_first C f..fam_last C f} \<inter> {fam_first C' f..fam_last C' f} = {})"
proof -
  obtain C where C: "epoch_config L epoch C" by (rule for_epoch_pools [OF assms(1,2)]) (auto simp: epoch_config_def)
  obtain C' where C': "epoch_config L epoch' C'" by (rule for_epoch_pools [OF assms(1,3)]) (auto simp: epoch_config_def)
  note range = epoch_range [OF assms(1,2) C] and range' = epoch_range [OF assms(1,3) C']
  have "{fam_first C f..fam_last C f} \<inter> {fam_first C' f..fam_last C' f} = {}"
    if "if f = Ipv4 then epoch mod 256 \<noteq> epoch' mod 256 else epoch \<noteq> epoch'" for f
  proof (rule ccontr)
    assume "{fam_first C f..fam_last C f} \<inter> {fam_first C' f..fam_last C' f} \<noteq> {}"
    then obtain n where "n \<in> {fam_first C f..fam_last C f}" "n \<in> {fam_first C' f..fam_last C' f}" by blast
    from range(1) [OF this(1)] range'(1) [OF this(2)] that show False
      by (cases f) (auto simp: epoch_start_def dest: windows_disjoint [of "epoch mod 256" "epoch' mod 256" 3323068416]
          windows_disjoint [of epoch epoch' 0xfd236f70656e00000000000000000000])
  qed
  then show ?thesis using C C' epoch_pools_ok [OF assms(1,2)] range(2,3) unfolding epoch_config_def by blast
qed

theorem epoch_pools_disjoint_witness:
  "\<exists>C C'. epoch_config pair_cidr 0 C \<and> epoch_config pair_cidr 7 C' \<and> {fam_first C Ipv4..fam_last C Ipv4} \<inter> {fam_first C' Ipv4..fam_last C' Ipv4} = {}"
proof -
  have e: "(0 :: nat) < 2 ^ 64" "(7 :: nat) < 2 ^ 64" and ne: "if Ipv4 = Ipv4 then 0 mod 256 \<noteq> (7 :: nat) mod 256 else 0 \<noteq> (7 :: nat)" by simp_all
  from epoch_pools_disjoint [OF pair_cidr_net_ok e] ne show ?thesis by blast
qed

text \<open>C8. The sandbox learns only synthetic addresses. In any history of the service, with the pools of an
  epoch, a response that carries an answer answers a valid question, has one record for the name
  that was asked, lives at most 30 seconds, and is either the address of the local policy API for
  its own name, or an address of the pool of the epoch with a record in the store for that name and
  family that lasts at least as long. No address of the trusted resolver is ever returned.\<close>
theorem dns_answer_synthetic:
  assumes "cidr_net_ok (de_cidr D)" and "reply_ok P" and "epoch < 2 ^ 64" and "epoch_config (de_cidr D) epoch C"
    and "dns_run D C log tr" and "s0 \<in> set tr"
    and "handle_udp_query_with_ipv6 D P C (env_resolver D network) (sy_engine s0) (sy_engine (hd tr)) wire ipv6_egress now uuid
           (sy_store (hd tr)) = (Inr bytes, st')"
  shows "\<exists>m. wl_to_vec (de_wire D) m = Some bytes
    \<and> (msg_answers m = [] \<or> (\<exists>request query family name address ttl rdata.
         wl_from_vec (de_wire D) wire = Some request \<and> validate_request request = Some (query, family)
         \<and> NormalizedName_parse (de_names D) (nl_to_ascii (de_names D) (q_name query)) = Some name
         \<and> msg_answers m = [\<lparr>dr_name = q_name query, dr_ttl = ttl, dr_data = rdata\<rparr>]
         \<and> answer_rdata family address = Some rdata \<and> ttl \<le> 30
         \<and> (if name = POLICY_LOCAL_HOST then address = Ip4 POLICY_LOCAL_ADDRESS
            else address \<noteq> Ip4 POLICY_LOCAL_ADDRESS
              \<and> (\<exists>n. epoch_start family epoch \<le> n \<and> n \<le> epoch_start family epoch + 511 \<and> address = fam_addr family n)
              \<and> (\<exists>rec. fmlookup (ss_records st') address = Some rec \<and> rr_normalized_name rec = name \<and> rr_family rec = family
                   \<and> now + ttl * 10 ^ 9 \<le> rr_expires_at rec))))"
  using assms(2,7)
proof (cases rule: handle_udp_answer)
  case (2 m request query family answer rdata)
  let ?ttl = "min (sa_ttl answer div 10 ^ 9) (2 ^ 32 - 1)"
  obtain name where n: "NormalizedName_parse (de_names D) (nl_to_ascii (de_names D) (q_name query)) = Some name"
    "sa_ttl answer \<le> MAX_MAPPING_TTL"
    and a: "if name = POLICY_LOCAL_HOST then sa_address answer = Ip4 POLICY_LOCAL_ADDRESS \<and> st' = sy_store (hd tr)
      else \<exists>rec. fmlookup (ss_records st') (sa_address answer) = Some rec \<and> rr_normalized_name rec = name
        \<and> rr_family rec = family \<and> rr_expires_at rec = now + sa_ttl answer"
    by (rule answer_query_Inr [OF 2(4)])
  have ttl: "?ttl \<le> 30" "?ttl * 10 ^ 9 \<le> sa_ttl answer"
    using n(2) by (auto simp: MAX_MAPPING_TTL_def min_def)
  have pools: "pools_ok C" using epoch_pools_ok [OF assms(1,3)] assms(4) unfolding epoch_config_def by blast
  obtain s tr' where tr: "tr = s # tr'" using assms(5) by (cases tr) (auto elim: dns_run.cases)
  have "dns_run D C (\<lparr>dq_name = nl_to_ascii (de_names D) (q_name query), dq_family = family, dq_network = network\<rparr> # log)
      (s\<lparr>sy_store := st'\<rparr> # s # tr')"
    by (rule run_query [OF assms(5) [unfolded tr] assms(6) [unfolded tr]]) (use 2(4) in \<open>simp add: tr\<close>)
  from dns_run_store [OF this] have inv: "store_inv C st'" using store_run_inv [OF pools] by auto
  have pool: "sa_address answer \<noteq> Ip4 POLICY_LOCAL_ADDRESS
      \<and> (\<exists>n. epoch_start family epoch \<le> n \<and> n \<le> epoch_start family epoch + 511 \<and> sa_address answer = fam_addr family n)"
    if "fmlookup (ss_records st') (sa_address answer) = Some rec" "rr_family rec = family" for rec
    using record_in_pool [OF inv that(1)] that(2) epoch_range(1,3) [OF assms(1,3,4)] by (metis atLeastAtMost_iff)
  show ?thesis
    using 2 n(1) a ttl pool by (intro exI [of _ m] conjI disjI2 exI [of _ request] exI [of _ query] exI [of _ family]
      exI [of _ name] exI [of _ "sa_address answer"] exI [of _ ?ttl] exI [of _ rdata]) auto
qed blast

theorem dns_answer_synthetic_witness:
  "\<exists>address rec. fmlookup (ss_records (snd sample_answered)) address = Some rec \<and> rr_normalized_name rec = ''db.example''
     \<and> address \<noteq> Ip4 POLICY_LOCAL_ADDRESS \<and> 5 \<le> rr_expires_at rec"
proof -
  let ?s = "\<lparr>sy_engine = \<lparr>oe_engine = (), oe_generation = 0, oe_fail_closed_reason = None\<rparr>, sy_store = store_new sample_epoch_pools\<rparr>"
  have "fst sample_answered = Inr ''answer''" by code_simp
  then have a: "handle_udp_query_with_ipv6 sample_wire_env sample_reply sample_epoch_pools (env_resolver sample_wire_env sample_net)
      (sy_engine ?s) (sy_engine (hd [?s])) ''question'' False 5 0 (sy_store (hd [?s])) = (Inr ''answer'', snd sample_answered)"
    unfolding sample_answered_def by (simp add: prod_eq_iff Let_def)
  have env: "de_cidr sample_wire_env = pair_cidr" "de_names sample_wire_env = sample_names"
    by (simp_all add: sample_wire_env_def sample_dns_env_def)
  have names: "nl_to_ascii sample_names = (\<lambda>s. s)" by (simp add: sample_names_def)
  have name: "NormalizedName_parse sample_names ''DB.example.'' = Some ''db.example''" by code_simp
  have loc: "''db.example'' \<noteq> POLICY_LOCAL_HOST" by (simp add: POLICY_LOCAL_HOST_def)
  have q: "wl_from_vec (de_wire sample_wire_env) ''question'' = Some sample_question"
    "validate_request sample_question = Some (\<lparr>q_name = ''DB.example.'', q_type = A, q_class = IN\<rparr>, Ipv4)"
    by (simp_all add: sample_wire_env_def validate_request_def sample_question_def query_message_def)
  have empty: "wl_to_vec (de_wire sample_wire_env) m = Some ''answer'' \<Longrightarrow> msg_answers m \<noteq> []" for m
    by (simp add: sample_wire_env_def split: if_splits)
  have e: "(0 :: nat) < 2 ^ 64" by simp
  have mem: "?s \<in> set [?s]" by simp
  from dns_answer_synthetic [where D = sample_wire_env and tr = "[?s]", unfolded env, OF pair_cidr_net_ok sample_reply_ok e
      sample_epoch_config run_start mem a [unfolded env]]
  obtain address rec where "fmlookup (ss_records (snd sample_answered)) address = Some rec" "rr_normalized_name rec = ''db.example''"
    "address \<noteq> Ip4 POLICY_LOCAL_ADDRESS" "5 \<le> rr_expires_at rec"
    using empty by (auto simp: q names name loc)
  then show ?thesis by blast
qed

end
