(* ===== verification/Binary_Identity.thy ===== *)
theory Binary_Identity
  imports Prelude
begin

text \<open>
  The trust-on-first-use cache of executable digests (\<open>openshell-supervisor-network/src/identity.rs\<close>).
  The first connection of a program pins the digest of its executable and of its ancestors; a later
  connection with another digest at a pinned path is refused. Digests are in their
  printed form. A path is the string of its components, without repeated separators and inner
  \<open>.\<close> components, so that equal strings are equal \<open>PathBuf\<close> keys, which compare by components.
\<close>

section \<open>Definitions\<close>

definition MAX_IDENTITY_CACHE_ENTRIES :: nat where "MAX_IDENTITY_CACHE_ENTRIES = 4096"

record FileFingerprint =
  fp_len :: nat
  fp_mtime :: "(int \<times> int) option"
  fp_ctime :: "(int \<times> int) option"
  fp_dev :: nat
  fp_ino :: nat

text \<open>The equality of fingerprints is false when a time is missing.\<close>

definition fingerprint_eq :: "FileFingerprint \<Rightarrow> FileFingerprint \<Rightarrow> bool" where
  "fingerprint_eq a b =
     (fp_len a = fp_len b \<and> fp_mtime a \<noteq> None \<and> fp_mtime b \<noteq> None \<and> fp_mtime a = fp_mtime b
      \<and> fp_ctime a \<noteq> None \<and> fp_ctime b \<noteq> None \<and> fp_ctime a = fp_ctime b
      \<and> fp_dev a = fp_dev b \<and> fp_ino a = fp_ino b)"

record CachedBinary =
  cb_hash :: string
  cb_fingerprint :: "FileFingerprint option"

type_synonym BinaryIdentityCache = "CachedBinary smap"

record ExecutableIdentity =
  ei_path :: string
  ei_digest :: "string option"

record BinaryIdentity =
  bi_executable :: ExecutableIdentity
  bi_ancestors :: "ExecutableIdentity list"
  bi_cmdline_paths :: "string list"

datatype SuppliedIdentityError =
    InvalidPath string | MissingDigest string | ConflictingEvidence string | ExecutableChanged string
  | CapacityExhausted

datatype VerifyError = StatFailed | HashFailed | IntegrityViolation string | CacheFull

definition is_absolute :: "string \<Rightarrow> bool" where
  "is_absolute path = starts_with ''/'' path"

definition collect_executable :: "string smap \<Rightarrow> ExecutableIdentity \<Rightarrow> SuppliedIdentityError + string smap" where
  "collect_executable supplied executable =
     (if ei_path executable = [] \<or> \<not> is_absolute (ei_path executable) then Inl (InvalidPath (ei_path executable))
      else case ei_digest executable of
             None \<Rightarrow> Inl (MissingDigest (ei_path executable))
           | Some digest \<Rightarrow>
               (case fmlookup supplied (ei_path executable) of
                  Some existing \<Rightarrow>
                    if existing \<noteq> digest then Inl (ConflictingEvidence (ei_path executable))
                    else Inr (fmupd (ei_path executable) digest supplied)
                | None \<Rightarrow> Inr (fmupd (ei_path executable) digest supplied)))"

definition check_pinned :: "BinaryIdentityCache \<Rightarrow> unit \<Rightarrow> string \<times> string \<Rightarrow> SuppliedIdentityError + unit" where
  "check_pinned hashes u entry =
     (case fmlookup hashes (fst entry) of
        Some existing \<Rightarrow> if cb_hash existing \<noteq> snd entry then Inl (ExecutableChanged (fst entry)) else Inr ()
      | None \<Rightarrow> Inr ())"

definition pin_supplied :: "BinaryIdentityCache \<Rightarrow> string \<times> string \<Rightarrow> BinaryIdentityCache" where
  "pin_supplied hashes entry =
     (if fm_contains hashes (fst entry) then hashes
      else fmupd (fst entry) \<lparr>cb_hash = snd entry, cb_fingerprint = None\<rparr> hashes)"

definition verify_or_cache_supplied_identity ::
  "BinaryIdentity \<Rightarrow> BinaryIdentityCache \<Rightarrow> (SuppliedIdentityError + unit) \<times> BinaryIdentityCache" where
  "verify_or_cache_supplied_identity identity hashes =
     (case foldE collect_executable fmempty (bi_executable identity # bi_ancestors identity) of
        Inl e \<Rightarrow> (Inl e, hashes)
      | Inr supplied \<Rightarrow>
          (case foldE (check_pinned hashes) () (fm_items supplied) of
             Inl e \<Rightarrow> (Inl e, hashes)
           | Inr _ \<Rightarrow>
               if length (filter (\<lambda>path. \<not> fm_contains hashes path) (fm_keys supplied))
                    > MAX_IDENTITY_CACHE_ENTRIES - fm_len hashes
               then (Inl CapacityExhausted, hashes)
               else (Inr (), foldl pin_supplied hashes (fm_items supplied))))"

definition verify_or_cache_miss ::
  "string \<Rightarrow> FileFingerprint \<Rightarrow> string option \<Rightarrow> BinaryIdentityCache \<Rightarrow> (VerifyError + string) \<times> BinaryIdentityCache" where
  "verify_or_cache_miss cache_path fingerprint current_hash hashes =
     (case current_hash of
        None \<Rightarrow> (Inl HashFailed, hashes)
      | Some current_hash \<Rightarrow>
          if (case fmlookup hashes cache_path of None \<Rightarrow> False | Some existing \<Rightarrow> cb_hash existing \<noteq> current_hash)
          then (Inl (IntegrityViolation cache_path), hashes)
          else if \<not> fm_contains hashes cache_path \<and> fm_len hashes \<ge> MAX_IDENTITY_CACHE_ENTRIES
          then (Inl CacheFull, hashes)
          else (Inr current_hash, fmupd cache_path \<lparr>cb_hash = current_hash, cb_fingerprint = Some fingerprint\<rparr> hashes))"

text \<open>\<open>metadata\<close> and \<open>current_hash\<close> are what the file system says about the executable. The lock is released
  while the file is hashed: \<open>before\<close> is the cache when the entry is looked up, \<open>hashes\<close> when it is written.\<close>

definition verify_or_cache_with_paths ::
  "string \<Rightarrow> FileFingerprint option \<Rightarrow> string option \<Rightarrow> BinaryIdentityCache \<Rightarrow> BinaryIdentityCache
   \<Rightarrow> (VerifyError + string) \<times> BinaryIdentityCache" where
  "verify_or_cache_with_paths cache_path metadata current_hash before hashes =
     (case metadata of
        None \<Rightarrow> (Inl StatFailed, hashes)
      | Some fingerprint \<Rightarrow>
          (case fmlookup before cache_path of
             Some cached_binary \<Rightarrow>
               if (case cb_fingerprint cached_binary of None \<Rightarrow> False | Some fp \<Rightarrow> fingerprint_eq fp fingerprint)
               then (Inr (cb_hash cached_binary), hashes)
               else verify_or_cache_miss cache_path fingerprint current_hash hashes
           | None \<Rightarrow> verify_or_cache_miss cache_path fingerprint current_hash hashes))"

text \<open>The histories of a cache, newest state first.\<close>

inductive cache_run :: "BinaryIdentityCache list \<Rightarrow> bool" where
  cache_start: "cache_run [fmempty]"
| cache_supplied: "cache_run (hashes # tr) \<Longrightarrow> verify_or_cache_supplied_identity identity hashes = (r, hashes')
     \<Longrightarrow> cache_run (hashes' # hashes # tr)"
| cache_file: "cache_run (hashes # tr) \<Longrightarrow> before \<in> set (hashes # tr)
     \<Longrightarrow> verify_or_cache_with_paths path metadata current_hash before hashes = (r, hashes')
     \<Longrightarrow> cache_run (hashes' # hashes # tr)"

section \<open>Lemmas\<close>

text \<open>The digest pinned at a path.\<close>

definition pinned :: "BinaryIdentityCache \<Rightarrow> string \<Rightarrow> string option" where
  "pinned hashes path = map_option cb_hash (fmlookup hashes path)"

lemma foldE_check_pinned:
  "foldE (check_pinned hashes) () entries = Inr u \<longleftrightarrow> (\<forall>(path, digest)\<in>set entries. pinned hashes path \<in> {None, Some digest})"
  by (induction entries) (auto simp: check_pinned_def pinned_def split: option.splits)

lemma collect_executable_Inr:
  assumes "collect_executable supplied x = Inr supplied'"
  obtains d where "ei_digest x = Some d" "is_absolute (ei_path x)" "fmlookup supplied (ei_path x) \<in> {None, Some d}"
    "supplied' = fmupd (ei_path x) d supplied"
  using assms by (auto simp: collect_executable_def split: if_splits option.splits)

lemma collect_executable_mono:
  "foldE collect_executable supplied xs = Inr supplied' \<Longrightarrow> fmlookup supplied p = Some d \<Longrightarrow> fmlookup supplied' p = Some d"
proof (induction xs arbitrary: supplied)
  case (Cons x xs)
  then obtain s where s: "collect_executable supplied x = Inr s" "foldE collect_executable s xs = Inr supplied'" by auto
  from s(1) have "fmlookup s p = Some d" using Cons.prems(2) by (cases rule: collect_executable_Inr) auto
  with Cons.IH s(2) show ?case by blast
qed simp

lemma foldE_collect_executable:
  "foldE collect_executable supplied xs = Inr supplied' \<Longrightarrow> x \<in> set xs
   \<Longrightarrow> ei_digest x \<noteq> None \<and> fmlookup supplied' (ei_path x) = ei_digest x \<and> is_absolute (ei_path x)"
proof (induction xs arbitrary: supplied)
  case (Cons y ys)
  then obtain s where s: "collect_executable supplied y = Inr s" "foldE collect_executable s ys = Inr supplied'" by auto
  show ?case
  proof (cases "x = y")
    case True
    from s(1) show ?thesis
      by (cases rule: collect_executable_Inr) (use True collect_executable_mono [OF s(2)] in auto)
  next
    case False
    then show ?thesis using Cons s(2) by simp
  qed
qed simp

lemma pinned_foldl_pin_supplied:
  "pinned (foldl pin_supplied hashes entries) path =
     (case pinned hashes path of Some d \<Rightarrow> Some d | None \<Rightarrow> map_of entries path)"
  by (induction entries arbitrary: hashes)
    (auto simp: pin_supplied_def pinned_def fm_contains_def split: option.splits)

lemma dom_foldl_pin_supplied:
  "fset (fmdom (foldl pin_supplied hashes entries)) = fset (fmdom hashes) \<union> fst ` set entries"
  by (induction entries arbitrary: hashes) (auto simp: pin_supplied_def fm_contains_def intro: fmdomI)

lemma fm_len_foldl_pin_supplied:
  "fm_len (foldl pin_supplied hashes (fm_items m))
   \<le> fm_len hashes + length (filter (\<lambda>path. \<not> fm_contains hashes path) (fm_keys m))"
proof -
  let ?new = "filter (\<lambda>path. \<not> fm_contains hashes path) (fm_keys m)"
  have keys: "fst ` set (fm_items m) = set (fm_keys m)" by (simp add: fm_items_def fm_keys_def)
  have "fset (fmdom hashes) \<union> fst ` set (fm_items m) = fset (fmdom hashes) \<union> set ?new"
    unfolding keys by (auto simp: fm_contains_def fmdom_notI)
  then have "fm_len (foldl pin_supplied hashes (fm_items m)) = card (fset (fmdom hashes) \<union> set ?new)"
    unfolding fm_len_card dom_foldl_pin_supplied by simp
  also have "\<dots> \<le> fm_len hashes + card (set ?new)" unfolding fm_len_card by (rule card_Un_le)
  also have "card (set ?new) \<le> length ?new" by (rule card_length)
  finally show ?thesis by simp
qed

lemma supplied_identity_cases:
  assumes "verify_or_cache_supplied_identity identity hashes = (r, hashes')"
  obtains (refused) e where "r = Inl e" "hashes' = hashes"
  | (accepted) supplied where "r = Inr ()"
      "foldE collect_executable fmempty (bi_executable identity # bi_ancestors identity) = Inr supplied"
      "foldE (check_pinned hashes) () (fm_items supplied) = Inr ()"
      "length (filter (\<lambda>path. \<not> fm_contains hashes path) (fm_keys supplied)) \<le> MAX_IDENTITY_CACHE_ENTRIES - fm_len hashes"
      "hashes' = foldl pin_supplied hashes (fm_items supplied)"
proof (cases "foldE collect_executable fmempty (bi_executable identity # bi_ancestors identity)")
  case (Inl e)
  then show thesis using assms refused [of e] by (auto simp: verify_or_cache_supplied_identity_def simp del: foldE.simps)
next
  case (Inr supplied)
  then show thesis
  proof (cases "foldE (check_pinned hashes) () (fm_items supplied)")
    case (Inl e)
    then show thesis using assms Inr refused [of e] by (auto simp: verify_or_cache_supplied_identity_def simp del: foldE.simps)
  next
    case ok: (Inr u)
    then show thesis using assms Inr refused [of CapacityExhausted] accepted [OF _ Inr]
      by (auto simp: verify_or_cache_supplied_identity_def simp del: foldE.simps split: if_splits)
  qed
qed

lemma supplied_identity_effect:
  assumes "verify_or_cache_supplied_identity identity hashes = (r, hashes')" and "fm_len hashes \<le> MAX_IDENTITY_CACHE_ENTRIES"
  shows "fm_len hashes' \<le> MAX_IDENTITY_CACHE_ENTRIES
    \<and> (pinned hashes path = Some d \<longrightarrow> pinned hashes' path = Some d)
    \<and> (isOk r \<and> x \<in> set (bi_executable identity # bi_ancestors identity) \<longrightarrow>
         is_absolute (ei_path x) \<and> ei_digest x \<noteq> None \<and> pinned hashes' (ei_path x) = ei_digest x)
    \<and> (\<not> isOk r \<longrightarrow> hashes' = hashes)"
  using assms(1)
proof (cases rule: supplied_identity_cases)
  case (refused e)
  with assms(2) show ?thesis by simp
next
  case (accepted supplied)
  note s = accepted(2) and checked = accepted(3) and room = accepted(4) and h = accepted(5)
  let ?chain = "bi_executable identity # bi_ancestors identity"
  have "fm_len hashes' \<le> MAX_IDENTITY_CACHE_ENTRIES"
    using fm_len_foldl_pin_supplied [of hashes supplied] room assms(2) unfolding h by linarith
  moreover have "is_absolute (ei_path x) \<and> ei_digest x \<noteq> None \<and> pinned hashes' (ei_path x) = ei_digest x" if "x \<in> set ?chain"
  proof -
    from foldE_collect_executable [OF s that] obtain d where d: "ei_digest x = Some d" "fmlookup supplied (ei_path x) = Some d"
      "is_absolute (ei_path x)" by auto
    then have "pinned hashes (ei_path x) \<in> {None, Some d}"
      using checked unfolding foldE_check_pinned by (auto simp: set_fm_items)
    with d show ?thesis unfolding h pinned_foldl_pin_supplied by auto
  qed
  moreover have "pinned hashes path = Some d \<longrightarrow> pinned hashes' path = Some d"
    unfolding h pinned_foldl_pin_supplied by simp
  moreover have "isOk r" using accepted(1) by simp
  ultimately show ?thesis by blast
qed

lemma fm_len_fmupd: "fm_len (fmupd k v m) = (if fm_contains m k then fm_len m else Suc (fm_len m))"
  unfolding fm_len_card by (auto simp: fm_contains_def insert_absorb fmdomI fmdom_notI)

lemma file_check_effect:
  assumes "verify_or_cache_with_paths path metadata current_hash before hashes = (r, hashes')"
    and "fm_len hashes \<le> MAX_IDENTITY_CACHE_ENTRIES"
    and "\<And>d. pinned before path = Some d \<Longrightarrow> pinned hashes path = Some d"
  shows "fm_len hashes' \<le> MAX_IDENTITY_CACHE_ENTRIES
    \<and> (pinned hashes p = Some d \<longrightarrow> pinned hashes' p = Some d)
    \<and> (\<forall>hash. r = Inr hash \<longrightarrow> pinned hashes' path = Some hash)"
  using assms
  by (auto simp: verify_or_cache_with_paths_def verify_or_cache_miss_def pinned_def fm_len_fmupd
      split: option.splits if_splits)

lemma cache_run_inv:
  "cache_run tr \<Longrightarrow> fm_len (hd tr) \<le> MAX_IDENTITY_CACHE_ENTRIES
     \<and> (\<forall>old\<in>set tr. \<forall>path d. pinned old path = Some d \<longrightarrow> pinned (hd tr) path = Some d)"
proof (induction rule: cache_run.induct)
  case cache_start
  show ?case by (simp add: fm_len_card)
next
  case (cache_supplied hashes tr identity r hashes')
  then show ?case using supplied_identity_effect [OF cache_supplied.hyps(2)] by auto
next
  case (cache_file hashes tr before path metadata current_hash r hashes')
  then have "pinned before path = Some d \<Longrightarrow> pinned hashes path = Some d" for d unfolding list.sel by blast
  with cache_file file_check_effect [OF cache_file.hyps(3)] show ?case by auto
qed

section \<open>Properties\<close>

text \<open>C9. A pinned executable cannot be replaced. Whatever connections came before, an identity is accepted
  only if every executable of its chain has an absolute path and a digest that agrees with every
  digest ever pinned at that path, and from then on that digest is pinned. A refused identity pins
  nothing, and the cache never has more than 4096 entries.\<close>
theorem binary_pin_permanent:
  assumes "cache_run (hashes # tr)" and "verify_or_cache_supplied_identity identity hashes = (r, hashes')"
  shows "(\<not> isOk r \<longrightarrow> hashes' = hashes) \<and> fm_len hashes' \<le> MAX_IDENTITY_CACHE_ENTRIES
    \<and> (isOk r \<longrightarrow> (\<forall>x\<in>set (bi_executable identity # bi_ancestors identity).
         is_absolute (ei_path x) \<and> ei_digest x \<noteq> None
         \<and> (\<forall>old\<in>set (hashes # tr). pinned old (ei_path x) \<in> {None, ei_digest x})
         \<and> (\<forall>newer. cache_run (newer @ hashes' # hashes # tr) \<longrightarrow>
              pinned (hd (newer @ [hashes'])) (ei_path x) = ei_digest x)))"
proof -
  from cache_run_inv [OF assms(1)] have len: "fm_len hashes \<le> MAX_IDENTITY_CACHE_ENTRIES"
    and old: "old \<in> set (hashes # tr) \<Longrightarrow> pinned old path = Some d \<Longrightarrow> pinned hashes path = Some d" for old path d
    unfolding list.sel by blast+
  note effect = supplied_identity_effect [OF assms(2) len]
  have "pinned old (ei_path x) \<in> {None, ei_digest x}"
    if "isOk r" "x \<in> set (bi_executable identity # bi_ancestors identity)" "old \<in> set (hashes # tr)" for x old
  proof (cases "pinned old (ei_path x)")
    case (Some d)
    then have "pinned hashes (ei_path x) = Some d" using old that(3) by blast
    with effect [of "ei_path x" d x] that(1,2) Some show ?thesis by (metis insertI1 insert_commute)
  qed simp
  moreover have "pinned (hd (newer @ [hashes'])) (ei_path x) = ei_digest x"
    if "isOk r" "x \<in> set (bi_executable identity # bi_ancestors identity)" "cache_run (newer @ hashes' # hashes # tr)" for x newer
  proof -
    have "hd (newer @ [hashes']) = hd (newer @ hashes' # hashes # tr)" by (cases newer) simp_all
    then show ?thesis using effect [of _ _ x] that(1,2) cache_run_inv [OF that(3)] by fastforce
  qed
  ultimately show ?thesis using effect by blast
qed

definition sample_tool :: "string \<Rightarrow> BinaryIdentity" where
  "sample_tool digest = \<lparr>bi_executable = \<lparr>ei_path = ''/usr/bin/tool'', ei_digest = Some digest\<rparr>, bi_ancestors = [], bi_cmdline_paths = []\<rparr>"

theorem binary_pin_permanent_witness:
  "(let hashes = snd (verify_or_cache_supplied_identity (sample_tool ''11'') fmempty)
    in pinned hashes ''/usr/bin/tool'' = Some ''11''
       \<and> snd (verify_or_cache_supplied_identity (sample_tool ''22'') hashes) = hashes)"
proof -
  define h1 where "h1 = snd (verify_or_cache_supplied_identity (sample_tool ''11'') fmempty)"
  define h2 where "h2 = snd (verify_or_cache_supplied_identity (sample_tool ''22'') h1)"
  have "fst (verify_or_cache_supplied_identity (sample_tool ''11'') fmempty) = Inr ()" by code_simp
  then have h1: "verify_or_cache_supplied_identity (sample_tool ''11'') fmempty = (Inr (), h1)" by (simp add: h1_def prod_eq_iff)
  have "fst (verify_or_cache_supplied_identity (sample_tool ''22'') h1) = Inl (ExecutableChanged ''/usr/bin/tool'')"
    unfolding h1_def by code_simp
  then have h2: "verify_or_cache_supplied_identity (sample_tool ''22'') h1 = (Inl (ExecutableChanged ''/usr/bin/tool''), h2)"
    by (simp add: h2_def prod_eq_iff)
  have run: "cache_run [h1, fmempty]" using cache_supplied [OF cache_start h1] .
  have "pinned h1 ''/usr/bin/tool'' = Some ''11''"
    using binary_pin_permanent [OF cache_start h1] run by (auto simp: sample_tool_def dest: spec [of _ "[]"])
  moreover have "h2 = h1" using binary_pin_permanent [OF run h2] by simp
  ultimately show ?thesis by (simp add: Let_def h1_def h2_def)
qed

end
