(* ===== verification/Transparent_Open.thy ===== *)
theory Transparent_Open
  imports Dns_Service Binary_Identity
begin

text \<open>
  The authorization of a transparent TCP connection before it is relayed
  (\<open>preauthorize_transparent_open\<close> of \<open>proxy.rs\<close>): the destination is mapped back to a name, the
  program is identified, the policy decides, and the addresses to dial are selected. The steps
  read the policy and the store of synthetic addresses at different moments.
\<close>

section \<open>Definitions\<close>

subsection \<open>Addresses\<close>

text \<open>\<open>IpAddr::to_canonical\<close> and the \<open>Display\<close> of addresses.\<close>

definition to_canonical :: "IpAddress \<Rightarrow> IpAddress" where
  "to_canonical ip =
     (case ip of
        Ip4 v4 \<Rightarrow> Ip4 v4
      | Ip6 v6 \<Rightarrow> (case to_ipv4_mapped v6 of Some v4 \<Rightarrow> Ip4 v4 | None \<Rightarrow> Ip6 v6))"

definition show_ipv4 :: "Ipv4Addr \<Rightarrow> string" where
  "show_ipv4 v4 = join ''.'' (map (\<lambda>i. show_nat (unat v4 div 256 ^ (3 - i) mod 256)) [0..<4])"

definition segments :: "Ipv6Addr \<Rightarrow> nat list" where
  "segments v6 = map (\<lambda>i. unat v6 div 65536 ^ (7 - i) mod 65536) [0..<8]"

text \<open>The first longest run of zeros, as its start and length.\<close>

definition longest_zeros :: "nat list \<Rightarrow> nat \<times> nat" where
  "longest_zeros xs =
     fst (foldl (\<lambda>((start, len), (cur, curlen)) (i, x).
            if x = 0
            then (let cur = (if curlen = 0 then i else cur); curlen = curlen + 1
                  in (if len < curlen then (cur, curlen) else (start, len), (cur, curlen)))
            else ((start, len), (0, 0))) ((0, 0), (0, 0)) (enumerate 0 xs))"

definition show_segments :: "nat list \<Rightarrow> string" where
  "show_segments xs = join '':'' (map show_hex xs)"

definition show_ipv6 :: "Ipv6Addr \<Rightarrow> string" where
  "show_ipv6 v6 =
     (case to_ipv4_mapped v6 of
        Some v4 \<Rightarrow> ''::ffff:'' @ show_ipv4 v4
      | None \<Rightarrow>
          (case longest_zeros (segments v6) of
             (start, len) \<Rightarrow>
               if len > 1 then show_segments (take start (segments v6)) @ ''::'' @ show_segments (drop (start + len) (segments v6))
               else show_segments (segments v6)))"

definition show_ip :: "IpAddress \<Rightarrow> string" where
  "show_ip ip = (case ip of Ip4 v4 \<Rightarrow> show_ipv4 v4 | Ip6 v6 \<Rightarrow> show_ipv6 v6)"

subsection \<open>Decisions\<close>

record NetworkInput =
  ni_host :: string
  ni_port :: nat
  ni_binary_path :: string
  ni_binary_sha256 :: string
  ni_ancestors :: "string list"
  ni_cmdline_paths :: "string list"

record ('v, 'n4, 'n6) EgressDecision =
  ed_host :: string
  ed_port :: nat
  ed_action :: NetworkAction
  ed_policy_generation :: nat
  ed_destination :: "('n4, 'n6) AddressAuthorization option"
  ed_policy_configs :: "'v list"
  ed_matched_endpoints :: "'v MatchedEndpoint list"
  ed_exact_declared_host :: bool

datatype SuppliedIdentityDenial = SuppliedIdentityUnavailable | SuppliedResourceExhausted

datatype TcpOpenDenial =
    PolicyDenied | IdentityUnavailable | InvalidDestination | ResourceExhausted | MediationUnavailable

text \<open>The packages and the configuration of the proxy, in addition to those of policy DNS. A reserved
  destination comes with whether its handler takes the connection.\<close>

record ('g, 'v, 'n, 'n4, 'n6) open_env =
  te_dns :: "('g, 'v, 'n, 'n4, 'n6) dns_env"
  te_eval_input :: "NetworkInput \<Rightarrow> ('g, 'v) rego_eval"
  te_resolver :: resolver_env
  te_backend_host_gateway :: "IpAddress option"
  te_trusted_host_gateway :: "IpAddress option"
  te_has_policy_dns_store :: bool
  te_has_policy_local :: bool
  te_reserved :: "(SocketAddr \<times> bool) option"

definition OTLP_RELAY_ADDR :: SocketAddr where
  "OTLP_RELAY_ADDR = (Ip4 (v4_new 192 0 0 8), 4318)"

definition is_reserved_relay_destination :: "SocketAddr \<Rightarrow> bool" where
  "is_reserved_relay_destination destination = (destination = OTLP_RELAY_ADDR)"

definition is_metadata_destination :: "SocketAddr \<Rightarrow> bool" where
  "is_metadata_destination destination = (destination = (Ip4 (v4_new 127 0 0 1), 8174))"

definition deny_decision :: "string \<Rightarrow> nat \<Rightarrow> string \<Rightarrow> 'g OpaEngine \<Rightarrow> ('v, 'n4, 'n6) EgressDecision" where
  "deny_decision host port reason engine =
     \<lparr>ed_host = host, ed_port = port, ed_action = Deny reason, ed_policy_generation = oe_generation engine,
      ed_destination = None, ed_policy_configs = [], ed_matched_endpoints = [], ed_exact_declared_host = False\<rparr>"

definition identity_error_text :: "SuppliedIdentityError \<Rightarrow> string" where
  "identity_error_text e =
     (case e of
        InvalidPath path \<Rightarrow> ''Invalid executable identity path: '' @ path @ '' must be absolute''
      | MissingDigest path \<Rightarrow> ''Invalid executable identity evidence: '' @ path @ '' has missing digest''
      | ConflictingEvidence path \<Rightarrow> ''Invalid executable identity: conflicting evidence for '' @ path
      | ExecutableChanged path \<Rightarrow> ''Binary integrity violation: '' @ path @ '' executable changed''
      | CapacityExhausted \<Rightarrow>
          ''Binary identity cache capacity exhausted (maximum '' @ show_nat MAX_IDENTITY_CACHE_ENTRIES @ '' pinned paths)'')"

definition authorize_supplied_identity ::
  "('g, 'v, 'n, 'n4, 'n6) open_env \<Rightarrow> 'g OpaEngine \<Rightarrow> string \<Rightarrow> nat \<Rightarrow> string + BinaryIdentity \<Rightarrow> BinaryIdentityCache
   \<Rightarrow> (('v, 'n4, 'n6) EgressDecision \<times> SuppliedIdentityDenial option) \<times> BinaryIdentityCache" where
  "authorize_supplied_identity T engine host port identity hashes =
     (case identity of
        Inl error \<Rightarrow>
          ((deny_decision host port (''backend identity resolution failed: '' @ error) engine, Some SuppliedIdentityUnavailable), hashes)
      | Inr identity \<Rightarrow>
          (case verify_or_cache_supplied_identity identity hashes of
             (Inl error, hashes') \<Rightarrow>
               ((deny_decision host port (identity_error_text error) engine,
                 Some (if error = CapacityExhausted then SuppliedResourceExhausted else SuppliedIdentityUnavailable)), hashes')
           | (Inr _, hashes') \<Rightarrow>
               let input = \<lparr>ni_host = host, ni_port = port, ni_binary_path = ei_path (bi_executable identity),
                     ni_binary_sha256 = the (ei_digest (bi_executable identity)),
                     ni_ancestors = map ei_path (bi_ancestors identity), ni_cmdline_paths = bi_cmdline_paths identity\<rparr>
               in case authorize_egress (de_rego (te_dns T)) (te_eval_input T) engine input of
                    Inr a \<Rightarrow>
                      ((\<lparr>ed_host = host, ed_port = port, ed_action = ea_action a, ed_policy_generation = ea_generation a,
                         ed_destination = None, ed_policy_configs = ea_endpoint_configs a,
                         ed_matched_endpoints = ea_matched_endpoints a,
                         ed_exact_declared_host = ea_exact_declared_endpoint_host a\<rparr>, None), hashes')
                  | Inl error \<Rightarrow>
                      ((deny_decision host port (''policy evaluation error: '' @ error) engine, None), hashes')))"

definition query_allowed_ips :: "'v rego_lib \<Rightarrow> ('v, 'n4, 'n6) EgressDecision \<Rightarrow> string list" where
  "query_allowed_ips R decision =
     (if (case ed_action decision of Allow matched_policy \<Rightarrow> matched_policy \<noteq> None | Deny _ \<Rightarrow> False)
      then (case ed_policy_configs decision of
              [] \<Rightarrow> [] | config # _ \<Rightarrow> value_string_array R config ''allowed_ips'')
      else [])"

definition hydrate_destination_plan ::
  "('g, 'v, 'n, 'n4, 'n6) open_env \<Rightarrow> ('v, 'n4, 'n6) EgressDecision \<Rightarrow> DestinationDenial + ('v, 'n4, 'n6) EgressDecision" where
  "hydrate_destination_plan T decision =
     bindE (build_validation_plan (de_cidr (te_dns T)) (ed_host decision) (to_ascii_lowercase (ed_host decision))
              (te_backend_host_gateway T) (te_trusted_host_gateway T)
              (query_allowed_ips (de_rego (te_dns T)) decision) (ed_exact_declared_host decision))
       (\<lambda>plan. Inr (decision\<lparr>ed_destination := Some plan\<rparr>))"

subsection \<open>The destination\<close>

record ('n4, 'n6) TransparentTarget =
  tt_host :: string
  tt_intent :: "('n4, 'n6) AddressAuthorization MappingLookup option"

definition resolve_transparent_target ::
  "bool \<Rightarrow> SocketAddr \<Rightarrow> nat \<Rightarrow> ('n4, 'n6) AddressAuthorization StoreState \<Rightarrow> nat
   \<Rightarrow> MappingLookupError + ('n4, 'n6) TransparentTarget" where
  "resolve_transparent_target has_store destination current_generation st now =
     (if \<not> has_store then Inr \<lparr>tt_host = show_ip (fst destination), tt_intent = None\<rparr>
      else case lookup_intent st (fst destination) (snd destination) current_generation now of
             Inr mapping \<Rightarrow> Inr \<lparr>tt_host = rr_normalized_name (ml_record mapping), tt_intent = Some mapping\<rparr>
           | Inl Missing \<Rightarrow> Inr \<lparr>tt_host = show_ip (fst destination), tt_intent = None\<rparr>
           | Inl error \<Rightarrow> Inl error)"

definition decision_endpoint_ids :: "('v, 'n4, 'n6) EgressDecision \<Rightarrow> PolicyEndpointId list" where
  "decision_endpoint_ids decision =
     map (\<lambda>endpoint. \<lparr>pe_policy_name = me_policy_name endpoint, pe_endpoint_index = me_endpoint_index endpoint\<rparr>)
       (ed_matched_endpoints decision)"

definition pinned_transparent_plan ::
  "('n4, 'n6) cidr_lib \<Rightarrow> ('n4, 'n6) AddressAuthorization StoreState \<Rightarrow> SocketAddr \<Rightarrow> ('v, 'n4, 'n6) EgressDecision \<Rightarrow> nat
   \<Rightarrow> MappingLookupError + ('n4, 'n6) AddressAuthorization" where
  "pinned_transparent_plan L st destination decision now =
     bindE (lookup st (fst destination) (snd destination) (ed_policy_generation decision) now)
       (\<lambda>mapping. bindE (pinned_addresses_for mapping (decision_endpoint_ids decision))
         (\<lambda>addresses.
            case ed_destination decision of
              None \<Rightarrow> Inl InvalidMapping
            | Some plan \<Rightarrow>
                bindE (map_err (\<lambda>_. InvalidMapping)
                  (filter_resolved_addresses L plan (rr_normalized_name (ml_record mapping)) (snd destination) addresses))
                  (\<lambda>addresses. map_err (\<lambda>_. InvalidMapping) (build_pinned_validation_plan addresses))))"

subsection \<open>The open\<close>

text \<open>The connection is served inside the supervisor, relayed to a local service, relayed to an upstream, or
  denied.\<close>

datatype ('v, 'n4, 'n6) tcp_open =
    Served | RelayLocal | RelayUpstream "('v, 'n4, 'n6) EgressDecision" UpstreamConnector | OpenDenied TcpOpenDenial

definition check_supplied_identity ::
  "string + BinaryIdentity \<Rightarrow> BinaryIdentityCache \<Rightarrow> (TcpOpenDenial + unit) \<times> BinaryIdentityCache" where
  "check_supplied_identity identity hashes =
     (case identity of
        Inl _ \<Rightarrow> (Inl IdentityUnavailable, hashes)
      | Inr identity \<Rightarrow>
          (case verify_or_cache_supplied_identity identity hashes of
             (Inl CapacityExhausted, hashes') \<Rightarrow> (Inl ResourceExhausted, hashes')
           | (Inl _, hashes') \<Rightarrow> (Inl IdentityUnavailable, hashes')
           | (Inr _, hashes') \<Rightarrow> (Inr (), hashes')))"

definition relay_local ::
  "string + BinaryIdentity \<Rightarrow> BinaryIdentityCache \<Rightarrow> ('v, 'n4, 'n6) tcp_open \<times> BinaryIdentityCache" where
  "relay_local identity hashes =
     (case check_supplied_identity identity hashes of
        (Inl denial_kind, hashes') \<Rightarrow> (OpenDenied denial_kind, hashes')
      | (Inr _, hashes') \<Rightarrow> (RelayLocal, hashes'))"

text \<open>What follows a positive decision of the policy. \<open>s\<close> is the state when the mapping is read again.\<close>

definition open_upstream ::
  "('g, 'v, 'n, 'n4, 'n6) open_env \<Rightarrow> SocketAddr \<Rightarrow> ('n4, 'n6) TransparentTarget \<Rightarrow> ('v, 'n4, 'n6) EgressDecision
   \<Rightarrow> ('g, ('n4, 'n6) AddressAuthorization) dns_system \<Rightarrow> nat \<Rightarrow> ('v, 'n4, 'n6) tcp_open" where
  "open_upstream T destination target decision s now =
     (case hydrate_destination_plan T decision of
        Inl _ \<Rightarrow> OpenDenied InvalidDestination
      | Inr decision \<Rightarrow>
          (case (case tt_intent target of
                   None \<Rightarrow> Inr None
                 | Some _ \<Rightarrow>
                     if \<not> te_has_policy_dns_store T then Inl Missing
                     else map_sum id Some
                       (pinned_transparent_plan (de_cidr (te_dns T)) (sy_store s) destination decision now)) of
             Inl _ \<Rightarrow> OpenDenied InvalidDestination
           | Inr pinned_plan \<Rightarrow>
               let decision = (case pinned_plan of None \<Rightarrow> decision | Some plan \<Rightarrow> decision\<lparr>ed_destination := Some plan\<rparr>)
               in case validate_destination (de_cidr (te_dns T)) (te_resolver T) (tt_host target) (snd destination) 0
                         (the (ed_destination decision)) of
                    Inl _ \<Rightarrow> OpenDenied InvalidDestination
                  | Inr connector \<Rightarrow> RelayUpstream decision connector))"

text \<open>\<open>s0\<close> is the state when the generation is read, \<open>s1\<close> when the destination is looked up, \<open>s2\<close> when the
  policy decides, and \<open>s3\<close> when the mapping is read again.\<close>

definition preauthorize_transparent_open ::
  "('g, 'v, 'n, 'n4, 'n6) open_env \<Rightarrow> string + BinaryIdentity \<Rightarrow> SocketAddr
   \<Rightarrow> ('g, ('n4, 'n6) AddressAuthorization) dns_system \<Rightarrow> ('g, ('n4, 'n6) AddressAuthorization) dns_system \<Rightarrow> nat
   \<Rightarrow> ('g, ('n4, 'n6) AddressAuthorization) dns_system \<Rightarrow> ('g, ('n4, 'n6) AddressAuthorization) dns_system \<Rightarrow> nat \<Rightarrow> BinaryIdentityCache
   \<Rightarrow> ('v, 'n4, 'n6) tcp_open \<times> BinaryIdentityCache" where
  "preauthorize_transparent_open T identity requested s0 s1 now1 s2 s3 now3 hashes =
     (let destination = (to_canonical (fst requested), snd requested)
      in if (case te_reserved T of None \<Rightarrow> False | Some (addr, _) \<Rightarrow> addr = destination)
         then (if snd (the (te_reserved T)) then Served else OpenDenied ResourceExhausted, hashes)
         else if is_reserved_relay_destination destination then (OpenDenied PolicyDenied, hashes)
         else if is_metadata_destination destination then relay_local identity hashes
         else if fst destination = Ip4 POLICY_LOCAL_ADDRESS
         then (if snd destination \<noteq> 80 \<or> \<not> te_has_policy_local T then (OpenDenied InvalidDestination, hashes)
               else relay_local identity hashes)
         else case resolve_transparent_target (te_has_policy_dns_store T) destination (oe_generation (sy_engine s0)) (sy_store s1) now1 of
                Inl _ \<Rightarrow> (OpenDenied InvalidDestination, hashes)
              | Inr target \<Rightarrow>
                  (case authorize_supplied_identity T (sy_engine s2) (tt_host target) (snd destination) identity hashes of
                     ((decision, denial_opt), hashes') \<Rightarrow>
                       (case ed_action decision of
                          Deny _ \<Rightarrow>
                            (OpenDenied (case denial_opt of
                                           None \<Rightarrow> PolicyDenied
                                         | Some SuppliedIdentityUnavailable \<Rightarrow> IdentityUnavailable
                                         | Some SuppliedResourceExhausted \<Rightarrow> ResourceExhausted), hashes')
                        | Allow _ \<Rightarrow> (open_upstream T destination target decision s3 now3, hashes'))))"

section \<open>Lemmas\<close>

lemma hydrate_Inr:
  "hydrate_destination_plan T decision = Inr decision' \<longleftrightarrow>
     (\<exists>plan. build_validation_plan (de_cidr (te_dns T)) (ed_host decision) (to_ascii_lowercase (ed_host decision))
               (te_backend_host_gateway T) (te_trusted_host_gateway T)
               (query_allowed_ips (de_rego (te_dns T)) decision) (ed_exact_declared_host decision) = Inr plan
        \<and> decision' = decision\<lparr>ed_destination := Some plan\<rparr>)"
  by (auto simp: hydrate_destination_plan_def)

lemma decision_endpoint_ids_update [simp]:
  "decision_endpoint_ids (decision\<lparr>ed_destination := x\<rparr>) = decision_endpoint_ids decision"
  by (simp add: decision_endpoint_ids_def)

text \<open>A connection to a mapped destination dials the addresses pinned for the decision, filtered by the plan of
  the decision; the name is not resolved again.\<close>

lemma open_upstream_mapped:
  assumes "open_upstream T destination target decision s now = RelayUpstream decision' c" and "tt_intent target \<noteq> None"
  obtains plan m addresses ips where
    "build_validation_plan (de_cidr (te_dns T)) (ed_host decision) (to_ascii_lowercase (ed_host decision))
       (te_backend_host_gateway T) (te_trusted_host_gateway T)
       (query_allowed_ips (de_rego (te_dns T)) decision) (ed_exact_declared_host decision) = Inr plan"
    and "lookup (sy_store s) (fst destination) (snd destination) (ed_policy_generation decision) now = Inr m"
    and "pinned_addresses_for m (decision_endpoint_ids decision) = Inr addresses"
    and "filter_resolved_addresses (de_cidr (te_dns T)) plan (rr_normalized_name (ml_record m)) (snd destination) addresses = Inr ips"
    and "decision' = decision\<lparr>ed_destination := Some (PinnedResolved ips)\<rparr>"
    and "c = \<lparr>uc_host = tt_host target, uc_port = snd destination, uc_addrs = map (\<lambda>ip. (ip, snd destination)) ips\<rparr>"
proof -
  from assms obtain d where d: "hydrate_destination_plan T decision = Inr d"
    by (auto simp: open_upstream_def split: sum.splits)
  then obtain plan where plan: "build_validation_plan (de_cidr (te_dns T)) (ed_host decision) (to_ascii_lowercase (ed_host decision))
       (te_backend_host_gateway T) (te_trusted_host_gateway T)
       (query_allowed_ips (de_rego (te_dns T)) decision) (ed_exact_declared_host decision) = Inr plan"
    and d_eq: "d = decision\<lparr>ed_destination := Some plan\<rparr>" unfolding hydrate_Inr by blast
  from assms(2) obtain i where i: "tt_intent target = Some i" by blast
  have store: "te_has_policy_dns_store T" using assms(1) unfolding open_upstream_def d sum.case i option.case
    by (rule contrapos_pp) simp
  obtain pinned where p: "pinned_transparent_plan (de_cidr (te_dns T)) (sy_store s) destination d now = Inr pinned"
    using assms(1) store unfolding open_upstream_def d sum.case i option.case
    by (cases "pinned_transparent_plan (de_cidr (te_dns T)) (sy_store s) destination d now") simp_all
  have v: "validate_destination (de_cidr (te_dns T)) (te_resolver T) (tt_host target) (snd destination) 0 pinned = Inr c"
    and d': "decision' = d\<lparr>ed_destination := Some pinned\<rparr>"
    using assms(1) store p unfolding open_upstream_def d sum.case i option.case
    by (cases "validate_destination (de_cidr (te_dns T)) (te_resolver T) (tt_host target) (snd destination) 0 pinned"; simp)+
  from p obtain m addresses ips where
    "lookup (sy_store s) (fst destination) (snd destination) (ed_policy_generation decision) now = Inr m"
    "pinned_addresses_for m (decision_endpoint_ids decision) = Inr addresses"
    "filter_resolved_addresses (de_cidr (te_dns T)) plan (rr_normalized_name (ml_record m)) (snd destination) addresses = Inr ips"
    "pinned = PinnedResolved ips"
    by (auto simp: pinned_transparent_plan_def build_pinned_validation_plan_def d_eq split: if_splits)
  then show thesis using that plan v d' by (simp add: validate_destination_def d_eq)
qed

lemma supplied_identity_allows:
  assumes "authorize_supplied_identity T engine host port identity hashes = ((decision, d), hashes')"
    and "ed_action decision = Allow matched"
  obtains i input a where "identity = Inr i" "verify_or_cache_supplied_identity i hashes = (Inr (), hashes')"
    "ni_host input = host" "ni_port input = port" "ni_binary_path input = ei_path (bi_executable i)"
    "ni_binary_sha256 input = the (ei_digest (bi_executable i))"
    "authorize_egress (de_rego (te_dns T)) (te_eval_input T) engine input = Inr a" "ea_action a = Allow matched"
    "ed_host decision = host" "ed_policy_generation decision = oe_generation engine"
    "ed_matched_endpoints decision = ea_matched_endpoints a"
proof -
  from assms obtain i where i: "identity = Inr i"
    by (auto simp: authorize_supplied_identity_def deny_decision_def split: sum.splits)
  from assms i obtain u where u: "verify_or_cache_supplied_identity i hashes = (Inr u, hashes')"
    by (cases "verify_or_cache_supplied_identity i hashes")
      (auto simp: authorize_supplied_identity_def deny_decision_def Let_def split: sum.splits prod.splits)
  define input where "input = \<lparr>ni_host = host, ni_port = port, ni_binary_path = ei_path (bi_executable i),
    ni_binary_sha256 = the (ei_digest (bi_executable i)), ni_ancestors = map ei_path (bi_ancestors i), ni_cmdline_paths = bi_cmdline_paths i\<rparr>"
  from assms i u obtain a where "authorize_egress (de_rego (te_dns T)) (te_eval_input T) engine input = Inr a"
    and "ea_action a = Allow matched" "ed_host decision = host" "ed_policy_generation decision = ea_generation a"
    "ed_matched_endpoints decision = ea_matched_endpoints a"
    by (auto simp: authorize_supplied_identity_def deny_decision_def Let_def input_def split: sum.splits)
  with u show thesis by (intro that [OF i, of input a]) (simp_all add: input_def authorization_generation)
qed

lemma preauthorize_upstream:
  assumes "preauthorize_transparent_open T identity requested s0 s1 now1 s2 s3 now3 hashes = (RelayUpstream decision c, hashes')"
  obtains target decision' d matched where
    "resolve_transparent_target (te_has_policy_dns_store T) (to_canonical (fst requested), snd requested)
      (oe_generation (sy_engine s0)) (sy_store s1) now1 = Inr target"
    "authorize_supplied_identity T (sy_engine s2) (tt_host target) (snd requested) identity hashes = ((decision', d), hashes')"
    "ed_action decision' = Allow matched"
    "open_upstream T (to_canonical (fst requested), snd requested) target decision' s3 now3 = RelayUpstream decision c"
proof -
  obtain target where t: "resolve_transparent_target (te_has_policy_dns_store T) (to_canonical (fst requested), snd requested)
      (oe_generation (sy_engine s0)) (sy_store s1) now1 = Inr target"
    using assms by (auto simp: preauthorize_transparent_open_def Let_def relay_local_def
        split: if_splits sum.splits prod.splits option.splits)
  obtain decision' d h where a: "authorize_supplied_identity T (sy_engine s2) (tt_host target) (snd requested) identity hashes = ((decision', d), h)"
    by (metis prod.collapse)
  have "(case ed_action decision' of Deny _ \<Rightarrow> False
      | Allow _ \<Rightarrow> h = hashes' \<and> open_upstream T (to_canonical (fst requested), snd requested) target decision' s3 now3 = RelayUpstream decision c)"
    using assms a t by (simp add: preauthorize_transparent_open_def Let_def relay_local_def
        split: if_splits sum.splits prod.splits NetworkAction.splits)
  then obtain matched where "ed_action decision' = Allow matched" "h = hashes'"
    "open_upstream T (to_canonical (fst requested), snd requested) target decision' s3 now3 = RelayUpstream decision c"
    by (cases "ed_action decision'") simp_all
  with that [OF t] a show thesis by blast
qed

lemma target_record:
  assumes "resolve_transparent_target has_store destination generation st now = Inr target" and "tt_intent target \<noteq> None"
  shows "\<exists>r. fmlookup (ss_records st) (fst destination) = Some r \<and> tt_host target = rr_normalized_name r"
  using assms
  by (auto simp: resolve_transparent_target_def lookup_intent_def live_record_def
      split: if_splits sum.splits MappingLookupError.splits option.splits)

text \<open>A connection to a synthetic address dials only what the policy that allowed it permits for the name
  that it allowed. Between the steps other queries, reloads and expiry may have happened.\<close>

lemma mapped_dial:
  assumes "pools_ok C" and run: "dns_run (te_dns T) C log tr" and "oe_generation (sy_engine (last tr)) + length tr \<le> 2 ^ 64"
    and s: "s1 \<in> set tr" "s2 \<in> set tr"
    and target: "resolve_transparent_target has_store destination generation (sy_store s1) now1 = Inr target" "tt_intent target \<noteq> None"
    and dial: "open_upstream T destination target decision (hd tr) now3 = RelayUpstream decision' c"
    and gen: "ed_policy_generation decision = oe_generation (sy_engine s2)" and host: "ed_host decision = tt_host target"
    and ip: "(ip, port) \<in> set (uc_addrs c)"
  shows "port = snd destination
    \<and> policy_permits (te_dns T) (sy_engine s2) (tt_host target) port (decision_endpoint_ids decision) ip
    \<and> trusted_source (te_dns T) log (tt_host target) ip
    \<and> \<not> is_cloud_metadata_ip ip
    \<and> (is_always_blocked_ip ip \<longrightarrow> is_host_gateway_alias (to_ascii_lowercase (tt_host target))
         \<and> ip \<in> set_option (te_backend_host_gateway T) \<union> set_option (te_trusted_host_gateway T))"
  using dial target(2)
proof (cases rule: open_upstream_mapped)
  case (1 plan m addresses ips)
  from 1(6) ip have port: "port = snd destination" and "ip \<in> set ips" by auto
  with 1(4) have addr: "address_permitted (de_cidr (te_dns T)) plan port ip" "ip \<in> set addresses"
    unfolding filter_resolved_addresses_iff by auto
  obtain r where r: "fmlookup (ss_records (sy_store s1)) (fst destination) = Some r" "tt_host target = rr_normalized_name r"
    using target_record [OF target] by blast
  have name: "rr_normalized_name (ml_record m) = tt_host target"
    using dns_run_name_stable [OF assms(1) run s(1) r(1) lookup_record(1) [OF 1(2)]] r(2) by simp
  from mapping_justified [OF assms(1) run 1(2,3) addr(2)] obtain x where x: "x \<in> set tr"
    "oe_generation (sy_engine x) = oe_generation (sy_engine s2)"
    "policy_permits (te_dns T) (sy_engine x) (tt_host target) port (decision_endpoint_ids decision) ip"
    "trusted_source (te_dns T) log (tt_host target) ip" unfolding name gen port by blast
  have "sy_engine x = sy_engine s2" using dns_run_generations [OF run assms(3)] x(1,2) s(2) by blast
  with x permitted_by_built_plan [OF 1(1) addr(1)] port show ?thesis unfolding host by simp
qed

section \<open>A small system\<close>

definition sample_pools :: StoreConfig where
  "sample_pools = \<lparr>sc_pools = \<lparr>sp_start4 = v4_new 198 18 0 2, sp_end4 = v4_new 198 18 0 4,
     sp_start6 = 16, sp_end6 = 17\<rparr>, sc_max_mappings = 8\<rparr>"

definition sample_start :: "(unit, (Ipv4Addr \<times> nat, Ipv6Addr \<times> nat) AddressAuthorization) dns_system" where
  "sample_start = \<lparr>sy_engine = \<lparr>oe_engine = (), oe_generation = 0, oe_fail_closed_reason = None\<rparr>, sy_store = store_new sample_pools\<rparr>"

definition sample_query ::
  "string \<Rightarrow> nat \<Rightarrow> (unit, (Ipv4Addr \<times> nat, Ipv6Addr \<times> nat) AddressAuthorization) dns_system
   \<Rightarrow> (PolicyDnsError + SyntheticAnswer) \<times> (Ipv4Addr \<times> nat, Ipv6Addr \<times> nat) AddressAuthorization StoreState" where
  "sample_query raw_name now s = answer_query sample_dns_env sample_pools
     (env_resolver sample_dns_env sample_net)
     (sy_engine s) (sy_engine s) raw_name Ipv4 now 0 (sy_store s)"

definition sample_mapped :: "(unit, (Ipv4Addr \<times> nat, Ipv6Addr \<times> nat) AddressAuthorization) dns_system" where
  "sample_mapped = sample_start\<lparr>sy_store := snd (sample_query ''DB.example.'' 1 sample_start)\<rparr>"

definition sample_open_env :: "(unit, sample_value, string, Ipv4Addr \<times> nat, Ipv6Addr \<times> nat) open_env" where
  "sample_open_env =
     \<lparr>te_dns = sample_dns_env, te_eval_input = (\<lambda>_. sample_eval), te_resolver = sample_env, te_backend_host_gateway = None,
      te_trusted_host_gateway = None, te_has_policy_dns_store = True, te_has_policy_local = False, te_reserved = None\<rparr>"

lemma pools_ok_sample_pools: "pools_ok sample_pools"
  unfolding pools_ok_def
proof
  fix f
  show "fam_first sample_pools f \<le> fam_last sample_pools f \<and> fam_last sample_pools f < fam_max f"
    by (cases f) (simp_all add: fam_first_def fam_last_def fam_max_def sample_pools_def v4_new_def unat_of_nat)
qed

definition sample_log :: "string dns_event list" where
  "sample_log = [\<lparr>dq_name = ''DB.example.'', dq_family = Ipv4, dq_network = sample_net\<rparr>]"

lemma sample_run: "dns_run sample_dns_env sample_pools sample_log [sample_mapped, sample_start]"
proof -
  have start: "dns_run sample_dns_env sample_pools [] [sample_start]" unfolding sample_start_def by (rule run_start)
  show ?thesis unfolding sample_mapped_def sample_log_def sample_query_def
    by (rule run_query [where s0 = sample_start and q = "\<lparr>dq_name = ''DB.example.'', dq_family = Ipv4, dq_network = sample_net\<rparr>",
        unfolded dns_event.simps, OF start _ prod.collapse [symmetric]]) simp
qed

end
