(* ===== verification/Gateway_Ring.thy ===== *)
theory Gateway_Ring
  imports Prelude "HOL-Library.Product_Lexorder"
begin

text \<open>
  The consistent hash ring that maps sandboxes to gateway replicas
  (\<open>crates/openshell-server/src/gateway_ring.rs\<close>). SHA-256 is a parameter: a function from the
  bytes of a key to the bytes of its digest.
\<close>

section \<open>Definitions\<close>

definition VIRTUAL_NODES_PER_REPLICA :: nat where "VIRTUAL_NODES_PER_REPLICA = 128"

record GatewayRing =
  gr_points :: "(nat \<times> string) list"

text \<open>\<open>u64::from_be_bytes\<close> of the first eight bytes of the digest.\<close>

definition from_be_bytes :: "string \<Rightarrow> nat" where
  "from_be_bytes bytes = foldl (\<lambda>acc b. acc * 256 + byte b) 0 bytes"

definition hash_point :: "(string \<Rightarrow> string) \<Rightarrow> string \<Rightarrow> nat" where
  "hash_point sha256 key = from_be_bytes (take 8 (sha256 key))"

definition replica_points :: "(string \<Rightarrow> string) \<Rightarrow> string \<Rightarrow> (nat \<times> string) list" where
  "replica_points sha256 replica_id =
     (if replica_id = [] then []
      else map (\<lambda>vnode. (hash_point sha256 (replica_id @ ''#'' @ show_nat vnode), replica_id))
             [0..<VIRTUAL_NODES_PER_REPLICA])"

definition GatewayRing_new :: "(string \<Rightarrow> string) \<Rightarrow> string list \<Rightarrow> GatewayRing" where
  "GatewayRing_new sha256 replica_ids =
     \<lparr>gr_points = sort_dedup (concat (map (replica_points sha256) replica_ids))\<rparr>"

definition ring_is_empty :: "GatewayRing \<Rightarrow> bool" where
  "ring_is_empty ring = (gr_points ring = [])"

definition replica_count :: "GatewayRing \<Rightarrow> nat" where
  "replica_count ring = length (sort_dedup (map snd (gr_points ring)))"

text \<open>\<open>slice::partition_point\<close>, on a slice partitioned by the predicate.\<close>

definition partition_point :: "('a \<Rightarrow> bool) \<Rightarrow> 'a list \<Rightarrow> nat" where
  "partition_point P xs = length (takeWhile P xs)"

definition owner_for :: "(string \<Rightarrow> string) \<Rightarrow> GatewayRing \<Rightarrow> string \<Rightarrow> string option" where
  "owner_for sha256 ring sandbox_id =
     (if gr_points ring = [] then None
      else
        let point = hash_point sha256 sandbox_id;
            index = partition_point (\<lambda>(candidate, _). candidate < point) (gr_points ring);
            index = (if index = length (gr_points ring) then 0 else index)
        in Some (snd (gr_points ring ! index)))"

definition ring_without :: "GatewayRing \<Rightarrow> string \<Rightarrow> GatewayRing" where
  "ring_without ring replica_id = ring\<lparr>gr_points := filter (\<lambda>(_, id). id \<noteq> replica_id) (gr_points ring)\<rparr>"

section \<open>Lemmas\<close>

subsection \<open>Membership\<close>

lemma set_replica_points:
  "set (replica_points sha256 r) = (if r = [] then {} else
     (\<lambda>vnode. (hash_point sha256 (r @ ''#'' @ show_nat vnode), r)) ` {..<VIRTUAL_NODES_PER_REPLICA})"
  by (auto simp: replica_points_def)

lemma set_ring_points: "set (gr_points (GatewayRing_new sha256 ids)) = (\<Union>r\<in>set ids. set (replica_points sha256 r))"
  by (simp add: GatewayRing_new_def)

lemma replica_points_owner: "p \<in> set (replica_points sha256 r) \<Longrightarrow> snd p = r \<and> r \<noteq> []"
  by (auto simp: set_replica_points split: if_splits)

lemma ring_owners: "snd ` set (gr_points (GatewayRing_new sha256 ids)) = set ids - {[]}"
proof -
  have "snd ` set (replica_points sha256 r) = (if r = [] then {} else {r})" for r
    by (simp add: set_replica_points image_image image_constant_conv VIRTUAL_NODES_PER_REPLICA_def lessThan_empty_iff)
  then show ?thesis by (auto simp: set_ring_points image_UN split: if_splits)
qed

lemma ring_sorted: "sorted (gr_points (GatewayRing_new sha256 ids))"
  and ring_distinct: "distinct (gr_points (GatewayRing_new sha256 ids))"
  by (simp_all add: GatewayRing_new_def)

text \<open>The ring depends on the set of replicas only.\<close>

lemma ring_new_cong:
  assumes "set ids - {[]} = set ids' - {[]}"
  shows "GatewayRing_new sha256 ids = GatewayRing_new sha256 ids'"
proof -
  have "(\<Union>r\<in>set xs. set (replica_points sha256 r)) = (\<Union>r\<in>set xs - {[]}. set (replica_points sha256 r))" for xs
    by (force simp: set_replica_points split: if_splits)
  from this [of ids] this [of ids'] assms
  have "(\<Union>r\<in>set ids. set (replica_points sha256 r)) = (\<Union>r\<in>set ids'. set (replica_points sha256 r))"
    by (simp only:)
  then show ?thesis by (simp add: GatewayRing_new_def sort_dedup_eq_iff)
qed

lemma ring_without_new: "ring_without (GatewayRing_new sha256 ids) r = GatewayRing_new sha256 (filter (\<lambda>i. i \<noteq> r) ids)"
proof -
  have "filter (\<lambda>(_, id). id \<noteq> r) (gr_points (GatewayRing_new sha256 ids))
      = gr_points (GatewayRing_new sha256 (filter (\<lambda>i. i \<noteq> r) ids))"
  proof (rule sorted_distinct_set_unique)
    show "set (filter (\<lambda>(_, id). id \<noteq> r) (gr_points (GatewayRing_new sha256 ids)))
        = set (gr_points (GatewayRing_new sha256 (filter (\<lambda>i. i \<noteq> r) ids)))"
      by (auto simp: set_ring_points) (metis replica_points_owner snd_conv)+
  qed (simp_all add: ring_sorted ring_distinct sorted_wrt_filter)
  then show ?thesis by (simp add: ring_without_def)
qed

subsection \<open>Clockwise search\<close>

text \<open>The points in the order in which the search meets them: those at or after the key, then all.\<close>

definition clockwise :: "nat \<Rightarrow> (nat \<times> string) list \<Rightarrow> (nat \<times> string) list" where
  "clockwise point ps = filter (\<lambda>p. point \<le> fst p) ps @ ps"

lemma takeWhile_sorted:
  assumes "sorted ps"
  shows "drop (length (takeWhile (\<lambda>(c, _). c < point) ps)) ps = filter (\<lambda>p. point \<le> fst (p :: nat \<times> string)) ps"
  using assms
proof (induction ps)
  case (Cons p ps)
  show ?case
  proof (cases "fst p < point")
    case False
    then have "\<forall>q\<in>set ps. point \<le> fst q" using Cons.prems by (force simp: less_eq_prod_def)
    then have "filter (\<lambda>p. point \<le> fst p) ps = ps" by simp
    with False show ?thesis by (simp add: case_prod_beta)
  qed (use Cons in \<open>simp add: case_prod_beta\<close>)
qed simp

lemma owner_for_clockwise:
  assumes "sorted (gr_points ring)"
  shows "owner_for sha256 ring s = (if gr_points ring = [] then None
     else Some (snd (hd (clockwise (hash_point sha256 s) (gr_points ring)))))"
proof -
  define ps where "ps = gr_points ring"
  define n where "n = partition_point (\<lambda>(c, _). c < hash_point sha256 s) ps"
  have d: "drop n ps = filter (\<lambda>p. hash_point sha256 s \<le> fst p) ps"
    unfolding n_def partition_point_def ps_def by (rule takeWhile_sorted [OF assms])
  have n: "n \<le> length ps" by (simp add: n_def partition_point_def length_takeWhile_le)
  have "ps \<noteq> [] \<Longrightarrow> ps ! (if n = length ps then 0 else n) = hd (clockwise (hash_point sha256 s) ps)"
    using n by (auto simp: clockwise_def d [symmetric] hd_append hd_conv_nth hd_drop_conv_nth)
  then show ?thesis unfolding owner_for_def Let_def ps_def [symmetric] n_def [symmetric] by (cases "ps = []") simp_all
qed

lemma hd_filter: "xs \<noteq> [] \<Longrightarrow> P (hd xs) \<Longrightarrow> hd (filter P xs) = hd xs"
  by (cases xs) auto

lemma clockwise_filter: "clockwise point (filter P ps) = filter P (clockwise point ps)"
  by (simp add: clockwise_def conj_commute)

lemma clockwise_hd_in: "ps \<noteq> [] \<Longrightarrow> hd (clockwise point ps) \<in> set ps"
proof -
  assume "ps \<noteq> []"
  then have "hd (clockwise point ps) \<in> set (clockwise point ps)" by (intro hd_in_set) (simp add: clockwise_def)
  then show ?thesis by (auto simp: clockwise_def)
qed

lemma owner_for_member:
  assumes "sorted (gr_points ring)" and "owner_for sha256 ring s = Some r"
  shows "r \<in> snd ` set (gr_points ring)"
  using assms clockwise_hd_in by (auto simp: owner_for_clockwise split: if_splits)

lemma owner_for_without:
  assumes "sorted (gr_points ring)" and "owner_for sha256 ring s \<noteq> Some r"
  shows "owner_for sha256 (ring_without ring r) s = owner_for sha256 ring s"
proof (cases "gr_points ring = []")
  case False
  let ?ps = "gr_points ring" and ?h = "hash_point sha256 s" and ?P = "\<lambda>(_, id). id \<noteq> r"
  have ne: "clockwise ?h ?ps \<noteq> []" using False by (simp add: clockwise_def)
  have P: "?P (hd (clockwise ?h ?ps))" using assms False by (auto simp: owner_for_clockwise split: prod.split)
  then have "hd (clockwise ?h (filter ?P ?ps)) = hd (clockwise ?h ?ps)"
    unfolding clockwise_filter by (rule hd_filter [OF ne])
  moreover have "filter ?P ?ps \<noteq> []"
    using P clockwise_hd_in [OF False, of ?h] by (auto simp: filter_empty_conv)
  ultimately show ?thesis using False assms(1)
    by (simp add: owner_for_clockwise ring_without_def sorted_wrt_filter)
qed (simp add: owner_for_def ring_without_def)

section \<open>Properties\<close>

text \<open>C34. Replicas agree on placement without coordinating. The ring is the same whatever the order in
  which the members are listed and however often a member or a blank name is listed, and taking a
  replica out of a ring gives the ring built from the remaining replicas.\<close>
theorem ring_agreement:
  assumes "set ids - {[]} = set ids' - {[]}"
  shows "GatewayRing_new sha256 ids = GatewayRing_new sha256 ids'
    \<and> ring_without (GatewayRing_new sha256 ids) r = GatewayRing_new sha256 (filter (\<lambda>i. i \<noteq> r) ids')
    \<and> replica_count (GatewayRing_new sha256 ids) = card (set ids' - {[]})"
proof -
  have "replica_count (GatewayRing_new sha256 ids') = card (set (sort_dedup (map snd (gr_points (GatewayRing_new sha256 ids')))))"
    unfolding replica_count_def by (rule distinct_card [symmetric]) simp
  then have "replica_count (GatewayRing_new sha256 ids') = card (set ids' - {[]})"
    by (simp add: ring_owners)
  with ring_new_cong [OF assms, of sha256] show ?thesis by (simp add: ring_without_new)
qed

theorem ring_agreement_witness:
  "GatewayRing_new (\<lambda>key. key) [''gw-1'', [], ''gw-0''] = GatewayRing_new (\<lambda>key. key) [''gw-0'', ''gw-1'', ''gw-0'']"
  using ring_agreement [of "[''gw-1'', [], ''gw-0'']" "[''gw-0'', ''gw-1'', ''gw-0'']" "\<lambda>key. key"] by (simp add: insert_commute insert_Diff_if)

text \<open>C31. Membership changes move as little as possible. Every sandbox has an owner exactly when there is
  a named replica, and the owner is one of them. When a replica leaves, the sandboxes it did not own
  stay where they were and the others go to remaining replicas; when one joins, a sandbox stays or
  moves to the new replica.\<close>
theorem ring_minimal_movement:
  "(owner_for sha256 (GatewayRing_new sha256 ids) s = None \<longleftrightarrow> set ids \<subseteq> {[]})
   \<and> set_option (owner_for sha256 (GatewayRing_new sha256 ids) s) \<subseteq> set ids - {[]}
   \<and> owner_for sha256 (GatewayRing_new sha256 (filter (\<lambda>i. i \<noteq> r) ids)) s \<noteq> Some r
   \<and> owner_for sha256 (GatewayRing_new sha256 ids) s
       \<in> {Some r, owner_for sha256 (GatewayRing_new sha256 (filter (\<lambda>i. i \<noteq> r) ids)) s}
   \<and> owner_for sha256 (GatewayRing_new sha256 (r # ids)) s
       \<in> {Some r, owner_for sha256 (GatewayRing_new sha256 ids) s}"
proof -
  let ?own = "\<lambda>ids. owner_for sha256 (GatewayRing_new sha256 ids) s"
  have mem: "set_option (?own ids) \<subseteq> set ids - {[]}" for ids
    using owner_for_member [OF ring_sorted, of sha256 sha256 ids s] unfolding ring_owners by (auto split: option.splits)
  have rest: "?own (filter (\<lambda>i. i \<noteq> r) ids) \<noteq> Some r" using mem [of "filter (\<lambda>i. i \<noteq> r) ids"] by fastforce
  have leave: "?own ids \<in> {Some r, ?own (filter (\<lambda>i. i \<noteq> r) ids)}" for ids
    using owner_for_without [OF ring_sorted, of sha256 sha256 ids s r]
    by (cases "?own ids = Some r") (simp_all add: ring_without_new)
  have "?own ids = None \<longleftrightarrow> gr_points (GatewayRing_new sha256 ids) = []" by (simp add: owner_for_def Let_def)
  also have "\<dots> \<longleftrightarrow> set ids \<subseteq> {[]}" using ring_owners [of sha256 ids]
    by (metis Diff_eq_empty_iff image_is_empty set_empty)
  finally have none: "?own ids = None \<longleftrightarrow> set ids \<subseteq> {[]}" .
  have "?own (r # ids) \<in> {Some r, ?own ids}"
  proof (cases "r \<in> set ids")
    case True
    then have "set (r # ids) - {[]} = set ids - {[]}" by auto
    from ring_new_cong [OF this, of sha256] show ?thesis by simp
  next
    case False
    then have "filter (\<lambda>i. i \<noteq> r) (r # ids) = ids" by (auto simp: filter_id_conv)
    with leave [of "r # ids"] show ?thesis by simp
  qed
  with none mem [of ids] leave [of ids] rest show ?thesis by (intro conjI)
qed

end
