(* ===== verification/Object_Store.thy ===== *)
theory Object_Store
  imports Prelude "HOL-Library.Product_Lexorder"
begin

text \<open>
  The object store of the gateway (\<open>persistence/sqlite.rs\<close>, \<open>persistence/mod.rs\<close>): one table of
  versioned rows shared by all replicas. Every SQL statement is a function on the table; a transaction
  is one step. Errors of the database itself leave the table alone and are left out. The unversioned
  \<open>put\<close> is compiled for tests only and is left out too. The lemmas show the uniqueness constraints,
  what the versions mean to a writer that compares them, and that paging through a listing finds
  every row once.
\<close>

section \<open>Definitions\<close>

subsection \<open>The table\<close>

record object_row =
  ro_object_type :: string
  ro_name :: "string option"
  ro_workspace :: string
  ro_scope :: "string option"
  ro_version :: "int option"
  ro_status :: "string option"
  ro_dedup_key :: "string option"
  ro_hit_count :: int
  ro_payload :: string
  ro_created_at_ms :: int
  ro_updated_at_ms :: int
  ro_labels :: "string option"
  ro_resource_version :: nat

text \<open>The primary key is \<open>id\<close>.\<close>

type_synonym objects = "object_row smap"

text \<open>\<open>NullName\<close> is the panic of \<open>row.get("name")\<close> on a row without a name.\<close>

datatype PersistenceError =
    Database string | DecodeError string | EncodeError string | Pagination string | UniqueViolation
  | Conflict "nat option" | NullName

record ObjectRecord =
  or_object_type :: string
  or_id :: string
  or_name :: string
  or_workspace :: string
  or_payload :: string
  or_created_at_ms :: int
  or_updated_at_ms :: int
  or_labels :: "string option"
  or_resource_version :: nat

record WriteResult =
  wr_resource_version :: nat
  wr_created_at_ms :: int
  wr_updated_at_ms :: int

datatype WriteCondition = MustCreate | MatchResourceVersion nat | Unconditional

datatype AtomicWrite =
    Create string string string string string
  | Update string string string nat
  | Delete string string nat

definition POLICY_OBJECT_TYPE :: string where "POLICY_OBJECT_TYPE = ''sandbox_policy''"
definition DRAFT_CHUNK_OBJECT_TYPE :: string where "DRAFT_CHUNK_OBJECT_TYPE = ''draft_policy_chunk''"

text \<open>The three unique indexes of the schema. An index entry with a missing column conflicts with nothing.\<close>

definition same_name :: "object_row \<Rightarrow> object_row \<Rightarrow> bool" where
  "same_name r r' = (ro_object_type r = ro_object_type r' \<and> ro_workspace r = ro_workspace r'
     \<and> ro_name r = ro_name r' \<and> ro_name r \<noteq> None)"

definition same_version :: "object_row \<Rightarrow> object_row \<Rightarrow> bool" where
  "same_version r r' = (ro_object_type r = ro_object_type r' \<and> ro_scope r = ro_scope r' \<and> ro_scope r \<noteq> None
     \<and> ro_version r = ro_version r' \<and> ro_version r \<noteq> None)"

definition same_dedup_key :: "object_row \<Rightarrow> object_row \<Rightarrow> bool" where
  "same_dedup_key r r' = (ro_object_type r = ro_object_type r' \<and> ro_scope r = ro_scope r' \<and> ro_scope r \<noteq> None
     \<and> ro_dedup_key r = ro_dedup_key r' \<and> ro_dedup_key r \<noteq> None)"

definition find_row :: "(object_row \<Rightarrow> bool) \<Rightarrow> objects \<Rightarrow> (string \<times> object_row) option" where
  "find_row P tbl = List.find (\<lambda>(i, r). P r) (fm_items tbl)"

definition insert_row :: "string \<Rightarrow> object_row \<Rightarrow> objects \<Rightarrow> PersistenceError + objects" where
  "insert_row i row tbl =
     (if fm_contains tbl i
         \<or> find_row (\<lambda>r. same_name row r \<or> same_version row r \<or> same_dedup_key row r) tbl \<noteq> None
      then Inl UniqueViolation else Inr (fmupd i row tbl))"

text \<open>\<open>INSERT ... ON CONFLICT (target) DO UPDATE\<close>: the target is checked before the other constraints.\<close>

definition upsert_row ::
  "(object_row \<Rightarrow> object_row \<Rightarrow> bool) \<Rightarrow> (object_row \<Rightarrow> object_row) \<Rightarrow> string \<Rightarrow> object_row \<Rightarrow> objects
   \<Rightarrow> PersistenceError + (string \<times> object_row) \<times> objects" where
  "upsert_row target do_update i row tbl =
     (case find_row (target row) tbl of
        Some (j, old) \<Rightarrow> Inr ((j, do_update old), fmupd j (do_update old) tbl)
      | None \<Rightarrow> bindE (insert_row i row tbl) (\<lambda>tbl'. Inr ((i, row), tbl')))"

definition delete_rows :: "(string \<Rightarrow> object_row \<Rightarrow> bool) \<Rightarrow> objects \<Rightarrow> nat \<times> objects" where
  "delete_rows P tbl =
     (length (filter (\<lambda>(i, r). P i r) (fm_items tbl)),
      fmfilter (\<lambda>i. case fmlookup tbl i of None \<Rightarrow> True | Some r \<Rightarrow> \<not> P i r) tbl)"

definition update_rows :: "(string \<Rightarrow> object_row \<Rightarrow> bool) \<Rightarrow> (object_row \<Rightarrow> object_row) \<Rightarrow> objects \<Rightarrow> nat \<times> objects" where
  "update_rows P f tbl =
     (length (filter (\<lambda>(i, r). P i r) (fm_items tbl)), fmmap_keys (\<lambda>i r. if P i r then f r else r) tbl)"

definition row_to_object_record :: "string \<Rightarrow> object_row \<Rightarrow> PersistenceError + ObjectRecord" where
  "row_to_object_record i row =
     (case ro_name row of
        None \<Rightarrow> Inl NullName
      | Some name \<Rightarrow>
          Inr \<lparr>or_object_type = ro_object_type row, or_id = i, or_name = name, or_workspace = ro_workspace row,
               or_payload = ro_payload row, or_created_at_ms = ro_created_at_ms row, or_updated_at_ms = ro_updated_at_ms row,
               or_labels = ro_labels row, or_resource_version = max 1 (ro_resource_version row)\<rparr>)"

definition write_result_from_row :: "object_row \<Rightarrow> WriteResult" where
  "write_result_from_row row =
     \<lparr>wr_resource_version = max 1 (ro_resource_version row), wr_created_at_ms = ro_created_at_ms row,
      wr_updated_at_ms = ro_updated_at_ms row\<rparr>"

definition labels_or_empty :: "string option \<Rightarrow> string option" where
  "labels_or_empty labels = Some (case labels of None \<Rightarrow> ''{}'' | Some l \<Rightarrow> l)"

definition new_row :: "int \<Rightarrow> string \<Rightarrow> string \<Rightarrow> string \<Rightarrow> string option \<Rightarrow> string \<Rightarrow> string option \<Rightarrow> object_row" where
  "new_row now_ms object_type name workspace scope payload labels =
     \<lparr>ro_object_type = object_type, ro_name = Some name, ro_workspace = workspace, ro_scope = scope, ro_version = None,
      ro_status = None, ro_dedup_key = None, ro_hit_count = 0, ro_payload = payload, ro_created_at_ms = now_ms,
      ro_updated_at_ms = now_ms, ro_labels = labels_or_empty labels, ro_resource_version = 1\<rparr>"

subsection \<open>Reading\<close>

definition get :: "string \<Rightarrow> string \<Rightarrow> objects \<Rightarrow> PersistenceError + ObjectRecord option" where
  "get object_type i tbl =
     (case fmlookup tbl i of
        None \<Rightarrow> Inr None
      | Some row \<Rightarrow>
          if ro_object_type row = object_type then bindE (row_to_object_record i row) (\<lambda>r. Inr (Some r)) else Inr None)"

definition get_by_name :: "string \<Rightarrow> string \<Rightarrow> string \<Rightarrow> objects \<Rightarrow> PersistenceError + ObjectRecord option" where
  "get_by_name object_type workspace name tbl =
     (case find_row (\<lambda>r. ro_object_type r = object_type \<and> ro_workspace r = workspace \<and> ro_name r = Some name) tbl of
        None \<Rightarrow> Inr None
      | Some (i, row) \<Rightarrow> bindE (row_to_object_record i row) (\<lambda>r. Inr (Some r)))"

definition count_in_workspace :: "string \<Rightarrow> string \<Rightarrow> objects \<Rightarrow> nat" where
  "count_in_workspace object_type workspace tbl =
     length (filter (\<lambda>(i, r). ro_object_type r = object_type \<and> ro_workspace r = workspace) (fm_items tbl))"

subsection \<open>Writing\<close>

text \<open>A version is bound as a signed 64-bit integer.\<close>

definition bind_version :: "nat \<Rightarrow> nat" where
  "bind_version v = min v (2 ^ 63 - 1)"

definition matches_version :: "string \<Rightarrow> string \<Rightarrow> nat \<Rightarrow> objects \<Rightarrow> object_row option" where
  "matches_version object_type i expected tbl =
     (case fmlookup tbl i of
        None \<Rightarrow> None
      | Some row \<Rightarrow>
          if ro_object_type row = object_type \<and> ro_resource_version row = bind_version expected then Some row else None)"

definition insert_new_object ::
  "int \<Rightarrow> string \<Rightarrow> string \<Rightarrow> string \<Rightarrow> string \<Rightarrow> string \<Rightarrow> string option \<Rightarrow> objects \<Rightarrow> (PersistenceError + WriteResult) \<times> objects" where
  "insert_new_object now_ms object_type i name workspace payload labels tbl =
     (case insert_row i (new_row now_ms object_type name workspace None payload labels) tbl of
        Inl e \<Rightarrow> (Inl e, tbl)
      | Inr tbl' \<Rightarrow> (Inr \<lparr>wr_resource_version = 1, wr_created_at_ms = now_ms, wr_updated_at_ms = now_ms\<rparr>, tbl'))"

text \<open>The version that a conflict reports is read by a second statement, here from the same table.\<close>

definition put_if ::
  "int \<Rightarrow> string \<Rightarrow> string \<Rightarrow> string \<Rightarrow> string \<Rightarrow> string \<Rightarrow> string option \<Rightarrow> WriteCondition \<Rightarrow> objects
   \<Rightarrow> (PersistenceError + WriteResult) \<times> objects" where
  "put_if now_ms object_type i name workspace payload labels condition tbl =
     (case condition of
        MustCreate \<Rightarrow> insert_new_object now_ms object_type i name workspace payload labels tbl
      | MatchResourceVersion expected_version \<Rightarrow>
          (case matches_version object_type i expected_version tbl of
             Some row \<Rightarrow>
               let row' = row\<lparr>ro_payload := payload, ro_labels := labels_or_empty labels, ro_updated_at_ms := now_ms,
                              ro_resource_version := ro_resource_version row + 1\<rparr>
               in (Inr (write_result_from_row row'), fmupd i row' tbl)
           | None \<Rightarrow>
               (case get object_type i tbl of
                  Inl e \<Rightarrow> (Inl e, tbl)
                | Inr existing \<Rightarrow> (Inl (Conflict (map_option or_resource_version existing)), tbl)))
      | Unconditional \<Rightarrow>
          (case upsert_row same_name
                  (\<lambda>old. old\<lparr>ro_payload := payload, ro_updated_at_ms := now_ms, ro_labels := labels_or_empty labels,
                             ro_resource_version := ro_resource_version old + 1\<rparr>)
                  i (new_row now_ms object_type name workspace None payload labels) tbl of
             Inl e \<Rightarrow> (Inl e, tbl)
           | Inr ((_, row), tbl') \<Rightarrow> (Inr (write_result_from_row row), tbl')))"

definition create_relaxed ::
  "int \<Rightarrow> string \<Rightarrow> string \<Rightarrow> string \<Rightarrow> string \<Rightarrow> string \<Rightarrow> string option \<Rightarrow> objects \<Rightarrow> (PersistenceError + WriteResult) \<times> objects" where
  "create_relaxed = insert_new_object"

definition delete_if :: "string \<Rightarrow> string \<Rightarrow> nat \<Rightarrow> objects \<Rightarrow> (PersistenceError + bool) \<times> objects" where
  "delete_if object_type i expected_resource_version tbl =
     (case matches_version object_type i expected_resource_version tbl of
        Some _ \<Rightarrow> (Inr True, fmdrop i tbl)
      | None \<Rightarrow>
          (case get object_type i tbl of
             Inl e \<Rightarrow> (Inl e, tbl)
           | Inr (Some rec) \<Rightarrow> (Inl (Conflict (Some (or_resource_version rec))), tbl)
           | Inr None \<Rightarrow> (Inr False, tbl)))"

text \<open>The writes of a group run in the order of their keys, inside one transaction.\<close>

definition atomic_write_key :: "AtomicWrite \<Rightarrow> string \<times> string" where
  "atomic_write_key w =
     (case w of Create object_type i _ _ _ \<Rightarrow> (object_type, i) | Update object_type i _ _ \<Rightarrow> (object_type, i)
      | Delete object_type i _ \<Rightarrow> (object_type, i))"

definition atomic_write_order :: "AtomicWrite list \<Rightarrow> nat list" where
  "atomic_write_order writes = sort_key (\<lambda>index. atomic_write_key (writes ! index)) [0..<length writes]"

definition atomic_write :: "int \<Rightarrow> AtomicWrite \<Rightarrow> objects \<Rightarrow> PersistenceError + WriteResult option \<times> objects" where
  "atomic_write now_ms w tbl =
     (case w of
        Create object_type i name workspace payload \<Rightarrow>
          bindE (insert_row i (new_row now_ms object_type name workspace None payload None) tbl)
            (\<lambda>tbl'. Inr (Some \<lparr>wr_resource_version = 1, wr_created_at_ms = now_ms, wr_updated_at_ms = now_ms\<rparr>, tbl'))
      | Update object_type i payload expected_version \<Rightarrow>
          (case matches_version object_type i expected_version tbl of
             None \<Rightarrow> Inl (Conflict None)
           | Some row \<Rightarrow>
               let row' = row\<lparr>ro_payload := payload, ro_updated_at_ms := now_ms, ro_resource_version := ro_resource_version row + 1\<rparr>
               in Inr (Some (write_result_from_row row'), fmupd i row' tbl))
      | Delete object_type i expected_version \<Rightarrow>
          (case matches_version object_type i expected_version tbl of
             None \<Rightarrow> Inl (Conflict None)
           | Some _ \<Rightarrow> Inr (None, fmdrop i tbl)))"

definition write_atomically ::
  "int \<Rightarrow> AtomicWrite list \<Rightarrow> objects \<Rightarrow> (PersistenceError + WriteResult option list) \<times> objects" where
  "write_atomically now_ms writes tbl =
     (case foldE (\<lambda>(results, tbl) index. bindE (atomic_write now_ms (writes ! index) tbl)
                    (\<lambda>(result, tbl'). Inr (results[index := result], tbl')))
             (replicate (length writes) None, tbl) (atomic_write_order writes) of
        Inl e \<Rightarrow> (Inl e, tbl)
      | Inr (results, tbl') \<Rightarrow> (Inr results, tbl'))"

definition put_scoped ::
  "int \<Rightarrow> string \<Rightarrow> string \<Rightarrow> string \<Rightarrow> string \<Rightarrow> string \<Rightarrow> string \<Rightarrow> string option \<Rightarrow> objects \<Rightarrow> (PersistenceError + unit) \<times> objects" where
  "put_scoped now_ms object_type i name workspace scope payload labels tbl =
     (case upsert_row same_name
             (\<lambda>old. old\<lparr>ro_scope := Some scope, ro_payload := payload, ro_updated_at_ms := now_ms,
                        ro_labels := labels_or_empty labels, ro_resource_version := ro_resource_version old + 1\<rparr>)
             i (new_row now_ms object_type name workspace (Some scope) payload labels) tbl of
        Inl e \<Rightarrow> (Inl e, tbl)
      | Inr (_, tbl') \<Rightarrow> (Inr (), tbl'))"

definition create_scoped ::
  "int \<Rightarrow> string \<Rightarrow> string \<Rightarrow> string \<Rightarrow> string \<Rightarrow> string \<Rightarrow> string \<Rightarrow> string option \<Rightarrow> objects
   \<Rightarrow> (PersistenceError + WriteResult) \<times> objects" where
  "create_scoped now_ms object_type i name workspace scope payload labels tbl =
     (case insert_row i (new_row now_ms object_type name workspace (Some scope) payload labels) tbl of
        Inl e \<Rightarrow> (Inl e, tbl)
      | Inr tbl' \<Rightarrow> (Inr \<lparr>wr_resource_version = 1, wr_created_at_ms = now_ms, wr_updated_at_ms = now_ms\<rparr>, tbl'))"

definition create_if_workspace_count_below ::
  "int \<Rightarrow> string \<Rightarrow> string \<Rightarrow> string \<Rightarrow> string \<Rightarrow> string \<Rightarrow> string option \<Rightarrow> nat \<Rightarrow> objects
   \<Rightarrow> (PersistenceError + WriteResult option) \<times> objects" where
  "create_if_workspace_count_below now_ms object_type i name workspace payload labels max_count tbl =
     (if count_in_workspace object_type workspace tbl \<ge> max_count then (Inr None, tbl)
      else case insert_row i (new_row now_ms object_type name workspace None payload labels) tbl of
             Inl e \<Rightarrow> (Inl e, tbl)
           | Inr tbl' \<Rightarrow> (Inr (Some \<lparr>wr_resource_version = 1, wr_created_at_ms = now_ms, wr_updated_at_ms = now_ms\<rparr>), tbl'))"

definition delete :: "string \<Rightarrow> string \<Rightarrow> objects \<Rightarrow> bool \<times> objects" where
  "delete object_type i tbl =
     (case delete_rows (\<lambda>j r. ro_object_type r = object_type \<and> j = i) tbl of (n, tbl') \<Rightarrow> (n > 0, tbl'))"

definition DELETE_MANY_BATCH_SIZE :: nat where "DELETE_MANY_BATCH_SIZE = 128"

text \<open>One batch of \<open>delete_many\<close>, which is one statement; other writers may run between the batches.\<close>

definition delete_batch :: "string \<Rightarrow> string list \<Rightarrow> objects \<Rightarrow> nat \<times> objects" where
  "delete_batch object_type ids tbl = delete_rows (\<lambda>i r. ro_object_type r = object_type \<and> i \<in> set ids) tbl"

definition delete_all_in_workspace :: "string \<Rightarrow> string \<Rightarrow> objects \<Rightarrow> nat \<times> objects" where
  "delete_all_in_workspace object_type workspace tbl =
     delete_rows (\<lambda>i r. ro_object_type r = object_type \<and> ro_workspace r = workspace) tbl"

definition delete_by_scope :: "string \<Rightarrow> string \<Rightarrow> objects \<Rightarrow> nat \<times> objects" where
  "delete_by_scope object_type scope tbl =
     delete_rows (\<lambda>i r. ro_object_type r = object_type \<and> ro_scope r = Some scope) tbl"

definition delete_by_name :: "string \<Rightarrow> string \<Rightarrow> string \<Rightarrow> objects \<Rightarrow> bool \<times> objects" where
  "delete_by_name object_type workspace name tbl =
     (case delete_rows (\<lambda>i r. ro_object_type r = object_type \<and> ro_workspace r = workspace \<and> ro_name r = Some name) tbl of
        (n, tbl') \<Rightarrow> (n > 0, tbl'))"

subsection \<open>Policy revisions and draft chunks\<close>

text \<open>Their rows have no name. The payload is the encoded record.\<close>

definition scoped_row ::
  "string \<Rightarrow> string \<Rightarrow> int option \<Rightarrow> string \<Rightarrow> string option \<Rightarrow> int \<Rightarrow> string \<Rightarrow> int \<Rightarrow> int \<Rightarrow> string \<Rightarrow> object_row" where
  "scoped_row object_type scope version status dedup_key hit_count payload created updated workspace =
     \<lparr>ro_object_type = object_type, ro_name = None, ro_workspace = workspace, ro_scope = Some scope, ro_version = version,
      ro_status = Some status, ro_dedup_key = dedup_key, ro_hit_count = hit_count, ro_payload = payload,
      ro_created_at_ms = created, ro_updated_at_ms = updated, ro_labels = None, ro_resource_version = 1\<rparr>"

definition put_policy_revision ::
  "int \<Rightarrow> string \<Rightarrow> string \<Rightarrow> string \<Rightarrow> int \<Rightarrow> string \<Rightarrow> objects \<Rightarrow> (PersistenceError + unit) \<times> objects" where
  "put_policy_revision now_ms i sandbox_id workspace version wrapped_payload tbl =
     (case insert_row i (scoped_row POLICY_OBJECT_TYPE sandbox_id (Some version) ''pending'' None 0 wrapped_payload now_ms now_ms workspace) tbl of
        Inl e \<Rightarrow> (Inl e, tbl)
      | Inr tbl' \<Rightarrow> (Inr (), tbl'))"

definition put_initial_policy_revision ::
  "int \<Rightarrow> string \<Rightarrow> string \<Rightarrow> string \<Rightarrow> string \<Rightarrow> string \<Rightarrow> objects \<Rightarrow> objects" where
  "put_initial_policy_revision created_at_ms i sandbox_id status workspace wrapped_payload tbl =
     (if (case fmlookup tbl sandbox_id of None \<Rightarrow> False | Some r \<Rightarrow> ro_object_type r = ''sandbox'')
         \<and> find_row (\<lambda>r. ro_object_type r = POLICY_OBJECT_TYPE \<and> ro_scope r = Some sandbox_id) tbl = None
      then (case insert_row i (scoped_row POLICY_OBJECT_TYPE sandbox_id (Some 1) status None 0 wrapped_payload
                                 created_at_ms created_at_ms workspace) tbl of
              Inl _ \<Rightarrow> tbl
            | Inr tbl' \<Rightarrow> tbl')
      else tbl)"

definition older_active :: "string \<Rightarrow> int \<Rightarrow> object_row \<Rightarrow> bool" where
  "older_active sandbox_id before_version r =
     (ro_object_type r = POLICY_OBJECT_TYPE \<and> ro_scope r = Some sandbox_id
      \<and> (case ro_version r of None \<Rightarrow> False | Some v \<Rightarrow> v < before_version)
      \<and> ro_status r \<in> {Some ''pending'', Some ''loaded''})"

definition supersede_older_policies :: "int \<Rightarrow> string \<Rightarrow> int \<Rightarrow> objects \<Rightarrow> nat \<times> objects" where
  "supersede_older_policies now_ms sandbox_id before_version tbl =
     update_rows (\<lambda>_. older_active sandbox_id before_version)
       (\<lambda>r. r\<lparr>ro_status := Some ''superseded'', ro_updated_at_ms := now_ms\<rparr>) tbl"

text \<open>The sandbox message, with the fields that a policy revision touches; its binary form is generated code.\<close>

record StoredSandbox =
  ss_policy :: "string option option"
  ss_annotations :: "string smap option"
  ss_configuration_activated :: "bool option"
  ss_admission_state :: "int option"

record sandbox_codec =
  sandbox_decode :: "string \<Rightarrow> PersistenceError + StoredSandbox"
  sandbox_encode :: "string \<Rightarrow> StoredSandbox \<Rightarrow> string"

record AtomicPolicyRevisionWrite =
  aw_id :: string
  aw_sandbox_id :: string
  aw_workspace :: string
  aw_version :: int
  aw_expected_resource_version :: nat
  aw_annotations :: "string smap"
  aw_backfill_policy :: "string option"

text \<open>The states 1 and 3 of an admission are pending and rejected.\<close>

definition permits_initial_static_policy_repair :: "StoredSandbox \<Rightarrow> bool" where
  "permits_initial_static_policy_repair sandbox =
     (ss_configuration_activated sandbox = Some False \<and> ss_admission_state sandbox \<in> {Some 1, Some 3})"

definition backfill :: "AtomicPolicyRevisionWrite \<Rightarrow> nat \<Rightarrow> StoredSandbox \<Rightarrow> PersistenceError + StoredSandbox \<times> bool" where
  "backfill w current_version sandbox =
     (case aw_backfill_policy w of
        None \<Rightarrow> Inr (sandbox, False)
      | Some policy \<Rightarrow>
          (case ss_policy sandbox of
             None \<Rightarrow> Inl (DecodeError ''sandbox payload missing spec'')
           | Some None \<Rightarrow> Inr (sandbox\<lparr>ss_policy := Some (Some policy)\<rparr>, True)
           | Some (Some current) \<Rightarrow>
               if current = policy then Inr (sandbox, False)
               else if permits_initial_static_policy_repair sandbox then Inr (sandbox\<lparr>ss_policy := Some (Some policy)\<rparr>, True)
               else Inl (Conflict (Some current_version))))"

definition annotate :: "AtomicPolicyRevisionWrite \<Rightarrow> StoredSandbox \<Rightarrow> bool \<Rightarrow> PersistenceError + StoredSandbox \<times> bool" where
  "annotate w sandbox changed =
     (if fm_is_empty (aw_annotations w) then Inr (sandbox, changed)
      else case ss_annotations sandbox of
             None \<Rightarrow> Inl (DecodeError ''sandbox payload missing metadata'')
           | Some annotations \<Rightarrow>
               Inr (sandbox\<lparr>ss_annotations := Some (annotations ++\<^sub>f aw_annotations w)\<rparr>,
                    changed \<or> (\<exists>(key, value) \<in> set (fm_items (aw_annotations w)). fmlookup annotations key \<noteq> Some value)))"

definition project_policy_revision_onto_sandbox ::
  "sandbox_codec \<Rightarrow> AtomicPolicyRevisionWrite \<Rightarrow> string \<Rightarrow> nat \<Rightarrow> PersistenceError + StoredSandbox \<times> bool" where
  "project_policy_revision_onto_sandbox C w payload current_version =
     (if aw_expected_resource_version w \<noteq> 0 \<and> aw_expected_resource_version w \<noteq> current_version
      then Inl (Conflict (Some current_version))
      else bindE (sandbox_decode C payload) (\<lambda>sandbox.
           bindE (backfill w current_version sandbox) (\<lambda>(sandbox', changed). annotate w sandbox' changed)))"

definition put_policy_revision_atomic ::
  "sandbox_codec \<Rightarrow> int \<Rightarrow> string \<Rightarrow> AtomicPolicyRevisionWrite \<Rightarrow> objects \<Rightarrow> (PersistenceError + StoredSandbox \<times> nat) \<times> objects" where
  "put_policy_revision_atomic C now_ms wrapped_payload w tbl =
     (case fmlookup tbl (aw_sandbox_id w) of
        None \<Rightarrow> (Inl (Database ''sandbox object not found''), tbl)
      | Some row \<Rightarrow>
          if ro_object_type row \<noteq> ''sandbox'' then (Inl (Database ''sandbox object not found''), tbl)
          else
            let current_version = max 1 (ro_resource_version row)
            in case project_policy_revision_onto_sandbox C w (ro_payload row) current_version of
                 Inl e \<Rightarrow> (Inl e, tbl)
               | Inr (sandbox, changed) \<Rightarrow>
                   if changed \<and> ro_resource_version row \<noteq> bind_version current_version then (Inl (Conflict (Some current_version)), tbl)
                   else
                     let tbl' = (if changed
                                 then fmupd (aw_sandbox_id w)
                                        (row\<lparr>ro_payload := sandbox_encode C (ro_payload row) sandbox, ro_updated_at_ms := now_ms,
                                             ro_resource_version := ro_resource_version row + 1\<rparr>) tbl
                                 else tbl)
                     in case insert_row (aw_id w)
                               (scoped_row POLICY_OBJECT_TYPE (aw_sandbox_id w) (Some (aw_version w)) ''pending'' None 0
                                  wrapped_payload now_ms now_ms (aw_workspace w)) tbl' of
                          Inl e \<Rightarrow> (Inl e, tbl)
                        | Inr tbl'' \<Rightarrow>
                            (Inr (sandbox, if changed then current_version + 1 else current_version),
                             snd (supersede_older_policies now_ms (aw_sandbox_id w) (aw_version w) tbl'')))"

text \<open>The update statements of a revision and of draft chunks. The new payload is computed from a record that
  an earlier statement read.\<close>

definition update_policy_status :: "int \<Rightarrow> string \<Rightarrow> int \<Rightarrow> string \<Rightarrow> string \<Rightarrow> objects \<Rightarrow> nat \<times> objects" where
  "update_policy_status now_ms sandbox_id version status payload tbl =
     update_rows (\<lambda>_ r. ro_object_type r = POLICY_OBJECT_TYPE \<and> ro_scope r = Some sandbox_id \<and> ro_version r = Some version)
       (\<lambda>r. r\<lparr>ro_status := Some status, ro_payload := payload, ro_updated_at_ms := now_ms\<rparr>) tbl"

definition update_draft_chunk_status :: "int \<Rightarrow> string \<Rightarrow> string \<Rightarrow> string \<Rightarrow> objects \<Rightarrow> nat \<times> objects" where
  "update_draft_chunk_status now_ms i status payload tbl =
     update_rows (\<lambda>j r. ro_object_type r = DRAFT_CHUNK_OBJECT_TYPE \<and> j = i)
       (\<lambda>r. r\<lparr>ro_status := Some status, ro_payload := payload, ro_updated_at_ms := now_ms\<rparr>) tbl"

definition conditionally_reject_draft_chunk :: "int \<Rightarrow> string \<Rightarrow> string \<Rightarrow> objects \<Rightarrow> nat \<times> objects" where
  "conditionally_reject_draft_chunk now_ms i payload tbl =
     update_rows (\<lambda>j r. ro_object_type r = DRAFT_CHUNK_OBJECT_TYPE \<and> j = i \<and> ro_status r = Some ''pending'')
       (\<lambda>r. r\<lparr>ro_status := Some ''rejected'', ro_payload := payload, ro_updated_at_ms := now_ms\<rparr>) tbl"

definition update_draft_chunk_rule :: "int \<Rightarrow> string \<Rightarrow> string \<Rightarrow> objects \<Rightarrow> nat \<times> objects" where
  "update_draft_chunk_rule now_ms i payload tbl =
     update_rows (\<lambda>j r. ro_object_type r = DRAFT_CHUNK_OBJECT_TYPE \<and> j = i \<and> ro_status r = Some ''pending'')
       (\<lambda>r. r\<lparr>ro_payload := payload, ro_updated_at_ms := now_ms\<rparr>) tbl"

definition update_draft_chunk_evaluation :: "int \<Rightarrow> string \<Rightarrow> string \<Rightarrow> objects \<Rightarrow> nat \<times> objects" where
  "update_draft_chunk_evaluation last_seen_ms i payload tbl =
     update_rows (\<lambda>j r. ro_object_type r = DRAFT_CHUNK_OBJECT_TYPE \<and> j = i \<and> ro_status r \<in> {Some ''pending'', Some ''rejected''})
       (\<lambda>r. r\<lparr>ro_payload := payload, ro_updated_at_ms := last_seen_ms\<rparr>) tbl"

definition update_draft_chunk_evaluation_if_unchanged :: "int \<Rightarrow> string \<Rightarrow> string \<Rightarrow> string \<Rightarrow> objects \<Rightarrow> nat \<times> objects" where
  "update_draft_chunk_evaluation_if_unchanged last_seen_ms i stored_payload payload tbl =
     update_rows (\<lambda>j r. ro_object_type r = DRAFT_CHUNK_OBJECT_TYPE \<and> j = i \<and> ro_status r \<in> {Some ''pending'', Some ''rejected''}
                    \<and> ro_payload r = stored_payload)
       (\<lambda>r. r\<lparr>ro_payload := payload, ro_updated_at_ms := last_seen_ms\<rparr>) tbl"

text \<open>The newest revision: descending versions, then descending creation times.\<close>

definition latest_revision :: "(object_row \<Rightarrow> bool) \<Rightarrow> string \<Rightarrow> objects \<Rightarrow> (string \<times> object_row) option" where
  "latest_revision P sandbox_id tbl =
     (case sort_key (\<lambda>(i, r). (case ro_version r of None \<Rightarrow> (1 :: nat, 0) | Some v \<Rightarrow> (0, - v), - ro_created_at_ms r))
             (filter (\<lambda>(i, r). ro_object_type r = POLICY_OBJECT_TYPE \<and> ro_scope r = Some sandbox_id \<and> P r) (fm_items tbl)) of
        [] \<Rightarrow> None | x # _ \<Rightarrow> Some x)"

definition put_draft_chunk ::
  "string \<Rightarrow> string \<Rightarrow> string \<Rightarrow> string option \<Rightarrow> int \<Rightarrow> string \<Rightarrow> int \<Rightarrow> int \<Rightarrow> string \<Rightarrow> objects \<Rightarrow> (PersistenceError + string) \<times> objects" where
  "put_draft_chunk i sandbox_id status dedup_key hit_count payload first_seen_ms last_seen_ms workspace tbl =
     (case upsert_row same_dedup_key
             (\<lambda>old. old\<lparr>ro_hit_count := ro_hit_count old + hit_count, ro_updated_at_ms := last_seen_ms\<rparr>)
             i (scoped_row DRAFT_CHUNK_OBJECT_TYPE sandbox_id None status dedup_key hit_count payload first_seen_ms last_seen_ms workspace) tbl of
        Inl e \<Rightarrow> (Inl e, tbl)
      | Inr ((j, _), tbl') \<Rightarrow> (Inr j, tbl'))"

definition IMAGE_STATE_OBJECT_TYPE :: string where "IMAGE_STATE_OBJECT_TYPE = ''sandbox_image_state''"

definition state_id :: "string \<Rightarrow> string" where "state_id sandbox_id = ''sandbox-image-state:'' @ sandbox_id"

text \<open>The transaction that moves a sandbox and its private image state together (\<open>sandbox_image.rs\<close>).\<close>

definition write_image_state :: "int \<Rightarrow> string \<Rightarrow> string \<Rightarrow> string \<Rightarrow> objects \<Rightarrow> PersistenceError + objects" where
  "write_image_state now_ms i state_payload state_status tbl =
     (case fmlookup tbl i of
        None \<Rightarrow>
          insert_row i
            \<lparr>ro_object_type = IMAGE_STATE_OBJECT_TYPE, ro_name = None, ro_workspace = [], ro_scope = None, ro_version = None,
             ro_status = Some state_status, ro_dedup_key = None, ro_hit_count = 0, ro_payload = state_payload,
             ro_created_at_ms = now_ms, ro_updated_at_ms = now_ms, ro_labels = None, ro_resource_version = 1\<rparr> tbl
      | Some old \<Rightarrow>
          if ro_object_type old = IMAGE_STATE_OBJECT_TYPE \<and> ro_name old = None \<and> ro_workspace old = []
          then Inr (fmupd i (old\<lparr>ro_payload := state_payload, ro_updated_at_ms := now_ms, ro_status := Some state_status,
                                 ro_resource_version := ro_resource_version old + 1\<rparr>) tbl)
          else Inl (Database ''sandbox image state identity is already occupied''))"

definition write_projection ::
  "int \<Rightarrow> string \<Rightarrow> nat \<Rightarrow> string \<Rightarrow> string \<Rightarrow> string \<Rightarrow> bool \<Rightarrow> objects \<Rightarrow> (PersistenceError + unit) \<times> objects" where
  "write_projection now_ms sandbox_id previous_version sandbox_payload labels state_payload pending tbl =
     (if previous_version \<ge> 2 ^ 63 then (Inl (EncodeError ''sandbox resource version exceeds database range''), tbl)
      else case matches_version ''sandbox'' sandbox_id previous_version tbl of
             None \<Rightarrow> (Inl (Conflict (Some previous_version)), tbl)
           | Some row \<Rightarrow>
               let tbl' = fmupd sandbox_id (row\<lparr>ro_payload := sandbox_payload, ro_updated_at_ms := now_ms,
                                              ro_resource_version := ro_resource_version row + 1, ro_labels := Some labels\<rparr>) tbl
               in case write_image_state now_ms (state_id sandbox_id) state_payload (if pending then ''pending'' else ''completed'') tbl' of
                    Inl e \<Rightarrow> (Inl e, tbl)
                  | Inr tbl'' \<Rightarrow> (Inr (), tbl''))"

text \<open>\<open>decode\<close> is the check of the stored sandbox message against its id.\<close>

definition delete_sandbox_with_image_state_if ::
  "(string \<Rightarrow> string \<Rightarrow> PersistenceError + unit) \<Rightarrow> string \<Rightarrow> nat \<Rightarrow> objects \<Rightarrow> (PersistenceError + bool) \<times> objects" where
  "delete_sandbox_with_image_state_if decode sandbox_id expected_resource_version tbl =
     (case fmlookup tbl sandbox_id of
        None \<Rightarrow> (Inr False, tbl)
      | Some row \<Rightarrow>
          if ro_object_type row \<noteq> ''sandbox'' then (Inr False, tbl)
          else if ro_resource_version row < 1 then (Inl (Database ''invalid sandbox resource version''), tbl)
          else case decode sandbox_id (ro_payload row) of
                 Inl e \<Rightarrow> (Inl e, tbl)
               | Inr _ \<Rightarrow>
                   if ro_resource_version row \<noteq> expected_resource_version
                   then (Inl (Conflict (Some (ro_resource_version row))), tbl)
                   else (Inr True, snd (delete IMAGE_STATE_OBJECT_TYPE (state_id sandbox_id) (snd (delete ''sandbox'' sandbox_id tbl)))))"

definition delete_draft_chunks :: "string \<Rightarrow> string \<Rightarrow> objects \<Rightarrow> nat \<times> objects" where
  "delete_draft_chunks sandbox_id status tbl =
     delete_rows (\<lambda>i r. ro_object_type r = DRAFT_CHUNK_OBJECT_TYPE \<and> ro_scope r = Some sandbox_id \<and> ro_status r = Some status) tbl"

subsection \<open>Listing\<close>



















subsection \<open>Histories\<close>

text \<open>One statement or transaction of any writer. A group of writes names an object at most once.\<close>

inductive objects_step :: "objects \<Rightarrow> objects \<Rightarrow> bool" where
  step_put_if: "objects_step tbl (snd (put_if now_ms object_type i name workspace payload labels condition tbl))"
| step_create_relaxed: "objects_step tbl (snd (create_relaxed now_ms object_type i name workspace payload labels tbl))"
| step_delete_if: "objects_step tbl (snd (delete_if object_type i expected tbl))"
| step_write_atomically: "distinct (map atomic_write_key writes) \<Longrightarrow> objects_step tbl (snd (write_atomically now_ms writes tbl))"
| step_put_scoped: "objects_step tbl (snd (put_scoped now_ms object_type i name workspace scope payload labels tbl))"
| step_create_scoped: "objects_step tbl (snd (create_scoped now_ms object_type i name workspace scope payload labels tbl))"
| step_create_below: "objects_step tbl (snd (create_if_workspace_count_below now_ms object_type i name workspace payload labels max_count tbl))"
| step_delete: "objects_step tbl (snd (delete object_type i tbl))"
| step_delete_batch: "objects_step tbl (snd (delete_batch object_type ids tbl))"
| step_delete_workspace: "objects_step tbl (snd (delete_all_in_workspace object_type workspace tbl))"
| step_delete_scope: "objects_step tbl (snd (delete_by_scope object_type scope tbl))"
| step_delete_name: "objects_step tbl (snd (delete_by_name object_type workspace name tbl))"
| step_policy: "objects_step tbl (snd (put_policy_revision now_ms i sandbox_id workspace version payload tbl))"
| step_initial_policy: "objects_step tbl (put_initial_policy_revision now_ms i sandbox_id status workspace payload tbl)"
| step_supersede: "objects_step tbl (snd (supersede_older_policies now_ms sandbox_id before tbl))"
| step_draft: "objects_step tbl (snd (put_draft_chunk i sandbox_id status dedup_key hits payload first_seen last_seen workspace tbl))"
| step_policy_atomic: "objects_step tbl (snd (put_policy_revision_atomic C now_ms payload w tbl))"
| step_policy_status: "objects_step tbl (snd (update_policy_status now_ms sandbox_id version status payload tbl))"
| step_draft_status: "objects_step tbl (snd (update_draft_chunk_status now_ms i status payload tbl))"
| step_draft_reject: "objects_step tbl (snd (conditionally_reject_draft_chunk now_ms i payload tbl))"
| step_draft_rule: "objects_step tbl (snd (update_draft_chunk_rule now_ms i payload tbl))"
| step_draft_evaluation: "objects_step tbl (snd (update_draft_chunk_evaluation last_seen_ms i payload tbl))"
| step_draft_unchanged: "objects_step tbl (snd (update_draft_chunk_evaluation_if_unchanged last_seen_ms i stored_payload payload tbl))"
| step_projection: "objects_step tbl (snd (write_projection now_ms i previous payload lbls state_payload pending tbl))"
| step_delete_sandbox: "objects_step tbl (snd (delete_sandbox_with_image_state_if decode i expected tbl))"
| step_delete_drafts: "objects_step tbl (snd (delete_draft_chunks sandbox_id status tbl))"

section \<open>Lemmas\<close>

subsection \<open>Rows\<close>

lemma find_row_Some: "find_row P tbl = Some (i, r) \<Longrightarrow> fmlookup tbl i = Some r \<and> P r"
  unfolding find_row_def find_Some_iff by (metis nth_mem set_fm_items case_prod_conv mem_Collect_eq)

lemma find_row_None: "find_row P tbl = None \<longleftrightarrow> (\<forall>i r. fmlookup tbl i = Some r \<longrightarrow> \<not> P r)"
  unfolding find_row_def find_None_iff using set_fm_items [of _ _ tbl] by auto

lemma insert_row_Inr:
  "insert_row i row tbl = Inr tbl' \<longleftrightarrow> fmlookup tbl i = None \<and> tbl' = fmupd i row tbl
     \<and> (\<forall>j r. fmlookup tbl j = Some r \<longrightarrow> \<not> same_name row r \<and> \<not> same_version row r \<and> \<not> same_dedup_key row r)"
  by (auto simp: insert_row_def fm_contains_def find_row_None split: if_splits)

lemma matches_version_Some:
  "matches_version object_type i v tbl = Some row \<longleftrightarrow>
     fmlookup tbl i = Some row \<and> ro_object_type row = object_type \<and> ro_resource_version row = bind_version v"
  by (auto simp: matches_version_def split: option.splits)

lemma delete_rows_lookup: "fmlookup (snd (delete_rows P tbl)) i = (case fmlookup tbl i of None \<Rightarrow> None | Some r \<Rightarrow> if P i r then None else Some r)"
  by (auto simp: delete_rows_def split: option.splits)

subsection \<open>The invariant\<close>

text \<open>Rows without a name are policy revisions, draft chunks and image states. Rows with a name have no revision number
  and no key for deduplication.\<close>

definition unnamed_type :: "string \<Rightarrow> bool" where
  "unnamed_type object_type \<longleftrightarrow> object_type \<in> {POLICY_OBJECT_TYPE, DRAFT_CHUNK_OBJECT_TYPE, IMAGE_STATE_OBJECT_TYPE}"

definition row_ok :: "object_row \<Rightarrow> bool" where
  "row_ok r \<longleftrightarrow> 1 \<le> ro_resource_version r
     \<and> (case ro_name r of None \<Rightarrow> unnamed_type (ro_object_type r) | Some _ \<Rightarrow> ro_version r = None \<and> ro_dedup_key r = None)"

definition rows_conflict :: "object_row \<Rightarrow> object_row \<Rightarrow> bool" where
  "rows_conflict r r' \<longleftrightarrow> same_name r r' \<or> same_version r r' \<or> same_dedup_key r r'"

definition objects_inv :: "objects \<Rightarrow> bool" where
  "objects_inv tbl \<longleftrightarrow> (\<forall>i r. fmlookup tbl i = Some r \<longrightarrow> row_ok r
     \<and> (\<forall>j r'. fmlookup tbl j = Some r' \<longrightarrow> j \<noteq> i \<longrightarrow> \<not> rows_conflict r r'))"

lemma rows_conflict_sym: "rows_conflict r r' = rows_conflict r' r"
  unfolding rows_conflict_def same_name_def same_version_def same_dedup_key_def by metis

text \<open>How a row may be updated: its identity stays, and its version grows by one, except that the status of
  an unnamed row changes without a new version.\<close>

definition row_update :: "object_row \<Rightarrow> object_row \<Rightarrow> bool" where
  "row_update r r' \<longleftrightarrow> ro_object_type r' = ro_object_type r \<and> ro_name r' = ro_name r \<and> ro_workspace r' = ro_workspace r
     \<and> ro_version r' = ro_version r \<and> ro_dedup_key r' = ro_dedup_key r \<and> ro_created_at_ms r' = ro_created_at_ms r
     \<and> (ro_scope r' = ro_scope r \<or> ro_name r \<noteq> None)
     \<and> (ro_resource_version r' = ro_resource_version r + 1
        \<or> ro_resource_version r' = ro_resource_version r \<and> (r' = r \<or> unnamed_type (ro_object_type r)))"

text \<open>A change of the table: one insertion, or updates and deletions of rows.\<close>

inductive table_change :: "objects \<Rightarrow> objects \<Rightarrow> bool" where
  change_insert: "insert_row i row tbl = Inr tbl' \<Longrightarrow> row_ok row \<Longrightarrow> ro_resource_version row = 1 \<Longrightarrow> table_change tbl tbl'"
| change_rows: "(\<And>i. fmlookup tbl' i = None \<or> (\<exists>r r'. fmlookup tbl i = Some r \<and> fmlookup tbl' i = Some r' \<and> row_update r r'))
     \<Longrightarrow> table_change tbl tbl'"

lemma row_update_refl: "row_update r r"
  by (simp add: row_update_def)

lemma row_update_ok: "row_update r r' \<Longrightarrow> row_ok r \<Longrightarrow> row_ok r'"
  by (auto simp: row_update_def row_ok_def split: option.splits)

lemma row_update_conflict:
  assumes "row_update r r'" "row_ok r" "row_update x x'" "row_ok x" "rows_conflict r' x'"
  shows "rows_conflict r x"
proof (cases "ro_name r = None \<and> ro_name x = None")
  case True
  with assms(1,3) have "ro_scope r' = ro_scope r" "ro_scope x' = ro_scope x" by (auto simp: row_update_def)
  with assms(1,3,5) show ?thesis
    by (auto simp: row_update_def rows_conflict_def same_name_def same_version_def same_dedup_key_def)
next
  case False
  then show ?thesis using assms
    by (auto simp: row_update_def row_ok_def rows_conflict_def same_name_def same_version_def same_dedup_key_def split: option.splits)
qed

lemma table_change_inv:
  assumes "table_change tbl tbl'" and "objects_inv tbl"
  shows "objects_inv tbl'"
  using assms(1)
proof cases
  case (change_insert i row)
  then have "fmlookup tbl i = None" "tbl' = fmupd i row tbl"
    and c: "\<And>j r. fmlookup tbl j = Some r \<Longrightarrow> \<not> rows_conflict row r"
    by (auto simp: insert_row_Inr rows_conflict_def)
  then show ?thesis using assms(2) change_insert(2) rows_conflict_sym
    unfolding objects_inv_def by (auto split: if_splits)
next
  case change_rows
  show ?thesis unfolding objects_inv_def
  proof (intro allI impI conjI)
    fix i r'
    assume r': "fmlookup tbl' i = Some r'"
    with change_rows [of i] obtain r where r: "fmlookup tbl i = Some r" "row_update r r'" by auto
    have ok: "row_ok r" using r(1) assms(2) unfolding objects_inv_def by blast
    with row_update_ok r(2) show "row_ok r'" by blast
    fix j x'
    assume x': "fmlookup tbl' j = Some x'" "j \<noteq> i"
    with change_rows [of j] obtain x where x: "fmlookup tbl j = Some x" "row_update x x'" by auto
    then have "row_ok x" "\<not> rows_conflict r x" using r(1) x'(2) assms(2) unfolding objects_inv_def by blast+
    then show "\<not> rows_conflict r' x'" using row_update_conflict [OF r(2) ok x(2)] by blast
  qed
qed

text \<open>Every operation is such a change; a group of writes is a sequence of them.\<close>

lemma change_same: "table_change tbl tbl"
  by (rule change_rows) (use row_update_refl in fastforce)

lemma change_update: "fmlookup tbl i = Some r \<Longrightarrow> row_update r r' \<Longrightarrow> table_change tbl (fmupd i r' tbl)"
  by (rule change_rows) (use row_update_refl in \<open>fastforce split: if_splits\<close>)

lemma change_delete: "table_change tbl (snd (delete_rows P tbl))"
  by (rule change_rows) (auto simp: delete_rows_lookup row_update_refl split: option.splits)

lemma change_drop: "table_change tbl (fmdrop i tbl)"
  by (rule change_rows) (use row_update_refl in \<open>fastforce split: if_splits\<close>)

lemma new_row_ok: "row_ok (new_row now_ms object_type name workspace scope payload labels)"
  "ro_resource_version (new_row now_ms object_type name workspace scope payload labels) = 1"
  by (simp_all add: row_ok_def new_row_def)

lemma scoped_row_ok: "unnamed_type object_type \<Longrightarrow> row_ok (scoped_row object_type scope version status dedup hits payload created updated workspace)"
  "ro_resource_version (scoped_row object_type scope version status dedup hits payload created updated workspace) = 1"
  by (simp_all add: row_ok_def scoped_row_def)

lemma upsert_change:
  assumes "upsert_row target f i row tbl = Inr (x, tbl')"
    and "\<And>old. target row old \<Longrightarrow> row_update old (f old)" and "row_ok row" "ro_resource_version row = 1"
  shows "table_change tbl tbl'"
proof (cases "find_row (target row) tbl")
  case None
  then show ?thesis using assms by (auto simp: upsert_row_def intro: change_insert)
next
  case (Some a)
  then obtain j old where "find_row (target row) tbl = Some (j, old)" by (cases a) auto
  moreover from find_row_Some [OF this] have "fmlookup tbl j = Some old" "target row old" by auto
  ultimately show ?thesis using assms by (auto simp: upsert_row_def intro: change_update)
qed

lemma unnamed_types [simp]: "unnamed_type POLICY_OBJECT_TYPE" "unnamed_type DRAFT_CHUNK_OBJECT_TYPE" "unnamed_type IMAGE_STATE_OBJECT_TYPE"
  by (simp_all add: unnamed_type_def)

lemma put_if_change: "table_change tbl (snd (put_if now_ms object_type i name workspace payload labels condition tbl))"
proof (cases condition)
  case MustCreate
  then show ?thesis
    by (auto simp: put_if_def insert_new_object_def change_same split: sum.splits intro: change_insert new_row_ok)
next
  case (MatchResourceVersion v)
  then show ?thesis
    by (auto simp: put_if_def Let_def matches_version_Some change_same split: option.splits sum.splits
        intro!: change_update simp: row_update_def)
next
  case Unconditional
  have "table_change tbl tbl'" if "upsert_row same_name
      (\<lambda>old. old\<lparr>ro_payload := payload, ro_updated_at_ms := now_ms, ro_labels := labels_or_empty labels,
         ro_resource_version := ro_resource_version old + 1\<rparr>)
      i (new_row now_ms object_type name workspace None payload labels) tbl = Inr (x, tbl')" for x tbl'
    by (rule upsert_change [OF that]) (simp_all add: row_update_def new_row_ok)
  then show ?thesis using Unconditional by (auto simp: put_if_def change_same split: sum.splits)
qed

lemma put_scoped_change: "table_change tbl (snd (put_scoped now_ms object_type i name workspace scope payload labels tbl))"
proof -
  have "table_change tbl tbl'" if "upsert_row same_name
      (\<lambda>old. old\<lparr>ro_scope := Some scope, ro_payload := payload, ro_updated_at_ms := now_ms, ro_labels := labels_or_empty labels,
         ro_resource_version := ro_resource_version old + 1\<rparr>)
      i (new_row now_ms object_type name workspace (Some scope) payload labels) tbl = Inr (x, tbl')" for x tbl'
    by (rule upsert_change [OF that]) (auto simp: row_update_def new_row_ok same_name_def)
  then show ?thesis by (auto simp: put_scoped_def change_same split: sum.splits)
qed

lemma put_draft_change:
  "table_change tbl (snd (put_draft_chunk i sandbox_id status dedup_key hits payload first_seen last_seen workspace tbl))"
proof -
  have "table_change tbl tbl'" if "upsert_row same_dedup_key
      (\<lambda>old. old\<lparr>ro_hit_count := ro_hit_count old + hits, ro_updated_at_ms := last_seen\<rparr>)
      i (scoped_row DRAFT_CHUNK_OBJECT_TYPE sandbox_id None status dedup_key hits payload first_seen last_seen workspace) tbl
      = Inr (x, tbl')" for x tbl'
    by (rule upsert_change [OF that]) (auto simp: row_update_def scoped_row_ok same_dedup_key_def, simp add: scoped_row_def)
  then show ?thesis by (auto simp: put_draft_chunk_def change_same split: sum.splits)
qed

lemma update_rows_lookup: "fmlookup (snd (update_rows P f tbl)) i = (case fmlookup tbl i of None \<Rightarrow> None | Some r \<Rightarrow> Some (if P i r then f r else r))"
  by (cases "fmlookup tbl i") (simp_all add: update_rows_def)

lemma change_updates: "(\<And>i r. fmlookup tbl i = Some r \<Longrightarrow> P i r \<Longrightarrow> row_update r (f r)) \<Longrightarrow> table_change tbl (snd (update_rows P f tbl))"
  by (rule change_rows) (auto simp: update_rows_lookup row_update_refl split: option.splits)

lemma update_ops_change:
  "table_change tbl (snd (supersede_older_policies now_ms sandbox_id before tbl))"
  "table_change tbl (snd (update_policy_status now_ms sandbox_id version status payload tbl))"
  "table_change tbl (snd (update_draft_chunk_status now_ms i status payload tbl))"
  "table_change tbl (snd (conditionally_reject_draft_chunk now_ms i payload tbl))"
  "table_change tbl (snd (update_draft_chunk_rule now_ms i payload tbl))"
  "table_change tbl (snd (update_draft_chunk_evaluation last_seen_ms i payload tbl))"
  "table_change tbl (snd (update_draft_chunk_evaluation_if_unchanged last_seen_ms i stored_payload payload tbl))"
  unfolding supersede_older_policies_def update_policy_status_def update_draft_chunk_status_def conditionally_reject_draft_chunk_def
    update_draft_chunk_rule_def update_draft_chunk_evaluation_def update_draft_chunk_evaluation_if_unchanged_def
  by (rule change_updates; simp add: row_update_def older_active_def)+

lemma atomic_write_change: "atomic_write now_ms w tbl = Inr (x, tbl') \<Longrightarrow> table_change tbl tbl'"
  by (auto simp: atomic_write_def Let_def matches_version_Some row_update_def split: AtomicWrite.splits option.splits
      intro: change_insert new_row_ok change_drop intro!: change_update)

text \<open>The object of a type, as a client that reads by type and id sees it.\<close>

definition object_at :: "string \<Rightarrow> string \<Rightarrow> objects \<Rightarrow> object_row option" where
  "object_at object_type i tbl =
     (case fmlookup tbl i of None \<Rightarrow> None | Some r \<Rightarrow> if ro_object_type r = object_type then Some r else None)"

definition object_change :: "object_row option \<Rightarrow> object_row option \<Rightarrow> bool" where
  "object_change old new \<longleftrightarrow> new = None \<or> new = old \<or> (\<exists>r r'. old = Some r \<and> new = Some r' \<and> row_update r r')
     \<or> old = None \<and> (\<exists>r. new = Some r \<and> ro_resource_version r = 1)"

lemma table_change_object:
  assumes "table_change tbl tbl'"
  shows "object_change (object_at object_type i tbl) (object_at object_type i tbl')"
  using assms
proof cases
  case (change_insert j row)
  then show ?thesis by (auto simp: object_at_def object_change_def insert_row_Inr split: option.splits)
next
  case change_rows
  from change_rows [of i] show ?thesis by (auto simp: object_at_def object_change_def row_update_def split: option.splits)
qed

lemma object_at_simps:
  "object_at object_type i (fmupd j r tbl) =
     (if i = j then (if ro_object_type r = object_type then Some r else None) else object_at object_type i tbl)"
  "object_at object_type i (fmdrop j tbl) = (if i = j then None else object_at object_type i tbl)"
  by (simp_all add: object_at_def)

lemma object_at_other: "fmlookup tbl i = Some r \<Longrightarrow> ro_object_type r \<noteq> object_type \<Longrightarrow> object_at object_type i tbl = None"
  "fmlookup tbl i = None \<Longrightarrow> object_at object_type i tbl = None"
  by (simp_all add: object_at_def)

lemma atomic_write_frame:
  assumes "atomic_write now_ms w tbl = Inr (x, tbl')" and "atomic_write_key w \<noteq> (object_type, i)"
  shows "object_at object_type i tbl' = object_at object_type i tbl"
proof (cases w)
  case (Create t j name workspace payload)
  then have "fmlookup tbl j = None" "tbl' = fmupd j (new_row now_ms t name workspace None payload None) tbl" "(t, j) \<noteq> (object_type, i)"
    using assms by (auto simp: atomic_write_def atomic_write_key_def insert_row_Inr)
  then show ?thesis by (auto simp: object_at_simps object_at_other new_row_def)
next
  case (Update t j payload v)
  then obtain row where row: "matches_version t j v tbl = Some row" using assms(1)
    by (cases "matches_version t j v tbl") (simp_all add: atomic_write_def)
  with assms(1) Update have "tbl' = fmupd j (row\<lparr>ro_payload := payload, ro_updated_at_ms := now_ms,
      ro_resource_version := ro_resource_version row + 1\<rparr>) tbl" by (auto simp: atomic_write_def Let_def)
  then show ?thesis using assms(2) Update row
    by (auto simp: atomic_write_key_def matches_version_Some object_at_simps object_at_other)
next
  case (Delete t j v)
  then obtain row where row: "matches_version t j v tbl = Some row" using assms(1)
    by (cases "matches_version t j v tbl") (simp_all add: atomic_write_def)
  with assms(1) Delete have "tbl' = fmdrop j tbl" by (auto simp: atomic_write_def)
  then show ?thesis using assms(2) Delete row
    by (auto simp: atomic_write_key_def matches_version_Some object_at_simps object_at_other)
qed

abbreviation atomic_fold :: "int \<Rightarrow> AtomicWrite list \<Rightarrow> WriteResult option list \<times> objects \<Rightarrow> nat list
    \<Rightarrow> PersistenceError + WriteResult option list \<times> objects" where
  "atomic_fold now_ms writes \<equiv>
     foldE (\<lambda>(results, tbl) index. bindE (atomic_write now_ms (writes ! index) tbl)
       (\<lambda>(result, tbl'). Inr (results[index := result], tbl')))"

lemma atomic_fold_changes: "atomic_fold now_ms writes (results, tbl) order = Inr (results', tbl') \<Longrightarrow> table_change\<^sup>*\<^sup>* tbl tbl'"
proof (induction order arbitrary: results tbl)
  case (Cons index order)
  then obtain x t where w: "atomic_write now_ms (writes ! index) tbl = Inr (x, t)"
    and rest: "atomic_fold now_ms writes (results[index := x], t) order = Inr (results', tbl')" by auto
  from atomic_write_change [OF w] Cons.IH [OF rest] show ?case by (rule converse_rtranclp_into_rtranclp)
qed simp

lemma atomic_fold_frame:
  "atomic_fold now_ms writes (results, tbl) order = Inr (results', tbl') \<Longrightarrow> (object_type, i) \<notin> (\<lambda>k. atomic_write_key (writes ! k)) ` set order
   \<Longrightarrow> object_at object_type i tbl' = object_at object_type i tbl"
proof (induction order arbitrary: results tbl)
  case (Cons index order)
  then obtain x t where w: "atomic_write now_ms (writes ! index) tbl = Inr (x, t)"
    and rest: "atomic_fold now_ms writes (results[index := x], t) order = Inr (results', tbl')" by auto
  from atomic_write_frame [OF w] Cons.IH [OF rest] Cons.prems(2) show ?case by auto
qed simp

lemma atomic_fold_object:
  "atomic_fold now_ms writes (results, tbl) order = Inr (results', tbl') \<Longrightarrow> distinct (map (\<lambda>k. atomic_write_key (writes ! k)) order)
   \<Longrightarrow> object_change (object_at object_type i tbl) (object_at object_type i tbl')"
proof (induction order arbitrary: results tbl)
  case Nil
  then show ?case by (simp add: object_change_def)
next
  case (Cons index order)
  then obtain x t where w: "atomic_write now_ms (writes ! index) tbl = Inr (x, t)"
    and rest: "atomic_fold now_ms writes (results[index := x], t) order = Inr (results', tbl')" by auto
  show ?case
  proof (cases "atomic_write_key (writes ! index) = (object_type, i)")
    case True
    then have "object_at object_type i tbl' = object_at object_type i t"
      using Cons.prems(2) by (intro atomic_fold_frame [OF rest]) auto
    then show ?thesis using table_change_object [OF atomic_write_change [OF w]] by simp
  next
    case False
    then show ?thesis using atomic_write_frame [OF w False] Cons.IH [OF rest] Cons.prems(2) by simp
  qed
qed

lemma atomic_write_order_facts:
  "set (atomic_write_order writes) = {0..<length writes}" "distinct (atomic_write_order writes)"
  by (simp_all add: atomic_write_order_def)

lemma distinct_write_keys:
  assumes "distinct (map atomic_write_key writes)"
  shows "distinct (map (\<lambda>k. atomic_write_key (writes ! k)) (atomic_write_order writes))"
proof -
  have "a = b" if "a < length writes" "b < length writes" "atomic_write_key (writes ! a) = atomic_write_key (writes ! b)" for a b
    using that nth_eq_iff_index_eq [OF assms, of a b] by simp
  then show ?thesis by (auto simp: distinct_map atomic_write_order_facts intro!: inj_onI)
qed

lemma write_atomically_cases:
  obtains (failed) e where "write_atomically now_ms writes tbl = (Inl e, tbl)"
  | (written) results tbl' where "write_atomically now_ms writes tbl = (Inr results, tbl')"
      "atomic_fold now_ms writes (replicate (length writes) None, tbl) (atomic_write_order writes) = Inr (results, tbl')"
  by (cases "atomic_fold now_ms writes (replicate (length writes) None, tbl) (atomic_write_order writes)")
    (auto simp: write_atomically_def)

lemmas insert_changes = change_insert [OF _ new_row_ok] change_insert [OF _ scoped_row_ok(1) [OF unnamed_types(1)] scoped_row_ok(2)]

lemma insert_ops_change:
  "table_change tbl (snd (create_relaxed now_ms object_type i name workspace payload labels tbl))"
  "table_change tbl (snd (create_scoped now_ms object_type i name workspace scope payload labels tbl))"
  "table_change tbl (snd (create_if_workspace_count_below now_ms object_type i name workspace payload labels max_count tbl))"
  "table_change tbl (snd (put_policy_revision now_ms i sandbox_id workspace version payload tbl))"
  "table_change tbl (put_initial_policy_revision now_ms i sandbox_id status workspace payload tbl)"
  by (auto simp: create_relaxed_def insert_new_object_def create_scoped_def create_if_workspace_count_below_def
      put_policy_revision_def put_initial_policy_revision_def change_same split: sum.split intro: insert_changes)

lemma snd_case_prod_pair: "snd (case p of (n, t) \<Rightarrow> (f n, t)) = snd p"
  by (cases p) simp

lemma delete_ops_change:
  "table_change tbl (snd (delete object_type i tbl))"
  "table_change tbl (snd (delete_batch object_type ids tbl))"
  "table_change tbl (snd (delete_all_in_workspace object_type workspace tbl))"
  "table_change tbl (snd (delete_by_scope object_type scope tbl))"
  "table_change tbl (snd (delete_by_name object_type workspace name tbl))"
  "table_change tbl (snd (delete_draft_chunks sandbox_id status tbl))"
  unfolding delete_def delete_batch_def delete_all_in_workspace_def delete_by_scope_def delete_by_name_def
    delete_draft_chunks_def snd_case_prod_pair by (rule change_delete)+

lemma delete_if_change: "table_change tbl (snd (delete_if object_type i expected tbl))"
  by (auto simp: delete_if_def change_same change_drop split: option.splits sum.splits)

lemmas op_changes = put_if_change put_scoped_change put_draft_change update_ops_change insert_ops_change delete_ops_change delete_if_change

text \<open>A transaction is a sequence of changes in which an object changes once.\<close>

definition transaction :: "objects \<Rightarrow> objects \<Rightarrow> bool" where
  "transaction tbl tbl' \<longleftrightarrow> table_change\<^sup>*\<^sup>* tbl tbl'
     \<and> (\<forall>object_type i. object_change (object_at object_type i tbl) (object_at object_type i tbl'))"

lemma change_transaction: "table_change tbl tbl' \<Longrightarrow> transaction tbl tbl'"
  unfolding transaction_def using table_change_object by blast

lemma transaction_then:
  assumes "transaction t0 t1" and "table_change t1 t2"
    and "\<And>object_type i. object_at object_type i t1 = object_at object_type i t0 \<or> object_at object_type i t2 = object_at object_type i t1"
  shows "transaction t0 t2"
proof -
  have "object_change (object_at object_type i t0) (object_at object_type i t2)" for object_type i
    using assms(1) table_change_object [OF assms(2)] assms(3) unfolding transaction_def by metis
  then show ?thesis using assms(1,2) unfolding transaction_def by (meson rtranclp.rtrancl_into_rtrancl)
qed

lemma group_transaction:
  assumes "distinct (map atomic_write_key writes)"
  shows "transaction tbl (snd (write_atomically now_ms writes tbl))"
proof (cases rule: write_atomically_cases [of now_ms writes tbl])
  case (failed e)
  then show ?thesis by (simp add: change_transaction change_same)
next
  case (written results t)
  then show ?thesis unfolding transaction_def
    using atomic_fold_changes [OF written(2)] atomic_fold_object [OF written(2) distinct_write_keys [OF assms]] by simp
qed

lemma object_at_insert: "insert_row j row tbl = Inr tbl' \<Longrightarrow> (object_type, i) \<noteq> (ro_object_type row, j)
    \<Longrightarrow> object_at object_type i tbl' = object_at object_type i tbl"
  by (auto simp: insert_row_Inr object_at_simps object_at_other)

lemma object_at_update: "fmlookup tbl j = Some r \<Longrightarrow> ro_object_type r' = ro_object_type r \<Longrightarrow> object_type \<noteq> ro_object_type r
    \<Longrightarrow> object_at object_type i (fmupd j r' tbl) = object_at object_type i tbl"
  by (auto simp: object_at_simps object_at_other)

lemma object_at_supersede:
  assumes "object_type \<noteq> POLICY_OBJECT_TYPE \<or> (\<forall>r. fmlookup tbl i = Some r \<longrightarrow> ro_version r = Some before)"
  shows "object_at object_type i (snd (supersede_older_policies now_ms sandbox_id before tbl)) = object_at object_type i tbl"
  using assms by (cases "fmlookup tbl i") (auto simp: object_at_def supersede_older_policies_def update_rows_lookup older_active_def)

lemma object_types_differ:
  "''sandbox'' \<noteq> POLICY_OBJECT_TYPE" "''sandbox'' \<noteq> IMAGE_STATE_OBJECT_TYPE"
  by (simp_all add: POLICY_OBJECT_TYPE_def IMAGE_STATE_OBJECT_TYPE_def)

lemma atomic_revision_transaction:
  assumes "fmlookup tbl sid = Some row" and "ro_object_type row = ''sandbox''"
    and "tbl' = tbl \<or> tbl' = fmupd sid row' tbl \<and> row_update row row'"
    and "insert_row i (scoped_row POLICY_OBJECT_TYPE sid (Some v) status None hits payload now_ms now_ms workspace) tbl' = Inr tbl''"
  shows "transaction tbl (snd (supersede_older_policies now_ms sid v tbl''))"
proof -
  let ?new = "scoped_row POLICY_OBJECT_TYPE sid (Some v) status None hits payload now_ms now_ms workspace"
  have first: "transaction tbl tbl'" using assms(1,3) change_same change_update change_transaction by blast
  have kept: "object_at object_type j tbl' = object_at object_type j tbl" if "object_type \<noteq> ''sandbox''" for object_type j
    using assms(1-3) that object_at_update [OF assms(1)] by (auto simp: row_update_def)
  have inserted: "object_at object_type j tbl'' = object_at object_type j tbl'" if "(object_type, j) \<noteq> (POLICY_OBJECT_TYPE, i)" for object_type j
    using object_at_insert [OF assms(4)] that by (simp add: scoped_row_def)
  have second: "transaction tbl tbl''"
  proof (rule transaction_then [OF first])
    show "table_change tbl' tbl''" using change_insert [OF assms(4)] scoped_row_ok by simp
    show "object_at object_type j tbl' = object_at object_type j tbl \<or> object_at object_type j tbl'' = object_at object_type j tbl'"
      for object_type j using kept inserted object_types_differ by (metis prod.inject)
  qed
  have "fmlookup tbl'' i = Some ?new" using assms(4) by (simp add: insert_row_Inr)
  then have "object_at POLICY_OBJECT_TYPE i (snd (supersede_older_policies now_ms sid v tbl'')) = object_at POLICY_OBJECT_TYPE i tbl''"
    by (intro object_at_supersede) (simp add: scoped_row_def)
  then have "object_at object_type j tbl'' = object_at object_type j tbl
      \<or> object_at object_type j (snd (supersede_older_policies now_ms sid v tbl'')) = object_at object_type j tbl''" for object_type j
    using kept inserted object_at_supersede object_types_differ by (metis prod.inject)
  then show ?thesis by (rule transaction_then [OF second update_ops_change(1)])
qed

lemma policy_atomic_transaction: "transaction tbl (snd (put_policy_revision_atomic C now_ms payload w tbl))"
proof -
  have same: "transaction tbl tbl" by (rule change_transaction [OF change_same])
  show ?thesis
  proof (cases "fmlookup tbl (aw_sandbox_id w)")
    case None
    then show ?thesis by (simp add: put_policy_revision_atomic_def same)
  next
    case (Some row)
    have "transaction tbl (snd (supersede_older_policies now_ms (aw_sandbox_id w) (aw_version w) t))"
      if "ro_object_type row = ''sandbox''" and "insert_row (aw_id w) (scoped_row POLICY_OBJECT_TYPE (aw_sandbox_id w)
        (Some (aw_version w)) ''pending'' None 0 payload now_ms now_ms (aw_workspace w))
        (if changed then fmupd (aw_sandbox_id w) (row\<lparr>ro_payload := new_payload, ro_updated_at_ms := now_ms,
           ro_resource_version := ro_resource_version row + 1\<rparr>) tbl else tbl) = Inr t" for changed new_payload t
      by (rule atomic_revision_transaction [where row' = "row\<lparr>ro_payload := new_payload, ro_updated_at_ms := now_ms,
          ro_resource_version := ro_resource_version row + 1\<rparr>", OF Some that(1) _ that(2)]) (simp add: row_update_def)
    from this [of True, simplified] this [of False, simplified] show ?thesis
      unfolding put_policy_revision_atomic_def Let_def by (auto simp: Some same split: sum.split)
  qed
qed

lemma write_image_state_change: "write_image_state now_ms i payload status tbl = Inr tbl' \<Longrightarrow> table_change tbl tbl'"
  by (auto simp: write_image_state_def row_ok_def row_update_def split: option.splits if_splits
      intro: change_insert intro!: change_update)

lemma write_image_state_frame: "write_image_state now_ms j payload status tbl = Inr tbl' \<Longrightarrow> object_type \<noteq> IMAGE_STATE_OBJECT_TYPE
    \<Longrightarrow> object_at object_type i tbl' = object_at object_type i tbl"
  by (cases "fmlookup tbl j") (auto simp: write_image_state_def object_at_simps object_at_other split: if_splits intro: object_at_insert)

lemma projection_transaction: "transaction tbl (snd (write_projection now_ms sid previous payload lbls state_payload pending tbl))"
proof (cases "matches_version ''sandbox'' sid previous tbl")
  case None
  then show ?thesis by (simp add: write_projection_def change_transaction change_same)
next
  case (Some row)
  then have row: "fmlookup tbl sid = Some row" "ro_object_type row = ''sandbox''" by (simp_all add: matches_version_Some)
  define tbl1 where "tbl1 = fmupd sid (row\<lparr>ro_payload := payload, ro_updated_at_ms := now_ms,
    ro_resource_version := ro_resource_version row + 1, ro_labels := Some lbls\<rparr>) tbl"
  have "table_change tbl tbl1" unfolding tbl1_def by (rule change_update [OF row(1)]) (simp add: row_update_def)
  then have first: "transaction tbl tbl1" by (rule change_transaction)
  have kept: "object_at object_type j tbl1 = object_at object_type j tbl" if "object_type \<noteq> ''sandbox''" for object_type j
    unfolding tbl1_def using that by (simp add: object_at_update [OF row(1)] row(2))
  have "transaction tbl tbl2" if "write_image_state now_ms (state_id sid) state_payload status tbl1 = Inr tbl2" for tbl2 status
    using kept write_image_state_frame [OF that] object_types_differ
    by (intro transaction_then [OF first write_image_state_change [OF that]]) metis
  then show ?thesis unfolding write_projection_def Some option.case Let_def tbl1_def [symmetric]
    by (simp add: change_transaction change_same split: sum.split)
qed

lemma object_at_delete: "object_type \<noteq> t \<Longrightarrow> object_at object_type i (snd (delete t j tbl)) = object_at object_type i tbl"
  unfolding delete_def snd_case_prod_pair by (auto simp: object_at_def delete_rows_lookup split: option.splits)

lemma delete_sandbox_transaction: "transaction tbl (snd (delete_sandbox_with_image_state_if decode sid expected tbl))"
proof -
  have same: "transaction tbl tbl" by (rule change_transaction [OF change_same])
  have "transaction tbl (snd (delete IMAGE_STATE_OBJECT_TYPE (state_id sid) (snd (delete ''sandbox'' sid tbl))))"
    using object_at_delete object_types_differ
    by (intro transaction_then [OF change_transaction [OF delete_ops_change(1)] delete_ops_change(1)]) metis
  with same show ?thesis
    by (simp add: delete_sandbox_with_image_state_if_def split: option.split sum.split)
qed

lemma objects_step_transaction: "objects_step tbl tbl' \<Longrightarrow> transaction tbl tbl'"
  by (cases rule: objects_step.cases, assumption)
    (simp_all only: op_changes [THEN change_transaction] group_transaction policy_atomic_transaction projection_transaction
      delete_sandbox_transaction)

lemma objects_step_inv:
  assumes "objects_step tbl tbl'" and "objects_inv tbl"
  shows "objects_inv tbl'"
proof -
  have "table_change\<^sup>*\<^sup>* tbl tbl'" using objects_step_transaction [OF assms(1)] by (simp add: transaction_def)
  then show ?thesis by induction (use assms(2) table_change_inv in blast)+
qed

lemma objects_step_object: "objects_step tbl tbl' \<Longrightarrow> object_change (object_at object_type i tbl) (object_at object_type i tbl')"
  using objects_step_transaction unfolding transaction_def by blast

subsection \<open>Versions\<close>

text \<open>A history is a list of states, newest first.\<close>

definition history :: "('s \<Rightarrow> 's \<Rightarrow> bool) \<Rightarrow> 's list \<Rightarrow> bool" where
  "history step tr = successively (\<lambda>s' s. step s s') tr"

text \<open>What a writer that compares versions relies on: while the object exists, its content changes only
  together with its version, which grows by one.\<close>

locale versioned_object =
  fixes step :: "'s \<Rightarrow> 's \<Rightarrow> bool" and version :: "'s \<Rightarrow> nat option" and content :: "'s \<Rightarrow> 'c"
  assumes step_version: "step s s' \<Longrightarrow> version s = Some v \<Longrightarrow> version s' = Some v'
    \<Longrightarrow> v' = v \<and> content s' = content s \<or> v' = Suc v"
begin

lemma version_grows:
  assumes "history step (newer @ s # older)" and "\<And>x. x \<in> set (s # newer) \<Longrightarrow> version x \<noteq> None"
  shows "the (version s) \<le> the (version (hd (newer @ [s])))
    \<and> (version (hd (newer @ [s])) = version s \<longrightarrow> (\<forall>x\<in>set newer. version x = version s \<and> content x = content s))"
  using assms
proof (induction newer)
  case (Cons y newer)
  define z where "z = hd (newer @ [s])"
  have yz: "step z y" and hist: "history step (newer @ s # older)"
    using Cons.prems(1) unfolding history_def z_def by (cases newer; simp)+
  then have IH: "the (version s) \<le> the (version z)"
    "version z = version s \<Longrightarrow> \<forall>x\<in>set newer. version x = version s \<and> content x = content s"
    using Cons.IH Cons.prems(2) unfolding z_def by auto
  have zin: "z \<in> set (s # newer)" unfolding z_def by (cases newer) simp_all
  obtain v v' where v: "version z = Some v" "version y = Some v'" using Cons.prems(2) zin by fastforce
  obtain w where w: "version s = Some w" using Cons.prems(2) by fastforce
  have le: "w \<le> v" using IH(1) by (simp add: v(1) w)
  from step_version [OF yz v] show ?case
  proof
    assume same: "v' = v \<and> content y = content z"
    have "version x = version s \<and> content x = content s" if "v = w" "x \<in> set (y # newer)" for x
    proof -
      have all: "\<forall>x\<in>set newer. version x = version s \<and> content x = content s" using IH(2) that(1) v(1) w by simp
      then have "content z = content s" using zin by auto
      with all that same v w show ?thesis by auto
    qed
    then show ?thesis using le same by (simp add: v(2) w)
  next
    assume "v' = Suc v"
    then show ?thesis using le by (simp add: v(2) w)
  qed
qed simp

lemma unchanged:
  assumes "history step (newer @ s # older)" and "\<And>x. x \<in> set (s # newer) \<Longrightarrow> version x \<noteq> None"
    and "version (hd (newer @ [s])) = version s" and "x \<in> set newer"
  shows "version x = version s \<and> content x = content s"
  using version_grows [OF assms(1,2)] assms(3,4) by blast

end

text \<open>The version of an object that has a name.\<close>

definition object_version :: "string \<Rightarrow> string \<Rightarrow> objects \<Rightarrow> nat option" where
  "object_version object_type i tbl =
     (if unnamed_type object_type then None else map_option ro_resource_version (object_at object_type i tbl))"

interpretation obj: versioned_object objects_step "object_version object_type i" "object_at object_type i"
proof
  fix s s' v v'
  assume *: "objects_step s s'" "object_version object_type i s = Some v" "object_version object_type i s' = Some v'"
  then obtain r r' where r: "object_at object_type i s = Some r" "object_at object_type i s' = Some r'"
    "ro_resource_version r = v" "ro_resource_version r' = v'" and u: "\<not> unnamed_type object_type"
    by (auto simp: object_version_def split: if_splits)
  have "ro_object_type r = object_type" using r(1) by (auto simp: object_at_def split: option.splits if_splits)
  moreover have "r' = r \<or> row_update r r'"
    using objects_step_object [OF *(1), of object_type i] unfolding r(1,2) by (simp add: object_change_def)
  ultimately have "r' = r \<or> v' = Suc v" using u unfolding row_update_def r(3,4) by auto
  then show "v' = v \<and> object_at object_type i s' = object_at object_type i s \<or> v' = Suc v"
    using r by auto
qed

subsection \<open>Paging\<close>







text \<open>The records of the named rows.\<close>

definition row_record :: "string \<times> object_row \<Rightarrow> ObjectRecord" where
  "row_record x = projr (row_to_object_record (fst x) (snd x))"











subsection \<open>Reachable tables\<close>

lemma objects_inv_empty [simp]: "objects_inv (fmempty :: objects)"
  by (simp add: objects_inv_def)

lemma history_inv:
  assumes "history objects_step tr" and "last tr = fmempty" and "tbl \<in> set tr"
  shows "objects_inv tbl"
proof -
  have "\<forall>t\<in>set tr. objects_inv t" using assms(1,2) unfolding history_def
  proof (induction tr)
    case (Cons t tr)
    then show ?case by (cases tr) (auto intro: objects_step_inv)
  qed simp
  then show ?thesis using assms(3) by blast
qed


text \<open>What \<open>get\<close> returns for a type whose objects are named.\<close>

lemma row_record_fields:
  assumes "objects_inv tbl" and "\<not> unnamed_type object_type" and "object_at object_type i tbl = Some r"
  shows "row_to_object_record i r = Inr (row_record (i, r))" "or_resource_version (row_record (i, r)) = ro_resource_version r"
    "get object_type i tbl = Inr (Some (row_record (i, r)))" "fmlookup tbl i = Some r" "ro_object_type r = object_type"
proof -
  show r: "fmlookup tbl i = Some r" "ro_object_type r = object_type"
    using assms(3) by (auto simp: object_at_def split: option.splits if_splits)
  with assms(1,2) have "row_ok r" "ro_name r \<noteq> None" unfolding objects_inv_def row_ok_def by (auto split: option.splits)
  then obtain name where "ro_name r = Some name" "1 \<le> ro_resource_version r" by (auto simp: row_ok_def)
  then show "row_to_object_record i r = Inr (row_record (i, r))" "or_resource_version (row_record (i, r)) = ro_resource_version r"
    "get object_type i tbl = Inr (Some (row_record (i, r)))"
    using r by (simp_all add: row_record_def row_to_object_record_def get_def)
qed

lemma get_Some:
  assumes "objects_inv tbl" and "\<not> unnamed_type object_type"
  shows "get object_type i tbl = Inr (Some rec) \<longleftrightarrow> (\<exists>r. object_at object_type i tbl = Some r \<and> rec = row_record (i, r))"
    "get object_type i tbl = Inr None \<longleftrightarrow> object_at object_type i tbl = None"
proof -
  have "get object_type i tbl = Inr None" if "object_at object_type i tbl = None"
    using that by (auto simp: get_def object_at_def split: option.splits if_splits)
  then show "get object_type i tbl = Inr (Some rec) \<longleftrightarrow> (\<exists>r. object_at object_type i tbl = Some r \<and> rec = row_record (i, r))"
    "get object_type i tbl = Inr None \<longleftrightarrow> object_at object_type i tbl = None"
    using row_record_fields(3) [OF assms, of i] by (cases "object_at object_type i tbl"; auto)+
qed

lemma put_create_ok:
  assumes "put_if now_ms object_type i name workspace payload labels MustCreate tbl = (Inr res, tbl')"
  shows "wr_resource_version res = 1"
    "get object_type i tbl' = Inr (Some \<lparr>or_object_type = object_type, or_id = i, or_name = name, or_workspace = workspace, or_payload = payload,
       or_created_at_ms = now_ms, or_updated_at_ms = now_ms, or_labels = labels_or_empty labels, or_resource_version = 1\<rparr>)"
    "get object_type i tbl = Inr None"
  using assms by (auto simp: put_if_def insert_new_object_def insert_row_Inr get_def row_to_object_record_def new_row_def split: sum.splits)

text \<open>A write that compares the version.\<close>

lemma put_match_ok:
  assumes "objects_inv tbl" and "\<not> unnamed_type object_type"
    and "put_if now_ms object_type i name workspace payload labels (MatchResourceVersion v) tbl = (Inr res, tbl')"
  obtains r where "object_at object_type i tbl = Some r" "ro_resource_version r = bind_version v"
    "wr_resource_version res = Suc (ro_resource_version r)"
    "get object_type i tbl' = Inr (Some ((row_record (i, r))\<lparr>or_payload := payload, or_labels := labels_or_empty labels,
       or_updated_at_ms := now_ms, or_resource_version := Suc (ro_resource_version r)\<rparr>))"
proof (cases "matches_version object_type i v tbl")
  case None
  then show thesis using assms(3) by (auto simp: put_if_def split: sum.splits)
next
  case (Some r)
  then have r: "fmlookup tbl i = Some r" "ro_object_type r = object_type" "ro_resource_version r = bind_version v"
    by (simp_all add: matches_version_Some)
  then have at: "object_at object_type i tbl = Some r" by (simp add: object_at_def)
  have res: "res = write_result_from_row (r\<lparr>ro_payload := payload, ro_labels := labels_or_empty labels, ro_updated_at_ms := now_ms,
      ro_resource_version := ro_resource_version r + 1\<rparr>)" and
    tbl': "tbl' = fmupd i (r\<lparr>ro_payload := payload, ro_labels := labels_or_empty labels, ro_updated_at_ms := now_ms,
      ro_resource_version := ro_resource_version r + 1\<rparr>) tbl" using assms(3) Some by (simp_all add: put_if_def Let_def)
  from row_record_fields(1) [OF assms(1,2) at] obtain name' where "ro_name r = Some name'"
    by (auto simp: row_to_object_record_def split: option.splits)
  then show thesis using r by (intro that [OF at])
    (simp_all add: res tbl' write_result_from_row_def get_def row_record_def row_to_object_record_def)
qed

lemma unchanged_since_read:
  assumes "history objects_step (newer @ s # older)" and "last (s # older) = fmempty" and "\<not> unnamed_type object_type"
    and "\<And>x. x \<in> set newer \<Longrightarrow> get object_type i x \<noteq> Inr None" and "get object_type i s = Inr (Some rec)"
    and "object_at object_type i (hd (newer @ [s])) = Some r" and "ro_resource_version r \<le> or_resource_version rec"
  shows "(\<forall>x\<in>set newer. get object_type i x = Inr (Some rec)) \<and> ro_resource_version r = or_resource_version rec"
proof -
  have inv: "objects_inv x" if "x \<in> set (s # newer)" for x
    using history_inv [OF assms(1), of x] assms(2) that by auto
  note get = get_Some [OF inv assms(3)]
  obtain r0 where r0: "object_at object_type i s = Some r0" "rec = row_record (i, r0)" using get(1) [of s] assms(5) by auto
  have v0: "or_resource_version rec = ro_resource_version r0"
    using row_record_fields(2) [OF inv assms(3) r0(1)] r0(2) by simp
  have exists: "object_version object_type i x \<noteq> None" if "x \<in> set (s # newer)" for x
    using that get(2) [OF that] assms(4) assms(3) r0(1) by (auto simp: object_version_def)
  have "the (object_version object_type i s) \<le> the (object_version object_type i (hd (newer @ [s])))"
    using obj.version_grows [OF assms(1) exists] by blast
  then have eq: "ro_resource_version r = ro_resource_version r0"
    using assms(3,6,7) r0(1) v0 by (simp add: object_version_def)
  have "get object_type i x = Inr (Some rec)" if "x \<in> set newer" for x
  proof -
    have "object_at object_type i x = object_at object_type i s"
      using obj.unchanged [OF assms(1) exists _ that] assms(3,6) r0(1) eq by (simp add: object_version_def)
    then show ?thesis using get(1) [of x] that r0 by auto
  qed
  then show ?thesis using eq v0 by simp
qed

section \<open>Properties\<close>

text \<open>The store keeps its constraints. In every history of statements and transactions, of any
  number of writers, two objects of a type never have the same name in a workspace, two revisions of
  a sandbox policy never have the same number, and two draft chunks of a sandbox never have the same
  key; every object except a policy revision, draft chunk or image state has a name.\<close>
theorem objects_constraints:
  assumes "history objects_step tr" and "last tr = fmempty" and "tbl \<in> set tr" and "fmlookup tbl i = Some r"
  shows "(ro_name r = None \<longrightarrow> unnamed_type (ro_object_type r))
    \<and> (\<forall>j r'. fmlookup tbl j = Some r' \<longrightarrow> ro_object_type r' = ro_object_type r \<longrightarrow>
         (ro_name r \<noteq> None \<and> ro_name r' = ro_name r \<and> ro_workspace r' = ro_workspace r
          \<or> ro_scope r \<noteq> None \<and> ro_scope r' = ro_scope r \<and> ro_version r \<noteq> None \<and> ro_version r' = ro_version r
          \<or> ro_scope r \<noteq> None \<and> ro_scope r' = ro_scope r \<and> ro_dedup_key r \<noteq> None \<and> ro_dedup_key r' = ro_dedup_key r)
         \<longrightarrow> j = i)"
proof -
  from history_inv [OF assms(1-3)] assms(4) have "row_ok r" and c: "\<And>j r'. fmlookup tbl j = Some r' \<Longrightarrow> j \<noteq> i \<Longrightarrow> \<not> rows_conflict r r'"
    unfolding objects_inv_def by blast+
  show ?thesis
  proof (intro conjI allI impI)
    assume "ro_name r = None"
    with \<open>row_ok r\<close> show "unnamed_type (ro_object_type r)" by (simp add: row_ok_def)
  next
    fix j r'
    assume *: "fmlookup tbl j = Some r'" "ro_object_type r' = ro_object_type r"
      "ro_name r \<noteq> None \<and> ro_name r' = ro_name r \<and> ro_workspace r' = ro_workspace r
          \<or> ro_scope r \<noteq> None \<and> ro_scope r' = ro_scope r \<and> ro_version r \<noteq> None \<and> ro_version r' = ro_version r
          \<or> ro_scope r \<noteq> None \<and> ro_scope r' = ro_scope r \<and> ro_dedup_key r \<noteq> None \<and> ro_dedup_key r' = ro_dedup_key r"
    then have "rows_conflict r r'"
      unfolding rows_conflict_def same_name_def same_version_def same_dedup_key_def by metis
    with c *(1) show "j = i" by blast
  qed
qed

text \<open>An object, as a sample.\<close>

definition sample_objects :: objects where
  "sample_objects = snd (put_if 10 ''sandbox'' ''s1'' ''alpha'' ''default'' ''p'' None MustCreate fmempty)"

lemma sample_objects_step: "objects_step fmempty sample_objects"
  unfolding sample_objects_def by (rule step_put_if)

lemma sample_objects_row:
  "sample_objects = fmupd ''s1'' (new_row 10 ''sandbox'' ''alpha'' ''default'' None ''p'' None) fmempty"
  by (simp add: sample_objects_def put_if_def insert_new_object_def insert_row_def fm_contains_def find_row_def)

theorem objects_constraints_witness:
  "history objects_step [sample_objects, fmempty]
   \<and> {j. \<exists>r. fmlookup sample_objects j = Some r \<and> ro_object_type r = ''sandbox'' \<and> ro_name r = Some ''alpha''
        \<and> ro_workspace r = ''default''} = {''s1''}"
proof -
  define row where "row = new_row 10 ''sandbox'' ''alpha'' ''default'' None ''p'' None"
  have hist: "history objects_step [sample_objects, fmempty]" by (simp add: history_def sample_objects_step)
  have row: "fmlookup sample_objects ''s1'' = Some row" by (simp add: sample_objects_row row_def)
  have fields: "ro_object_type row = ''sandbox''" "ro_name row = Some ''alpha''" "ro_workspace row = ''default''"
    by (simp_all add: row_def new_row_def)
  have "j = ''s1''" if "fmlookup sample_objects j = Some r" "ro_object_type r = ''sandbox''" "ro_name r = Some ''alpha''"
    "ro_workspace r = ''default''" for j r
    using objects_constraints [OF hist _ _ row] that fields by auto
  then show ?thesis using hist row fields by blast
qed

text \<open>C27. A guarded write loses no update. A writer reads an object, any number of writers run in between,
  and the object is not deleted meanwhile. If the write that expects the version read succeeds, then nobody
  changed the object since, and the stored object is the one read with the new payload, labels and time and
  the next version.\<close>
theorem guarded_write_sees_read:
  assumes "history objects_step (newer @ s # older)" and "last (s # older) = fmempty" and "\<not> unnamed_type object_type"
    and "\<And>x. x \<in> set newer \<Longrightarrow> get object_type i x \<noteq> Inr None" and "get object_type i s = Inr (Some rec)"
    and "put_if now_ms object_type i name workspace payload labels (MatchResourceVersion (or_resource_version rec)) (hd (newer @ [s]))
       = (Inr res, tbl')"
  shows "(\<forall>x\<in>set newer. get object_type i x = Inr (Some rec))
    \<and> wr_resource_version res = or_resource_version rec + 1
    \<and> get object_type i tbl' = Inr (Some (rec\<lparr>or_payload := payload, or_labels := labels_or_empty labels,
         or_updated_at_ms := now_ms, or_resource_version := or_resource_version rec + 1\<rparr>))"
proof -
  have "hd (newer @ [s]) \<in> set (newer @ s # older)" by (cases newer) simp_all
  then have inv: "objects_inv (hd (newer @ [s]))" using history_inv [OF assms(1)] assms(2) by simp
  from put_match_ok [OF inv assms(3,6)] obtain r where r: "object_at object_type i (hd (newer @ [s])) = Some r"
    "ro_resource_version r = bind_version (or_resource_version rec)" "wr_resource_version res = Suc (ro_resource_version r)"
    "get object_type i tbl' = Inr (Some ((row_record (i, r))\<lparr>or_payload := payload, or_labels := labels_or_empty labels,
       or_updated_at_ms := now_ms, or_resource_version := Suc (ro_resource_version r)\<rparr>))" .
  have "ro_resource_version r \<le> or_resource_version rec" using r(2) by (simp add: bind_version_def)
  from unchanged_since_read [OF assms(1-5) r(1) this]
  have same: "\<forall>x\<in>set newer. get object_type i x = Inr (Some rec)" "ro_resource_version r = or_resource_version rec" by auto
  have "get object_type i (hd (newer @ [s])) = Inr (Some rec)" using same(1) assms(5) by (cases newer) auto
  then have "row_record (i, r) = rec" using get_Some(1) [OF inv assms(3)] r(1) by auto
  then show ?thesis using same r(3,4) by simp
qed

theorem guarded_write_sees_read_witness:
  "case put_if 20 ''sandbox'' ''s1'' ''alpha'' ''default'' ''q'' None (MatchResourceVersion 1) sample_objects of
     (Inr res, tbl') \<Rightarrow> wr_resource_version res = 2
       \<and> get ''sandbox'' ''s1'' tbl' = Inr (Some \<lparr>or_object_type = ''sandbox'', or_id = ''s1'', or_name = ''alpha'', or_workspace = ''default'',
           or_payload = ''q'', or_created_at_ms = 10, or_updated_at_ms = 20, or_labels = Some ''{}'', or_resource_version = 2\<rparr>)
   | _ \<Rightarrow> False"
proof -
  define rec where "rec = \<lparr>or_object_type = ''sandbox'', or_id = ''s1'', or_name = ''alpha'', or_workspace = ''default'',
    or_payload = ''p'', or_created_at_ms = 10, or_updated_at_ms = 10, or_labels = Some ''{}'', or_resource_version = 1\<rparr>"
  have hist: "history objects_step ([] @ sample_objects # [fmempty])" by (simp add: history_def sample_objects_step)
  have read: "get ''sandbox'' ''s1'' sample_objects = Inr (Some rec)"
    by (simp add: get_def sample_objects_row new_row_def row_to_object_record_def labels_or_empty_def rec_def)
  have unnamed: "\<not> unnamed_type ''sandbox''"
    by (simp add: unnamed_type_def POLICY_OBJECT_TYPE_def DRAFT_CHUNK_OBJECT_TYPE_def IMAGE_STATE_OBJECT_TYPE_def)
  obtain res tbl' where put: "put_if 20 ''sandbox'' ''s1'' ''alpha'' ''default'' ''q'' None (MatchResourceVersion 1) sample_objects = (Inr res, tbl')"
    by (simp add: put_if_def matches_version_def sample_objects_row new_row_def bind_version_def Let_def)
  have put': "put_if 20 ''sandbox'' ''s1'' ''alpha'' ''default'' ''q'' None (MatchResourceVersion (or_resource_version rec)) (hd ([] @ [sample_objects]))
      = (Inr res, tbl')" using put by (simp add: rec_def)
  from guarded_write_sees_read [OF hist _ unnamed _ read put']
  show ?thesis unfolding put by (simp add: rec_def labels_or_empty_def)
qed



end
