(* ===== verification/Reconciler_Lease.thy ===== *)
theory Reconciler_Lease
  imports Object_Store
begin

text \<open>
  The lease that decides which gateway replica runs the reconcile loops (\<open>compute/lease.rs\<close>), a client
  of the object store. Each operation takes the tables its statements see, so that other replicas can
  run in between. The lemmas show that a renewed lease was held without a break, and the one case in
  which a stale guard is honoured.
\<close>

section \<open>Definitions\<close>

definition LEASE_OBJECT_TYPE :: string where "LEASE_OBJECT_TYPE = ''reconciler_lease''"
definition LEASE_SINGLETON_ID :: string where "LEASE_SINGLETON_ID = ''singleton''"
definition LEASE_SINGLETON_NAME :: string where "LEASE_SINGLETON_NAME = ''reconciler-lease''"

datatype LeaseError = AlreadyHeld | NotFound | LeaseConflict | LeaseStore PersistenceError

record LeasePayload =
  lp_holder :: string
  lp_acquired_at_ms :: int

record LeaseRecord =
  lr_holder :: string
  lr_acquired_at_ms :: int
  lr_resource_version :: nat
  lr_updated_at_ms :: int

record LeaseGuard =
  lg_resource_version :: nat
  lg_acquired_at_ms :: int

record ReconcilerLease =
  rl_replica_id :: string
  rl_ttl_ms :: nat

text \<open>The JSON library.\<close>

record lease_codec =
  lease_encode :: "LeasePayload \<Rightarrow> string + string"
  lease_decode :: "string \<Rightarrow> string + LeasePayload"

text \<open>Timestamps are signed 64-bit integers and their difference saturates.\<close>

definition lease_is_expired :: "int \<Rightarrow> int \<Rightarrow> int \<Rightarrow> bool" where
  "lease_is_expired now_ms updated_at_ms ttl_ms =
     (let age_ms = max 0 (max (- (2 ^ 63)) (min (2 ^ 63 - 1) (now_ms - updated_at_ms))) in age_ms \<ge> ttl_ms)"

definition lease_read :: "lease_codec \<Rightarrow> objects \<Rightarrow> LeaseError + LeaseRecord option" where
  "lease_read K tbl =
     (case get LEASE_OBJECT_TYPE LEASE_SINGLETON_ID tbl of
        Inl e \<Rightarrow> Inl (LeaseStore e)
      | Inr None \<Rightarrow> Inr None
      | Inr (Some rec) \<Rightarrow>
          (case lease_decode K (or_payload rec) of
             Inl e \<Rightarrow> Inl (LeaseStore (DecodeError e))
           | Inr payload \<Rightarrow>
               Inr (Some \<lparr>lr_holder = lp_holder payload, lr_acquired_at_ms = lp_acquired_at_ms payload,
                          lr_resource_version = or_resource_version rec, lr_updated_at_ms = or_updated_at_ms rec\<rparr>)))"

definition lease_put ::
  "lease_codec \<Rightarrow> ReconcilerLease \<Rightarrow> int \<Rightarrow> int \<Rightarrow> WriteCondition \<Rightarrow> objects \<Rightarrow> (PersistenceError + WriteResult) \<times> objects" where
  "lease_put K l acquired_at_ms now_ms condition tbl =
     (case lease_encode K \<lparr>lp_holder = rl_replica_id l, lp_acquired_at_ms = acquired_at_ms\<rparr> of
        Inl e \<Rightarrow> (Inl (EncodeError e), tbl)
      | Inr payload_bytes \<Rightarrow>
          put_if now_ms LEASE_OBJECT_TYPE LEASE_SINGLETON_ID LEASE_SINGLETON_NAME [] payload_bytes None condition tbl)"

text \<open>\<open>acquired_at_ms\<close> is the time the replica reads, \<open>now_ms\<close> the one the store reads.\<close>

definition try_acquire :: "lease_codec \<Rightarrow> ReconcilerLease \<Rightarrow> int \<Rightarrow> int \<Rightarrow> objects \<Rightarrow> (LeaseError + LeaseGuard) \<times> objects" where
  "try_acquire K l acquired_at_ms now_ms tbl =
     (case lease_put K l acquired_at_ms now_ms MustCreate tbl of
        (Inr result, tbl') \<Rightarrow> (Inr \<lparr>lg_resource_version = wr_resource_version result, lg_acquired_at_ms = acquired_at_ms\<rparr>, tbl')
      | (Inl UniqueViolation, tbl') \<Rightarrow> (Inl AlreadyHeld, tbl')
      | (Inl e, tbl') \<Rightarrow> (Inl (LeaseStore e), tbl'))"

text \<open>\<open>seen\<close> is the table of the read, \<open>tbl\<close> the one of the write.\<close>

definition try_steal_expired ::
  "lease_codec \<Rightarrow> ReconcilerLease \<Rightarrow> int \<Rightarrow> int \<Rightarrow> int \<Rightarrow> objects \<Rightarrow> objects \<Rightarrow> (LeaseError + LeaseGuard) \<times> objects" where
  "try_steal_expired K l current_ms acquired_at_ms now_ms seen tbl =
     (case lease_read K seen of
        Inl e \<Rightarrow> (Inl e, tbl)
      | Inr None \<Rightarrow> (Inl NotFound, tbl)
      | Inr (Some rec) \<Rightarrow>
          if \<not> lease_is_expired current_ms (lr_updated_at_ms rec) (min (int (rl_ttl_ms l)) (2 ^ 63 - 1)) then (Inl AlreadyHeld, tbl)
          else
            (case lease_put K l acquired_at_ms now_ms (MatchResourceVersion (lr_resource_version rec)) tbl of
               (Inr result, tbl') \<Rightarrow> (Inr \<lparr>lg_resource_version = wr_resource_version result, lg_acquired_at_ms = acquired_at_ms\<rparr>, tbl')
             | (Inl (Conflict _), tbl') \<Rightarrow> (Inl LeaseConflict, tbl')
             | (Inl e, tbl') \<Rightarrow> (Inl (LeaseStore e), tbl')))"

text \<open>\<open>first\<close> is the table of the attempt to create. The other two matter only when it fails.\<close>

definition acquire_or_steal ::
  "lease_codec \<Rightarrow> ReconcilerLease \<Rightarrow> int \<Rightarrow> int \<Rightarrow> int \<Rightarrow> objects \<Rightarrow> objects \<Rightarrow> objects \<Rightarrow> (LeaseError + LeaseGuard) \<times> objects" where
  "acquire_or_steal K l current_ms acquired_at_ms now_ms first seen tbl =
     (case try_acquire K l acquired_at_ms now_ms first of
        (Inl AlreadyHeld, _) \<Rightarrow> try_steal_expired K l current_ms acquired_at_ms now_ms seen tbl
      | r \<Rightarrow> r)"

definition lease_renew :: "lease_codec \<Rightarrow> ReconcilerLease \<Rightarrow> LeaseGuard \<Rightarrow> int \<Rightarrow> objects \<Rightarrow> (LeaseError + LeaseGuard) \<times> objects" where
  "lease_renew K l guard now_ms tbl =
     (case lease_put K l (lg_acquired_at_ms guard) now_ms (MatchResourceVersion (lg_resource_version guard)) tbl of
        (Inr result, tbl') \<Rightarrow> (Inr (guard\<lparr>lg_resource_version := wr_resource_version result\<rparr>), tbl')
      | (Inl (Conflict _), tbl') \<Rightarrow> (Inl LeaseConflict, tbl')
      | (Inl e, tbl') \<Rightarrow> (Inl (LeaseStore e), tbl'))"

definition lease_release :: "LeaseGuard \<Rightarrow> objects \<Rightarrow> (LeaseError + unit) \<times> objects" where
  "lease_release guard tbl =
     (case delete_if LEASE_OBJECT_TYPE LEASE_SINGLETON_ID (lg_resource_version guard) tbl of
        (Inr _, tbl') \<Rightarrow> (Inr (), tbl')
      | (Inl (Conflict _), tbl') \<Rightarrow> (Inl LeaseConflict, tbl')
      | (Inl e, tbl') \<Rightarrow> (Inl (LeaseStore e), tbl'))"

section \<open>Lemmas\<close>

lemma lease_named [simp]: "\<not> unnamed_type LEASE_OBJECT_TYPE"
  by (simp add: unnamed_type_def LEASE_OBJECT_TYPE_def POLICY_OBJECT_TYPE_def DRAFT_CHUNK_OBJECT_TYPE_def IMAGE_STATE_OBJECT_TYPE_def)

text \<open>What a successful write leaves behind.\<close>

lemma lease_put_ok:
  assumes "objects_inv tbl" and "lease_put K l acquired now_ms condition tbl = (Inr res, tbl')" and "condition \<noteq> Unconditional"
  obtains payload rec where "lease_encode K \<lparr>lp_holder = rl_replica_id l, lp_acquired_at_ms = acquired\<rparr> = Inr payload"
    "get LEASE_OBJECT_TYPE LEASE_SINGLETON_ID tbl' = Inr (Some rec)" "or_payload rec = payload" "or_updated_at_ms rec = now_ms"
    "or_resource_version rec = wr_resource_version res"
proof (cases "lease_encode K \<lparr>lp_holder = rl_replica_id l, lp_acquired_at_ms = acquired\<rparr>")
  case (Inl e)
  then show thesis using assms(2) by (simp add: lease_put_def)
next
  case (Inr payload)
  then have put: "put_if now_ms LEASE_OBJECT_TYPE LEASE_SINGLETON_ID LEASE_SINGLETON_NAME [] payload None condition tbl = (Inr res, tbl')"
    using assms(2) by (simp add: lease_put_def)
  show thesis
  proof (cases condition)
    case MustCreate
    note created = put_create_ok [OF put [unfolded MustCreate]]
    show thesis by (rule that [OF Inr created(2)]) (simp_all add: created(1))
  next
    case (MatchResourceVersion v)
    from put_match_ok [OF assms(1) lease_named put [unfolded MatchResourceVersion]] obtain r where
      r: "wr_resource_version res = Suc (ro_resource_version r)"
      "get LEASE_OBJECT_TYPE LEASE_SINGLETON_ID tbl' = Inr (Some ((row_record (LEASE_SINGLETON_ID, r))\<lparr>or_payload := payload,
         or_labels := labels_or_empty None, or_updated_at_ms := now_ms, or_resource_version := Suc (ro_resource_version r)\<rparr>))" .
    show thesis by (rule that [OF Inr r(2)]) (simp_all add: r(1))
  qed (simp add: assms(3))
qed

text \<open>A guard is good in a table in which the lease has its version and names its replica.\<close>

definition guards :: "lease_codec \<Rightarrow> ReconcilerLease \<Rightarrow> LeaseGuard \<Rightarrow> objects \<Rightarrow> bool" where
  "guards K l guard tbl \<longleftrightarrow> (\<exists>rec. lease_read K tbl = Inr (Some rec) \<and> lr_holder rec = rl_replica_id l
     \<and> lr_acquired_at_ms rec = lg_acquired_at_ms guard \<and> lr_resource_version rec = lg_resource_version guard)"

lemma lease_put_guards:
  assumes "objects_inv tbl" and "lease_put K l acquired now_ms condition tbl = (Inr res, tbl')" and "condition \<noteq> Unconditional"
    and "\<And>p b. lease_encode K p = Inr b \<Longrightarrow> lease_decode K b = Inr p"
  shows "guards K l \<lparr>lg_resource_version = wr_resource_version res, lg_acquired_at_ms = acquired\<rparr> tbl'"
proof -
  from lease_put_ok [OF assms(1-3)] obtain payload rec where
    e: "lease_encode K \<lparr>lp_holder = rl_replica_id l, lp_acquired_at_ms = acquired\<rparr> = Inr payload" and
    rec: "get LEASE_OBJECT_TYPE LEASE_SINGLETON_ID tbl' = Inr (Some rec)" "or_payload rec = payload"
      "or_resource_version rec = wr_resource_version res" by metis
  then show ?thesis using assms(4) [OF e] by (simp add: guards_def lease_read_def)
qed

lemma lease_ops_put:
  "try_acquire K l acquired now_ms tbl = (Inr g, tbl') \<Longrightarrow>
     \<exists>res. lease_put K l acquired now_ms MustCreate tbl = (Inr res, tbl')
       \<and> g = \<lparr>lg_resource_version = wr_resource_version res, lg_acquired_at_ms = acquired\<rparr>"
  "try_steal_expired K l current acquired now_ms seen tbl = (Inr g, tbl') \<Longrightarrow>
     \<exists>rec res. lease_read K seen = Inr (Some rec)
       \<and> lease_is_expired current (lr_updated_at_ms rec) (min (int (rl_ttl_ms l)) (2 ^ 63 - 1))
       \<and> lease_put K l acquired now_ms (MatchResourceVersion (lr_resource_version rec)) tbl = (Inr res, tbl')
       \<and> g = \<lparr>lg_resource_version = wr_resource_version res, lg_acquired_at_ms = acquired\<rparr>"
  "lease_renew K l g0 now_ms tbl = (Inr g, tbl') \<Longrightarrow>
     \<exists>res. lease_put K l (lg_acquired_at_ms g0) now_ms (MatchResourceVersion (lg_resource_version g0)) tbl = (Inr res, tbl')
       \<and> g = \<lparr>lg_resource_version = wr_resource_version res, lg_acquired_at_ms = lg_acquired_at_ms g0\<rparr>"
  by (auto simp: try_acquire_def try_steal_expired_def lease_renew_def
      split: prod.splits sum.splits PersistenceError.splits option.splits if_splits)

text \<open>The three ways to get a guard.\<close>

inductive obtains_guard :: "lease_codec \<Rightarrow> ReconcilerLease \<Rightarrow> objects \<Rightarrow> LeaseGuard \<Rightarrow> objects \<Rightarrow> bool" where
  guard_acquire: "try_acquire K l acquired now_ms tbl = (Inr g, tbl') \<Longrightarrow> obtains_guard K l tbl g tbl'"
| guard_steal: "try_steal_expired K l current acquired now_ms seen tbl = (Inr g, tbl') \<Longrightarrow> obtains_guard K l tbl g tbl'"
| guard_renew: "lease_renew K l g0 now_ms tbl = (Inr g, tbl') \<Longrightarrow> obtains_guard K l tbl g tbl'"

lemma obtained_guards:
  assumes "obtains_guard K l tbl g tbl'" and "objects_inv tbl" and "\<And>p b. lease_encode K p = Inr b \<Longrightarrow> lease_decode K b = Inr p"
  shows "guards K l g tbl'"
  using assms(1)
  by cases (use assms(2,3) in \<open>auto dest!: lease_ops_put intro: lease_put_guards\<close>)

lemma lease_read_cases:
  "lease_read K tbl = Inr None \<longleftrightarrow> get LEASE_OBJECT_TYPE LEASE_SINGLETON_ID tbl = Inr None"
  by (auto simp: lease_read_def split: sum.splits option.splits)

text \<open>A guard that is honoured later was good all the time, as long as the lease was not released.\<close>

lemma honoured_guard:
  assumes "history objects_step (newer @ s # older)" and "last (s # older) = fmempty"
    and "guards K l g s" and "\<And>x. x \<in> set newer \<Longrightarrow> lease_read K x \<noteq> Inr None"
    and "lease_put K l' acquired now_ms (MatchResourceVersion (lg_resource_version g)) (hd (newer @ [s])) = (Inr res, tbl')"
    and "x \<in> set newer"
  shows "guards K l g x"
proof -
  let ?now = "hd (newer @ [s])"
  have "?now \<in> set (newer @ s # older)" by (cases newer) simp_all
  then have inv: "objects_inv ?now" using history_inv [OF assms(1)] assms(2) by simp
  from assms(3) obtain rec where rec: "get LEASE_OBJECT_TYPE LEASE_SINGLETON_ID s = Inr (Some rec)"
    "or_resource_version rec = lg_resource_version g"
    by (auto simp: guards_def lease_read_def split: sum.splits option.splits)
  obtain payload where put: "put_if now_ms LEASE_OBJECT_TYPE LEASE_SINGLETON_ID LEASE_SINGLETON_NAME [] payload None
      (MatchResourceVersion (lg_resource_version g)) ?now = (Inr res, tbl')"
    using assms(5) by (auto simp: lease_put_def split: sum.splits)
  from put_match_ok [OF inv lease_named put] obtain r where r: "object_at LEASE_OBJECT_TYPE LEASE_SINGLETON_ID ?now = Some r"
    "ro_resource_version r = bind_version (lg_resource_version g)" by metis
  have "ro_resource_version r \<le> or_resource_version rec" using r(2) rec(2) by (simp add: bind_version_def)
  from unchanged_since_read [OF assms(1,2) lease_named _ rec(1) r(1) this] assms(4,6)
  have "get LEASE_OBJECT_TYPE LEASE_SINGLETON_ID x = Inr (Some rec)" by (simp add: lease_read_cases)
  then show ?thesis using assms(3) rec(1) by (simp add: guards_def lease_read_def)
qed

text \<open>A steal that succeeds replaces a record that had not been renewed for the time to live.\<close>

lemma steal_replaces_expired:
  assumes "history objects_step (newer @ seen # older)" and "last (seen # older) = fmempty"
    and "\<And>x. x \<in> set newer \<Longrightarrow> lease_read K x \<noteq> Inr None"
    and "try_steal_expired K l current acquired now_ms seen (hd (newer @ [seen])) = (Inr g, tbl')"
  shows "\<exists>rec :: LeaseRecord. lease_is_expired current (lr_updated_at_ms rec) (min (int (rl_ttl_ms l)) (2 ^ 63 - 1))
    \<and> (\<forall>x\<in>set (seen # newer). \<exists>rec' :: LeaseRecord. lease_read K x = Inr (Some rec') \<and> lr_holder rec' = lr_holder rec
         \<and> lr_resource_version rec' = lr_resource_version rec)"
proof -
  from lease_ops_put(2) [OF assms(4)] obtain rec res where rec: "lease_read K seen = Inr (Some rec)"
    "lease_is_expired current (lr_updated_at_ms rec) (min (int (rl_ttl_ms l)) (2 ^ 63 - 1))"
    and put: "lease_put K l acquired now_ms (MatchResourceVersion (lr_resource_version rec)) (hd (newer @ [seen])) = (Inr res, tbl')" by blast
  define g where "g = \<lparr>lg_resource_version = lr_resource_version rec, lg_acquired_at_ms = lr_acquired_at_ms rec\<rparr>"
  define owner where "owner = \<lparr>rl_replica_id = lr_holder rec, rl_ttl_ms = 0\<rparr>"
  have g: "guards K owner g seen" using rec(1) by (simp add: guards_def owner_def g_def)
  have "guards K owner g x" if "x \<in> set newer" for x
    by (rule honoured_guard [where now_ms = now_ms and acquired = acquired and l' = l, OF assms(1,2) g assms(3) _ that])
      (use put in \<open>simp_all add: g_def\<close>)
  then show ?thesis using g rec(2) by (intro exI [of _ rec]) (auto simp: guards_def owner_def g_def)
qed

text \<open>A codec and three replicas, as a sample.\<close>

definition sample_lease_codec :: lease_codec where
  "sample_lease_codec =
     \<lparr>lease_encode = (\<lambda>p. Inr ((if lp_acquired_at_ms p < 0 then CHR ''-'' else CHR ''+'')
        # replicate (nat \<bar>lp_acquired_at_ms p\<bar>) (CHR ''x'') @ CHR '':'' # lp_holder p)),
      lease_decode = (\<lambda>b. Inr \<lparr>lp_holder = tl (dropWhile (\<lambda>c. c \<noteq> CHR '':'') (tl b)),
        lp_acquired_at_ms = (if hd b = CHR ''-'' then -1 else 1) * int (length (takeWhile (\<lambda>c. c \<noteq> CHR '':'') (tl b)))\<rparr>)\<rparr>"

lemma sample_codec_roundtrip: "lease_encode sample_lease_codec p = Inr b \<Longrightarrow> lease_decode sample_lease_codec b = Inr p"
  by (cases p) (auto simp: sample_lease_codec_def takeWhile_append dropWhile_append split: if_splits)

definition replica :: "string \<Rightarrow> ReconcilerLease" where "replica name = \<lparr>rl_replica_id = name, rl_ttl_ms = 3\<rparr>"

lemmas lease_eval = try_acquire_def try_steal_expired_def lease_renew_def lease_release_def lease_put_def lease_read_def guards_def
  lease_is_expired_def put_if_def delete_if_def insert_new_object_def insert_row_def matches_version_def get_def row_to_object_record_def
  write_result_from_row_def new_row_def bind_version_def fm_contains_def find_row_def sample_lease_codec_def replica_def

lemma fmdrop_only: "fmdrop i (fmupd i r fmempty) = fmempty" "fmupd i r (fmupd i r' m) = fmupd i r m"
  by (rule fmap_ext; simp)+

text \<open>Versions restart after a release. Replica \<open>a\<close> loses the lease to \<open>b\<close>, \<open>b\<close> releases it and \<open>c\<close> acquires it;
  the old guard of \<open>a\<close> then has the version of the new record, and its renewal takes the lease from \<open>c\<close>.\<close>

lemma stale_guard_renews:
  "case try_acquire sample_lease_codec (replica ''a'') 0 0 fmempty of (Inr ga, t1) \<Rightarrow>
     (case try_steal_expired sample_lease_codec (replica ''b'') 5 5 5 t1 t1 of (Inr gb, t2) \<Rightarrow>
        (case lease_release gb t2 of (Inr _, t3) \<Rightarrow>
           (case try_acquire sample_lease_codec (replica ''c'') 6 6 t3 of (Inr gc, t4) \<Rightarrow>
              guards sample_lease_codec (replica ''c'') gc t4
              \<and> (case lease_renew sample_lease_codec (replica ''a'') ga 7 t4 of
                   (Inr ga', t5) \<Rightarrow> guards sample_lease_codec (replica ''a'') ga' t5 | _ \<Rightarrow> False)
            | _ \<Rightarrow> False) | _ \<Rightarrow> False) | _ \<Rightarrow> False) | _ \<Rightarrow> False"
  by (simp add: lease_eval Let_def fmdrop_only takeWhile_append dropWhile_append)

section \<open>Properties\<close>

text \<open>C29. A renewed lease was never lost. A replica obtains a guard by creating, stealing or renewing the lease, and
  any replicas run afterwards without a release. If a renewal with the guard then succeeds, the lease named that replica and
  its guard in every table since, and it does so with the new guard after the renewal.\<close>
theorem lease_renewed_was_held:
  assumes codec: "\<And>p b. lease_encode K p = Inr b \<Longrightarrow> lease_decode K b = Inr p"
    and "history objects_step (newer @ s # s0 # older)" and "last (s0 # older) = fmempty"
    and "obtains_guard K l s0 g s" and "\<And>x. x \<in> set newer \<Longrightarrow> lease_read K x \<noteq> Inr None"
    and "lease_renew K l g now_ms (hd (newer @ [s])) = (Inr g', tbl')"
  shows "(\<forall>x\<in>set (s # newer). guards K l g x) \<and> guards K l g' tbl'"
proof -
  have inv: "objects_inv x" if "x \<in> set (newer @ s # s0 # older)" for x
    using history_inv [OF assms(2) _ that] assms(3) by simp
  have g: "guards K l g s" by (rule obtained_guards [OF assms(4) inv codec]) simp_all
  have "hd (newer @ [s]) \<in> set (newer @ s # s0 # older)" by (cases newer) simp_all
  note inv_now = inv [OF this]
  from lease_ops_put(3) [OF assms(6)] obtain res where
    put: "lease_put K l (lg_acquired_at_ms g) now_ms (MatchResourceVersion (lg_resource_version g)) (hd (newer @ [s])) = (Inr res, tbl')" by blast
  have "guards K l g x" if "x \<in> set newer" for x
    using honoured_guard [OF assms(2) _ g assms(5) put that] assms(3) by simp
  moreover have "guards K l g' tbl'" using obtained_guards [OF guard_renew [OF assms(6)] inv_now codec] .
  ultimately show ?thesis using g by simp
qed

theorem lease_renewed_was_held_witness:
  "case try_acquire sample_lease_codec (replica ''a'') 0 0 fmempty of (Inr g, s) \<Rightarrow>
     (case lease_renew sample_lease_codec (replica ''a'') g 2 s of
        (Inr g', tbl') \<Rightarrow> guards sample_lease_codec (replica ''a'') g s \<and> guards sample_lease_codec (replica ''a'') g' tbl'
      | _ \<Rightarrow> False) | _ \<Rightarrow> False"
proof -
  let ?K = sample_lease_codec and ?l = "replica ''a''"
  obtain g s where a: "try_acquire ?K ?l 0 0 fmempty = (Inr g, s)" and step: "objects_step fmempty s"
    and r: "\<exists>g' tbl'. lease_renew ?K ?l g 2 s = (Inr g', tbl')"
    using step_put_if [of fmempty 0 LEASE_OBJECT_TYPE LEASE_SINGLETON_ID LEASE_SINGLETON_NAME "[]" "''+:a''" None MustCreate]
    by (simp add: lease_eval Let_def)
  from r obtain g' tbl' where r: "lease_renew ?K ?l g 2 s = (Inr g', tbl')" by blast
  have hist: "history objects_step ([] @ s # fmempty # [])" using step by (simp add: history_def)
  have now: "lease_renew ?K ?l g 2 (hd ([] @ [s])) = (Inr g', tbl')" using r by simp
  have "(\<forall>x\<in>set (s # []). guards ?K ?l g x) \<and> guards ?K ?l g' tbl'"
    by (rule lease_renewed_was_held [OF sample_codec_roundtrip hist _ guard_acquire [OF a] _ now]) simp_all
  then show ?thesis by (simp add: a r)
qed

end
