(* ===== verification/Supervisor_Owner.thy ===== *)
theory Supervisor_Owner
  imports Object_Store
begin

text \<open>
  The index of the gateway replicas that own the supervisor sessions of the sandboxes
  (\<open>supervisor_owner.rs\<close>), a client of the object store. The lemmas show what a session that
  becomes the owner has replaced, and that a fresh owner of a later term is never replaced.
\<close>

section \<open>Definitions\<close>

definition OWNER_OBJECT_TYPE :: string where "OWNER_OBJECT_TYPE = ''supervisor_session_owner''"
definition OWNER_TTL_MS :: nat where "OWNER_TTL_MS = 45000"
definition PUBLISH_ATTEMPTS :: nat where "PUBLISH_ATTEMPTS = 3"

definition owner_object_id :: "string \<Rightarrow> string" where
  "owner_object_id sandbox_id = ''supervisor-owner:'' @ sandbox_id"

datatype OwnerError = AlreadyOwned | OwnerConflict | OwnerStore PersistenceError

definition is_ownership_lost :: "OwnerError \<Rightarrow> bool" where
  "is_ownership_lost e = (case e of AlreadyOwned \<Rightarrow> True | OwnerConflict \<Rightarrow> True | OwnerStore _ \<Rightarrow> False)"

record OwnerPayload =
  opl_sandbox_id :: string
  opl_session_id :: string
  opl_supervisor_instance_id :: string
  opl_connection_epoch :: nat
  opl_auth_epoch :: nat
  opl_owner_replica_id :: string
  opl_owner_peer_endpoint :: string
  opl_connected_at_ms :: int

text \<open>A credential epoch is a positive number.\<close>

record OwnerRecord =
  own_session_id :: string
  own_supervisor_instance_id :: string
  own_connection_epoch :: nat
  own_auth_epoch :: "nat option"
  own_replica_id :: string
  own_peer_endpoint :: string
  own_connected_at_ms :: int
  own_updated_at_ms :: int
  own_resource_version :: nat

record OwnerGuard =
  og_sandbox_id :: string
  og_session_id :: string
  og_supervisor_instance_id :: string
  og_connection_epoch :: nat
  og_auth_epoch :: "nat option"
  og_replica_id :: string
  og_peer_endpoint :: string
  og_connected_at_ms :: int
  og_resource_version :: nat
  og_last_renewed_at :: nat

text \<open>The JSON library.\<close>

record owner_codec =
  owner_encode :: "OwnerPayload \<Rightarrow> string + string"
  owner_decode :: "string \<Rightarrow> string + OwnerPayload"

definition dialable_peer_endpoint :: "string \<Rightarrow> string option" where
  "dialable_peer_endpoint endpoint = (if endpoint \<noteq> [] \<and> \<not> starts_with ''local://'' endpoint then Some endpoint else None)"

definition is_fresh :: "int \<Rightarrow> OwnerRecord \<Rightarrow> nat \<Rightarrow> bool" where
  "is_fresh now_ms rec ttl_ms =
     (max 0 (max (- (2 ^ 63)) (min (2 ^ 63 - 1) (now_ms - own_updated_at_ms rec))) < min (int ttl_ms) (2 ^ 63 - 1))"

definition claim_expired :: "nat \<Rightarrow> OwnerGuard \<Rightarrow> nat \<Rightarrow> bool" where
  "claim_expired now guard ttl = (now - og_last_renewed_at guard \<ge> ttl)"

datatype ordering = Less | Equal | Greater

definition term_order :: "nat option \<Rightarrow> nat option \<Rightarrow> ordering option" where
  "term_order claimed current =
     (case (claimed, current) of
        (Some a, Some b) \<Rightarrow> Some (if a < b then Less else if a = b then Equal else Greater)
      | _ \<Rightarrow> None)"

definition can_supersede :: "int \<Rightarrow> OwnerRecord \<Rightarrow> string \<Rightarrow> nat \<Rightarrow> nat option \<Rightarrow> nat \<Rightarrow> bool" where
  "can_supersede now_ms existing supervisor_instance_id connection_epoch auth_epoch ttl_ms =
     (if \<not> is_fresh now_ms existing ttl_ms then True
      else case term_order auth_epoch (own_auth_epoch existing) of
             Some Greater \<Rightarrow> True
           | Some Less \<Rightarrow> False
           | _ \<Rightarrow> own_supervisor_instance_id existing = supervisor_instance_id \<and> connection_epoch > own_connection_epoch existing)"

definition decode_owner_record :: "owner_codec \<Rightarrow> ObjectRecord \<Rightarrow> OwnerError + string \<times> OwnerRecord" where
  "decode_owner_record K rec =
     (case owner_decode K (or_payload rec) of
        Inl e \<Rightarrow> Inl (OwnerStore (DecodeError e))
      | Inr p \<Rightarrow>
          if opl_sandbox_id p \<noteq> or_name rec \<or> or_id rec \<noteq> owner_object_id (opl_sandbox_id p)
          then Inl (OwnerStore (DecodeError ''supervisor owner identity mismatch''))
          else Inr (opl_sandbox_id p,
                    \<lparr>own_session_id = opl_session_id p, own_supervisor_instance_id = opl_supervisor_instance_id p,
                     own_connection_epoch = opl_connection_epoch p,
                     own_auth_epoch = (if opl_auth_epoch p = 0 then None else Some (opl_auth_epoch p)),
                     own_replica_id = opl_owner_replica_id p, own_peer_endpoint = opl_owner_peer_endpoint p,
                     own_connected_at_ms = opl_connected_at_ms p, own_updated_at_ms = or_updated_at_ms rec,
                     own_resource_version = or_resource_version rec\<rparr>))"

definition owner_read :: "owner_codec \<Rightarrow> string \<Rightarrow> objects \<Rightarrow> OwnerError + OwnerRecord option" where
  "owner_read K sandbox_id tbl =
     (case get OWNER_OBJECT_TYPE (owner_object_id sandbox_id) tbl of
        Inl e \<Rightarrow> Inl (OwnerStore e)
      | Inr None \<Rightarrow> Inr None
      | Inr (Some rec) \<Rightarrow> bindE (decode_owner_record K rec) (\<lambda>(_, r). Inr (Some r)))"

definition write_payload ::
  "owner_codec \<Rightarrow> int \<Rightarrow> string \<Rightarrow> OwnerPayload \<Rightarrow> WriteCondition \<Rightarrow> objects \<Rightarrow> (OwnerError + WriteResult) \<times> objects" where
  "write_payload K now_ms sandbox_id payload condition tbl =
     (case owner_encode K payload of
        Inl e \<Rightarrow> (Inl (OwnerStore (EncodeError e)), tbl)
      | Inr payload_bytes \<Rightarrow>
          (case put_if now_ms OWNER_OBJECT_TYPE (owner_object_id sandbox_id) sandbox_id [] payload_bytes None condition tbl of
             (Inr result, tbl') \<Rightarrow> (Inr result, tbl')
           | (Inl UniqueViolation, tbl') \<Rightarrow> (Inl AlreadyOwned, tbl')
           | (Inl (Conflict _), tbl') \<Rightarrow> (Inl OwnerConflict, tbl')
           | (Inl e, tbl') \<Rightarrow> (Inl (OwnerStore e), tbl')))"

text \<open>What one attempt to publish sees: the table of its read, the time of its decision, the table and the
  time of its write.\<close>

record attempt =
  at_seen :: objects
  at_decided_ms :: int
  at_table :: objects
  at_written_ms :: int

definition publish_condition :: "owner_codec \<Rightarrow> nat \<Rightarrow> string \<Rightarrow> string \<Rightarrow> nat \<Rightarrow> nat option \<Rightarrow> attempt \<Rightarrow> OwnerError + WriteCondition" where
  "publish_condition K ttl_ms sandbox_id supervisor_instance_id connection_epoch auth_epoch att =
     (case owner_read K sandbox_id (at_seen att) of
        Inl e \<Rightarrow> Inl e
      | Inr None \<Rightarrow> Inr MustCreate
      | Inr (Some existing) \<Rightarrow>
          if can_supersede (at_decided_ms att) existing supervisor_instance_id connection_epoch auth_epoch ttl_ms
          then Inr (MatchResourceVersion (own_resource_version existing))
          else Inl AlreadyOwned)"

text \<open>The loop of \<open>publish_term\<close>, with the number of attempts left. It returns the attempt that ended it.\<close>

fun publish_loop ::
  "owner_codec \<Rightarrow> nat \<Rightarrow> OwnerPayload \<Rightarrow> nat option \<Rightarrow> (nat \<Rightarrow> attempt) \<Rightarrow> nat \<Rightarrow> nat \<Rightarrow> nat \<times> (OwnerError + WriteResult) \<times> objects" where
  "publish_loop K ttl_ms payload auth_epoch atts n 0 = (n, Inl OwnerConflict, at_table (atts n))"
| "publish_loop K ttl_ms payload auth_epoch atts n (Suc left) =
     (case publish_condition K ttl_ms (opl_sandbox_id payload) (opl_supervisor_instance_id payload) (opl_connection_epoch payload)
             auth_epoch (atts n) of
        Inl e \<Rightarrow> (n, Inl e, at_table (atts n))
      | Inr condition \<Rightarrow>
          (case write_payload K (at_written_ms (atts n)) (opl_sandbox_id payload) payload condition (at_table (atts n)) of
             (Inl OwnerConflict, tbl') \<Rightarrow>
               if left > 0 then publish_loop K ttl_ms payload auth_epoch atts (Suc n) left else (n, Inl OwnerConflict, tbl')
           | (r, tbl') \<Rightarrow> (n, r, tbl')))"

definition publish_term ::
  "owner_codec \<Rightarrow> nat \<Rightarrow> string \<Rightarrow> string \<Rightarrow> string \<Rightarrow> nat \<Rightarrow> nat option \<Rightarrow> string \<Rightarrow> string \<Rightarrow> int \<Rightarrow> nat \<Rightarrow> (nat \<Rightarrow> attempt)
   \<Rightarrow> nat \<times> (OwnerError + OwnerGuard) \<times> objects" where
  "publish_term K ttl_ms sandbox_id session_id supervisor_instance_id connection_epoch auth_epoch owner_replica_id owner_peer_endpoint
     connected_at_ms instant atts =
     (let payload = \<lparr>opl_sandbox_id = sandbox_id, opl_session_id = session_id, opl_supervisor_instance_id = supervisor_instance_id,
                     opl_connection_epoch = connection_epoch, opl_auth_epoch = (case auth_epoch of None \<Rightarrow> 0 | Some e \<Rightarrow> e),
                     opl_owner_replica_id = owner_replica_id, opl_owner_peer_endpoint = owner_peer_endpoint,
                     opl_connected_at_ms = connected_at_ms\<rparr>
      in case publish_loop K ttl_ms payload auth_epoch atts 0 PUBLISH_ATTEMPTS of
           (n, Inl e, tbl') \<Rightarrow> (n, Inl e, tbl')
         | (n, Inr result, tbl') \<Rightarrow>
             (n, Inr \<lparr>og_sandbox_id = sandbox_id, og_session_id = session_id, og_supervisor_instance_id = supervisor_instance_id,
                      og_connection_epoch = connection_epoch, og_auth_epoch = auth_epoch, og_replica_id = owner_replica_id,
                      og_peer_endpoint = owner_peer_endpoint, og_connected_at_ms = connected_at_ms,
                      og_resource_version = wr_resource_version result, og_last_renewed_at = instant\<rparr>, tbl'))"

definition owner_renew :: "owner_codec \<Rightarrow> int \<Rightarrow> nat \<Rightarrow> OwnerGuard \<Rightarrow> objects \<Rightarrow> (OwnerError + OwnerGuard) \<times> objects" where
  "owner_renew K now_ms instant guard tbl =
     (let payload = \<lparr>opl_sandbox_id = og_sandbox_id guard, opl_session_id = og_session_id guard,
                     opl_supervisor_instance_id = og_supervisor_instance_id guard, opl_connection_epoch = og_connection_epoch guard,
                     opl_auth_epoch = (case og_auth_epoch guard of None \<Rightarrow> 0 | Some e \<Rightarrow> e), opl_owner_replica_id = og_replica_id guard,
                     opl_owner_peer_endpoint = og_peer_endpoint guard, opl_connected_at_ms = og_connected_at_ms guard\<rparr>
      in case write_payload K now_ms (og_sandbox_id guard) payload (MatchResourceVersion (og_resource_version guard)) tbl of
           (Inr result, tbl') \<Rightarrow>
             (Inr (guard\<lparr>og_resource_version := wr_resource_version result, og_last_renewed_at := instant\<rparr>), tbl')
         | (Inl (OwnerStore (Conflict _)), tbl') \<Rightarrow> (Inl OwnerConflict, tbl')
         | (Inl e, tbl') \<Rightarrow> (Inl e, tbl'))"

text \<open>\<open>seen\<close> is the table of the read, \<open>tbl\<close> the one of the deletion.\<close>

definition release_if_current :: "owner_codec \<Rightarrow> OwnerGuard \<Rightarrow> objects \<Rightarrow> objects \<Rightarrow> (OwnerError + unit) \<times> objects" where
  "release_if_current K guard seen tbl =
     (case owner_read K (og_sandbox_id guard) seen of
        Inl e \<Rightarrow> (Inl e, tbl)
      | Inr None \<Rightarrow> (Inr (), tbl)
      | Inr (Some rec) \<Rightarrow>
          if own_session_id rec \<noteq> og_session_id guard \<or> own_replica_id rec \<noteq> og_replica_id guard then (Inr (), tbl)
          else
            (case delete_if OWNER_OBJECT_TYPE (owner_object_id (og_sandbox_id guard)) (own_resource_version rec) tbl of
               (Inr _, tbl') \<Rightarrow> (Inr (), tbl')
             | (Inl (Conflict _), tbl') \<Rightarrow> (Inl OwnerConflict, tbl')
             | (Inl e, tbl') \<Rightarrow> (Inl (OwnerStore e), tbl')))"

section \<open>Lemmas\<close>

lemma owner_named [simp]: "\<not> unnamed_type OWNER_OBJECT_TYPE"
  by (simp add: unnamed_type_def OWNER_OBJECT_TYPE_def POLICY_OBJECT_TYPE_def DRAFT_CHUNK_OBJECT_TYPE_def IMAGE_STATE_OBJECT_TYPE_def)

lemma can_supersede_iff:
  "can_supersede now_ms existing inst epoch auth ttl_ms \<longleftrightarrow>
     \<not> is_fresh now_ms existing ttl_ms
     \<or> (\<exists>a c. auth = Some a \<and> own_auth_epoch existing = Some c \<and> c < a)
     \<or> own_supervisor_instance_id existing = inst \<and> own_connection_epoch existing < epoch
       \<and> (\<forall>a c. auth = Some a \<longrightarrow> own_auth_epoch existing = Some c \<longrightarrow> a = c)"
  by (cases auth; cases "own_auth_epoch existing") (auto simp: can_supersede_def term_order_def)

lemma write_payload_ok:
  assumes "write_payload K now_ms sandbox_id payload condition tbl = (Inr res, tbl')"
  obtains b where "owner_encode K payload = Inr b"
    "put_if now_ms OWNER_OBJECT_TYPE (owner_object_id sandbox_id) sandbox_id [] b None condition tbl = (Inr res, tbl')"
  using assms by (auto simp: write_payload_def split: sum.splits prod.splits PersistenceError.splits)

lemma publish_loop_ok:
  assumes "publish_loop K ttl_ms payload auth atts n left = (m, Inr res, tbl')"
  obtains condition where
    "publish_condition K ttl_ms (opl_sandbox_id payload) (opl_supervisor_instance_id payload) (opl_connection_epoch payload) auth (atts m)
       = Inr condition"
    "write_payload K (at_written_ms (atts m)) (opl_sandbox_id payload) payload condition (at_table (atts m)) = (Inr res, tbl')"
proof -
  have "\<exists>condition. publish_condition K ttl_ms (opl_sandbox_id payload) (opl_supervisor_instance_id payload)
        (opl_connection_epoch payload) auth (atts m) = Inr condition
      \<and> write_payload K (at_written_ms (atts m)) (opl_sandbox_id payload) payload condition (at_table (atts m)) = (Inr res, tbl')"
    using assms
    by (induction left arbitrary: n) (auto split: sum.splits prod.splits OwnerError.splits if_splits)
  then show thesis using that by blast
qed

lemma get_or_id: "get object_type i tbl = Inr (Some rec) \<Longrightarrow> or_id rec = i"
  by (auto simp: get_def row_to_object_record_def split: option.splits if_splits)

lemma owner_object_id_eq [simp]: "owner_object_id a = owner_object_id b \<longleftrightarrow> a = b"
  by (simp add: owner_object_id_def)

lemma owner_read_Some:
  assumes "owner_read K sandbox_id tbl = Inr (Some old)"
  obtains rec where "get OWNER_OBJECT_TYPE (owner_object_id sandbox_id) tbl = Inr (Some rec)"
    "or_name rec = sandbox_id" "or_resource_version rec = own_resource_version old"
proof -
  from assms obtain rec x where get: "get OWNER_OBJECT_TYPE (owner_object_id sandbox_id) tbl = Inr (Some rec)"
    and dec: "decode_owner_record K rec = Inr (x, old)"
    by (auto simp: owner_read_def split: sum.splits option.splits)
  from dec get_or_id [OF get] show thesis
    by (intro that [OF get]) (auto simp: decode_owner_record_def split: sum.splits if_splits)
qed

lemma owner_read_None: "owner_read K sandbox_id tbl = Inr None \<longleftrightarrow> get OWNER_OBJECT_TYPE (owner_object_id sandbox_id) tbl = Inr None"
  by (auto simp: owner_read_def bindE_def split: sum.splits option.splits)

lemma owner_read_same:
  "get OWNER_OBJECT_TYPE (owner_object_id sandbox_id) tbl = get OWNER_OBJECT_TYPE (owner_object_id sandbox_id) tbl'
   \<Longrightarrow> owner_read K sandbox_id tbl = owner_read K sandbox_id tbl'"
  by (simp add: owner_read_def)

text \<open>The record that a write leaves behind.\<close>

lemma owner_read_written:
  assumes "get OWNER_OBJECT_TYPE (owner_object_id (opl_sandbox_id p)) tbl = Inr (Some rec)" and "or_name rec = opl_sandbox_id p"
    and "owner_decode K (or_payload rec) = Inr p"
  shows "\<exists>new. owner_read K (opl_sandbox_id p) tbl = Inr (Some new) \<and> own_session_id new = opl_session_id p
    \<and> own_supervisor_instance_id new = opl_supervisor_instance_id p \<and> own_connection_epoch new = opl_connection_epoch p
    \<and> own_auth_epoch new = (if opl_auth_epoch p = 0 then None else Some (opl_auth_epoch p))
    \<and> own_replica_id new = opl_owner_replica_id p \<and> own_resource_version new = or_resource_version rec"
  using assms get_or_id [OF assms(1)] by (simp add: owner_read_def decode_owner_record_def)

text \<open>The record that an attempt replaces is the one it examined.\<close>

lemma publish_replaces:
  assumes codec: "\<And>p b. owner_encode K p = Inr b \<Longrightarrow> owner_decode K b = Inr p"
    and "history objects_step (newer @ at_seen att # older)" and "last (at_seen att # older) = fmempty"
    and "hd (newer @ [at_seen att]) = at_table att"
    and "\<And>x. owner_read K (opl_sandbox_id p) (at_seen att) \<noteq> Inr None \<Longrightarrow> x \<in> set newer \<Longrightarrow> owner_read K (opl_sandbox_id p) x \<noteq> Inr None"
    and "publish_condition K ttl_ms (opl_sandbox_id p) inst epoch auth att = Inr condition"
    and "write_payload K now_ms (opl_sandbox_id p) p condition (at_table att) = (Inr res, tbl')"
  shows "(owner_read K (opl_sandbox_id p) (at_table att) = Inr None
      \<or> (\<exists>old. owner_read K (opl_sandbox_id p) (at_table att) = Inr (Some old)
           \<and> can_supersede (at_decided_ms att) old inst epoch auth ttl_ms))
    \<and> (\<exists>rec. get OWNER_OBJECT_TYPE (owner_object_id (opl_sandbox_id p)) tbl' = Inr (Some rec) \<and> or_name rec = opl_sandbox_id p
         \<and> owner_decode K (or_payload rec) = Inr p \<and> or_resource_version rec = wr_resource_version res)"
proof -
  let ?sid = "opl_sandbox_id p" and ?i = "owner_object_id (opl_sandbox_id p)"
  from write_payload_ok [OF assms(7)] obtain b where b: "owner_encode K p = Inr b" and
    put: "put_if now_ms OWNER_OBJECT_TYPE ?i ?sid [] b None condition (at_table att) = (Inr res, tbl')" .
  show ?thesis
  proof (cases "owner_read K ?sid (at_seen att)")
    case (Inl e)
    then show ?thesis using assms(6) by (simp add: publish_condition_def)
  next
    case (Inr seen)
    show ?thesis
    proof (cases seen)
      case None
      with Inr assms(6) have "condition = MustCreate" by (simp add: publish_condition_def)
      then show ?thesis using put_create_ok [OF put [unfolded \<open>condition = MustCreate\<close>]] codec [OF b] by (simp add: owner_read_None)
    next
      case (Some old)
      with Inr assms(6) have cond: "condition = MatchResourceVersion (own_resource_version old)"
        and sup: "can_supersede (at_decided_ms att) old inst epoch auth ttl_ms" by (auto simp: publish_condition_def split: if_splits)
      from owner_read_Some [OF Inr [unfolded Some]] obtain rec where rec: "get OWNER_OBJECT_TYPE ?i (at_seen att) = Inr (Some rec)"
        "or_name rec = ?sid" "or_resource_version rec = own_resource_version old" .
      have inv: "objects_inv x" if "x \<in> set (newer @ at_seen att # older)" for x using history_inv [OF assms(2) _ that] assms(3) by simp
      have "at_table att \<in> set (newer @ at_seen att # older)" using assms(4) by (cases newer) auto
      note inv_now = inv [OF this]
      from put_match_ok [OF inv_now owner_named put [unfolded cond]] obtain r where r: "object_at OWNER_OBJECT_TYPE ?i (at_table att) = Some r"
        "ro_resource_version r = bind_version (own_resource_version old)" "wr_resource_version res = Suc (ro_resource_version r)"
        "get OWNER_OBJECT_TYPE ?i tbl' = Inr (Some ((row_record (?i, r))\<lparr>or_payload := b, or_labels := labels_or_empty None,
           or_updated_at_ms := now_ms, or_resource_version := Suc (ro_resource_version r)\<rparr>))" .
      have le: "ro_resource_version r \<le> or_resource_version rec" using r(2) rec(3) by (simp add: bind_version_def)
      have kept: "get OWNER_OBJECT_TYPE ?i x \<noteq> Inr None" if "x \<in> set newer" for x
        using assms(5) [OF _ that] Inr Some by (simp add: owner_read_None)
      from unchanged_since_read [OF assms(2,3) owner_named kept rec(1) _ le] r(1) assms(4)
      have "\<forall>x\<in>set newer. get OWNER_OBJECT_TYPE ?i x = Inr (Some rec)" by simp
      then have now: "get OWNER_OBJECT_TYPE ?i (at_table att) = Inr (Some rec)" using rec(1) assms(4) by (cases newer) auto
      then have same: "row_record (?i, r) = rec" using get_Some(1) [OF inv_now owner_named] r(1) by auto
      have "owner_read K ?sid (at_table att) = Inr (Some old)" using owner_read_same now rec(1) Inr Some by metis
      then show ?thesis using sup r(3,4) same codec [OF b] rec(2) by simp
    qed
  qed
qed

subsection \<open>A sample\<close>

text \<open>A codec: each field is its length in unary and its text.\<close>

definition enc_field :: "string \<Rightarrow> string" where
  "enc_field f = replicate (length f) (CHR ''x'') @ CHR '':'' # f"

definition dec_field :: "string \<Rightarrow> string \<times> string" where
  "dec_field b = (let n = length (takeWhile (\<lambda>c. c = CHR ''x'') b); rest = drop (Suc n) b in (take n rest, drop n rest))"

lemma dec_enc_field [simp]: "dec_field (enc_field f @ r) = (f, r)"
  by (simp add: dec_field_def enc_field_def takeWhile_append Let_def)

definition enc_owner :: "OwnerPayload \<Rightarrow> string" where
  "enc_owner p = enc_field (opl_sandbox_id p) @ enc_field (opl_session_id p) @ enc_field (opl_supervisor_instance_id p)
     @ enc_field (replicate (opl_connection_epoch p) (CHR ''x'')) @ enc_field (replicate (opl_auth_epoch p) (CHR ''x''))
     @ enc_field (opl_owner_replica_id p) @ enc_field (opl_owner_peer_endpoint p)
     @ enc_field (replicate (nat (opl_connected_at_ms p)) (CHR ''x'')) @ enc_field (replicate (nat (- opl_connected_at_ms p)) (CHR ''x''))"

definition dec_owner :: "string \<Rightarrow> OwnerPayload" where
  "dec_owner b =
     (let (sandbox, b) = dec_field b; (session, b) = dec_field b; (inst, b) = dec_field b; (epoch, b) = dec_field b;
          (auth, b) = dec_field b; (replica, b) = dec_field b; (endpoint, b) = dec_field b; (plus, b) = dec_field b; (minus, _) = dec_field b
      in \<lparr>opl_sandbox_id = sandbox, opl_session_id = session, opl_supervisor_instance_id = inst, opl_connection_epoch = length epoch,
          opl_auth_epoch = length auth, opl_owner_replica_id = replica, opl_owner_peer_endpoint = endpoint,
          opl_connected_at_ms = int (length plus) - int (length minus)\<rparr>)"

lemma dec_enc_owner: "dec_owner (enc_owner p) = p"
  using dec_enc_field [of _ "[]"] by (cases p) (simp add: dec_owner_def enc_owner_def Let_def)

definition sample_owner_codec :: owner_codec where
  "sample_owner_codec = \<lparr>owner_encode = (\<lambda>p. Inr (enc_owner p)), owner_decode = (\<lambda>b. Inr (dec_owner b))\<rparr>"

lemma sample_owner_roundtrip: "owner_encode sample_owner_codec p = Inr b \<Longrightarrow> owner_decode sample_owner_codec b = Inr p"
  by (auto simp: sample_owner_codec_def dec_enc_owner)

definition sample_owner_payload :: OwnerPayload where
  "sample_owner_payload = \<lparr>opl_sandbox_id = ''sbx'', opl_session_id = ''s1'', opl_supervisor_instance_id = ''i1'', opl_connection_epoch = 1,
     opl_auth_epoch = 1, opl_owner_replica_id = ''gw1'', opl_owner_peer_endpoint = ''http://gw1'', opl_connected_at_ms = 0\<rparr>"

definition sample_owner_table :: objects where
  "sample_owner_table = snd (put_if 0 OWNER_OBJECT_TYPE (owner_object_id ''sbx'') ''sbx'' [] (enc_owner sample_owner_payload) None MustCreate fmempty)"

lemma sample_owner_table_row:
  "sample_owner_table = fmupd (owner_object_id ''sbx'') (new_row 0 OWNER_OBJECT_TYPE ''sbx'' [] None (enc_owner sample_owner_payload) None) fmempty"
  by (simp add: sample_owner_table_def put_if_def insert_new_object_def insert_row_def fm_contains_def find_row_def)

lemma sample_owner_read:
  "owner_read sample_owner_codec ''sbx'' sample_owner_table = Inr (Some \<lparr>own_session_id = ''s1'', own_supervisor_instance_id = ''i1'',
     own_connection_epoch = 1, own_auth_epoch = Some 1, own_replica_id = ''gw1'', own_peer_endpoint = ''http://gw1'', own_connected_at_ms = 0,
     own_updated_at_ms = 0, own_resource_version = 1\<rparr>)"
  by (simp add: owner_read_def get_def sample_owner_table_row new_row_def row_to_object_record_def decode_owner_record_def
      sample_owner_codec_def dec_enc_owner, simp add: sample_owner_payload_def)

definition sample_attempt :: attempt where
  "sample_attempt = \<lparr>at_seen = sample_owner_table, at_decided_ms = 5, at_table = sample_owner_table, at_written_ms = 6\<rparr>"

section \<open>Properties\<close>

text \<open>C28. A fresh owner yields only to a later term or to its own reconnect. When a session becomes the owner of a
  sandbox, other replicas may have written between its last read and its write, but not deleted the record. Then the record
  it replaces was absent, stale, of an earlier term, or of the same supervisor instance with an earlier connection and no
  different known term; and the index names the new session with the version of its guard.\<close>
theorem owner_replaced_rightly:
  assumes codec: "\<And>p b. owner_encode K p = Inr b \<Longrightarrow> owner_decode K b = Inr p"
    and "publish_term K ttl_ms sandbox_id session inst epoch auth replica endpoint connected instant atts = (n, Inr guard, tbl')"
    and "auth \<noteq> Some 0" and "history objects_step (newer @ at_seen (atts n) # older)" and "last (at_seen (atts n) # older) = fmempty"
    and "hd (newer @ [at_seen (atts n)]) = at_table (atts n)"
    and "\<And>x. owner_read K sandbox_id (at_seen (atts n)) \<noteq> Inr None \<Longrightarrow> x \<in> set newer \<Longrightarrow> owner_read K sandbox_id x \<noteq> Inr None"
  shows "(owner_read K sandbox_id (at_table (atts n)) = Inr None
      \<or> (\<exists>old. owner_read K sandbox_id (at_table (atts n)) = Inr (Some old)
           \<and> (\<not> is_fresh (at_decided_ms (atts n)) old ttl_ms
              \<or> (\<exists>a c. auth = Some a \<and> own_auth_epoch old = Some c \<and> c < a)
              \<or> own_supervisor_instance_id old = inst \<and> own_connection_epoch old < epoch
                \<and> (\<forall>a c. auth = Some a \<longrightarrow> own_auth_epoch old = Some c \<longrightarrow> a = c))))
    \<and> (\<exists>new. owner_read K sandbox_id tbl' = Inr (Some new) \<and> own_session_id new = session \<and> own_auth_epoch new = auth
         \<and> own_replica_id new = replica \<and> own_resource_version new = og_resource_version guard)"
proof -
  define p where "p = \<lparr>opl_sandbox_id = sandbox_id, opl_session_id = session, opl_supervisor_instance_id = inst,
    opl_connection_epoch = epoch, opl_auth_epoch = (case auth of None \<Rightarrow> 0 | Some e \<Rightarrow> e), opl_owner_replica_id = replica,
    opl_owner_peer_endpoint = endpoint, opl_connected_at_ms = connected\<rparr>"
  have p: "opl_sandbox_id p = sandbox_id" by (simp add: p_def)
  from assms(2) obtain res where loop: "publish_loop K ttl_ms p auth atts 0 PUBLISH_ATTEMPTS = (n, Inr res, tbl')"
    and g: "og_resource_version guard = wr_resource_version res"
    by (auto simp: publish_term_def Let_def p_def [symmetric] split: prod.splits sum.splits)
  from publish_loop_ok [OF loop] obtain condition where c:
    "publish_condition K ttl_ms (opl_sandbox_id p) (opl_supervisor_instance_id p) (opl_connection_epoch p) auth (atts n) = Inr condition"
    "write_payload K (at_written_ms (atts n)) (opl_sandbox_id p) p condition (at_table (atts n)) = (Inr res, tbl')" .
  note replaced = publish_replaces [OF codec assms(4-6) assms(7) [folded p] c]
  from replaced obtain rec where rec: "get OWNER_OBJECT_TYPE (owner_object_id (opl_sandbox_id p)) tbl' = Inr (Some rec)"
    "or_name rec = opl_sandbox_id p" "owner_decode K (or_payload rec) = Inr p" "or_resource_version rec = wr_resource_version res" by blast
  have "\<exists>new. owner_read K sandbox_id tbl' = Inr (Some new) \<and> own_session_id new = session \<and> own_auth_epoch new = auth
      \<and> own_replica_id new = replica \<and> own_resource_version new = og_resource_version guard"
    using owner_read_written [OF rec(1-3)] rec(4) g assms(3) by (cases auth) (auto simp: p_def)
  then show ?thesis using replaced [THEN conjunct1] unfolding can_supersede_iff by (simp add: p_def)
qed

theorem owner_replaced_rightly_witness:
  "\<exists>guard tbl' new. publish_term sample_owner_codec OWNER_TTL_MS ''sbx'' ''s2'' ''i2'' 1 (Some 2) ''gw2'' ''http://gw2'' 5 0 (\<lambda>_. sample_attempt)
       = (0, Inr guard, tbl')
     \<and> owner_read sample_owner_codec ''sbx'' tbl' = Inr (Some new) \<and> own_session_id new = ''s2'' \<and> own_auth_epoch new = Some 2"
proof -
  let ?K = sample_owner_codec and ?t = sample_owner_table and ?atts = "\<lambda>_ :: nat. sample_attempt"
  have cond: "publish_condition ?K OWNER_TTL_MS ''sbx'' ''i2'' 1 (Some 2) sample_attempt = Inr (MatchResourceVersion 1)"
    by (simp add: publish_condition_def sample_attempt_def sample_owner_read can_supersede_iff)
  have "\<exists>res tbl'. write_payload ?K 6 ''sbx'' payload (MatchResourceVersion 1) ?t = (Inr res, tbl')" for payload
    by (simp add: write_payload_def sample_owner_codec_def put_if_def matches_version_def sample_owner_table_row new_row_def
        bind_version_def Let_def)
  then obtain res tbl' where wr: "\<And>payload. write_payload ?K 6 ''sbx'' payload (MatchResourceVersion 1) ?t = (Inr (res payload), tbl' payload)"
    by metis
  obtain guard tbl' where pub: "publish_term ?K OWNER_TTL_MS ''sbx'' ''s2'' ''i2'' 1 (Some 2) ''gw2'' ''http://gw2'' 5 0 ?atts = (0, Inr guard, tbl')"
    using cond wr by (simp add: publish_term_def PUBLISH_ATTEMPTS_def numeral_3_eq_3 Let_def, simp add: sample_attempt_def)
  have "objects_step fmempty ?t" unfolding sample_owner_table_def by (rule step_put_if)
  then have hist: "history objects_step ([] @ at_seen (?atts 0) # [fmempty])" by (simp add: history_def sample_attempt_def)
  have now: "hd ([] @ [at_seen (?atts 0)]) = at_table (?atts 0)" by (simp add: sample_attempt_def)
  from owner_replaced_rightly [OF sample_owner_roundtrip pub _ hist _ now] pub show ?thesis by auto
qed

end
