(* ===== verification/Spec2Isabelle.thy ===== *)
theory Spec2Isabelle
  imports Mcp_Versions L7_Validate Host_Pattern Policy_Validate Policy_Compose Merge_Operations L7_Path Net_Classify
    Egress_Destination Dns_Runtime Transparent_Open Gateway_Ring Reconciler_Lease Supervisor_Owner
begin

text \<open>
  OpenShell runs agents in sandboxes whose network access is governed by a policy. This library models
  the parts of the program that decide what a sandbox may reach, and proves that they decide it
  correctly. Paths below are relative to \<open>src/crates\<close>.

  \<^bold>\<open>The program.\<close> A sandbox policy is a protobuf message (\<open>proto/sandbox.proto\<close>). The gateway
  validates and canonicalizes it, composes it with the rules of the attached providers, and merges
  incremental changes into it. In the sandbox the network supervisor enforces it: policy DNS asks the
  policy engine which endpoints a name belongs to, resolves the name with the trusted resolver, and gives
  the sandbox a synthetic address for it. The proxy maps a connection to that address back to the name,
  checks the program that opened it, asks the policy engine again, and dials only the addresses pinned
  for the endpoints that matched. It canonicalizes the paths of HTTP requests before it matches them.
  Several gateway replicas share the sandboxes through a hash ring. They keep their objects in one
  database table, where every row has a version that a writer compares before it writes; a lease in
  that table elects the replica that reconciles, and an owner record per sandbox names the replica that
  holds the session of its supervisor.

  \<^bold>\<open>Shared theories.\<close>
  \<^item> \<open>Prelude\<close> has the byte strings (a Rust \<open>String\<close> is the HOL string of its UTF-8 bytes), the error
    monad \<open>'e + 'a\<close>, finite maps, and lemmas on lists.
  \<^item> \<open>Search\<close> has worklist search over a finite graph, as a locale with its termination and
    correctness, interpreted for both searches of the host patterns.
  \<^item> \<open>Std_Net\<close> parses IP addresses as \<open>std::net\<close> does.

  \<^bold>\<open>Policies\<close> (\<open>openshell-policy\<close>, \<open>openshell-policy-schema\<close>, \<open>openshell-core\<close>).
  \<^item> \<open>Policy_Types\<close>: the messages as records.
  \<^item> \<open>Mcp_Versions\<close> (\<open>mcp.rs\<close>): the MCP protocol versions and their canonical allowlists.
  \<^item> \<open>L7_Validate\<close> (\<open>l7_validate.rs\<close>): protocols, access presets and the checks of L7 rules.
  \<^item> \<open>Host_Pattern\<close> (\<open>host_pattern.rs\<close>): the matcher decides the reference semantics of patterns; the
    overlap tests never miss a common host.
  \<^item> \<open>Policy_Violation\<close>, \<open>Policy_Middleware\<close>, \<open>Policy_Validate\<close> (\<open>lib.rs\<close>, \<open>middleware.rs\<close>): what
    validation guarantees of an accepted policy, and that canonicalization is idempotent and ends in
    a valid policy. The locale \<open>checked_boundary\<close> states the contract of a checked canonicalization.
    Two lemmas state where the checks stop short: a read-write \<open>/.\<close> and a \<open>tls: skip\<close> endpoint without
    a host are accepted.
  \<^item> \<open>Policy_Compose\<close> (\<open>compose.rs\<close>): composition adds each provider rule under a key of its own,
    reserved when the layer has a generated name, and stripping them gives the user policy back.
  \<^item> \<open>Merge_Types\<close>, \<open>Merge_Endpoint\<close>, \<open>Merge_Rule\<close>, \<open>Policy_Merge\<close>, \<open>Merge_Properties\<close>,
    \<open>Merge_Operations\<close> (\<open>merge.rs\<close>): every merge operation. A merge returns a valid canonical policy,
    grants nothing that was neither granted nor declared, and removes exactly what it
    names. The advisor rewrite gives a proposal the contract in force and a target that has it already or is
    new. The locale \<open>endpoint_invariant\<close> carries properties of endpoints through a merge.

  \<^bold>\<open>Enforcement\<close> (\<open>openshell-core\<close>, \<open>openshell-supervisor-network\<close>).
  \<^item> \<open>Net_Classify\<close> (\<open>net.rs\<close>): internal and always-blocked addresses and networks; a network is blocked
    exactly when it contains a blocked address.
  \<^item> \<open>L7_Path\<close> (\<open>l7/path.rs\<close>): canonical request paths have no dot segment, also for an upstream that
    decodes once more, and canonicalization is idempotent.
  \<^item> \<open>Egress_Destination\<close> (\<open>proxy/destination.rs\<close> and the checks of \<open>proxy.rs\<close>): the address rules of each
    validation plan; both implementations of the rules agree; what is dialled is safe.
  \<^item> \<open>Dns_Store\<close> (\<open>policy_dns/store.rs\<close>): the store of synthetic addresses as a state with its
    operations and runs of them. Its invariant relates the cursor, the allocations, the records and the
    budget of observations. Allocations are permanent, lookups need a live publication of the
    current policy, and approved names are not starved.
  \<^item> \<open>Dns_Resolver\<close> (\<open>policy_dns/resolver.rs\<close>, \<open>policy_dns/name.rs\<close>): normalized names, one exchange over UDP
    with the retry over TCP, and the loop that follows aliases. The loop is compared with an inductive
    definition of chains of aliases.
  \<^item> \<open>Policy_Engine\<close> (\<open>opa.rs\<close>): generations, reload, fail-closed mode, the snapshot for policy DNS and the
    authorization of a connection, around the Rego interpreter.
  \<^item> \<open>Dns_Service\<close> (\<open>policy_dns/mod.rs\<close>): the answer to a query, from the policy snapshot to the
    publication that is refused when the policy changed meanwhile. \<open>dns_run\<close> is the history of a service:
    queries, each with the network its resolver talks to, expiry and policy changes, where a policy change may fall between the snapshot and the
    publication of a query. The locale \<open>trusted_resolver\<close> is the contract of the resolver. The main lemma
    says that every live record was justified by the policy of its generation and by an answer of the
    configured server to a query of the history.
  \<^item> \<open>Dns_Runtime\<close> (\<open>policy_dns/runtime.rs\<close>, \<open>policy_dns/wire.rs\<close>): the pools of a supervisor epoch, which satisfy
    the hypothesis \<open>pools_ok\<close> of the other properties, and the handling of datagrams and TCP frames, which
    never shows a real address to the sandbox.
  \<^item> \<open>Binary_Identity\<close> (\<open>identity.rs\<close>): the cache that pins the digest of an executable at its first use.
  \<^item> \<open>Transparent_Open\<close> (\<open>proxy.rs\<close>): \<open>preauthorize_transparent_open\<close> and the functions it calls. The state
    of the service may change between its steps, so it takes the state of each step. The property at the
    end of this theory composes it with the histories of \<open>Dns_Service\<close>.

  \<^bold>\<open>Gateway\<close> (\<open>openshell-server\<close>).
  \<^item> \<open>Gateway_Ring\<close> (\<open>gateway_ring.rs\<close>): replicas agree on owners and membership changes move few sandboxes.
  \<^item> \<open>Object_Store\<close> (\<open>persistence/sqlite.rs\<close>, \<open>persistence/mod.rs\<close>, \<open>persistence/sandbox_image.rs\<close>,
    \<open>policy_store.rs\<close>): the table of versioned objects, its operations with the transactions that combine
    them, and listing by pages. A guarded write succeeds only on the row its caller has read, and
    collecting a listing page by page finds exactly the matching rows. The locale \<open>versioned_object\<close> is the
    contract of an object that is written under its version.
  \<^item> \<open>Reconciler_Lease\<close> (\<open>compute/lease.rs\<close>): a lease that is renewed was held, as long as it was not
    deleted meanwhile; a lemma shows that after a deletion a stale guard can renew it.
  \<^item> \<open>Supervisor_Owner\<close> (\<open>supervisor_owner.rs\<close>): an owner record that is not deleted meanwhile
    is replaced only by a later term, by a later connection of the same supervisor instance, or when stale.

  \<^bold>\<open>Parameters.\<close> Code of other packages is an argument of the definitions that use it: the \<open>glob\<close>
  crate (\<open>glob_lib\<close>), the DNS name parser (\<open>dns_lib\<close>), the URI parser of \<open>http\<close> (\<open>uri_lib\<close>), \<open>ipnet\<close>
  (\<open>ipnet_lib\<close>, \<open>cidr_lib\<close>), SHA-256, the system resolver with the hosts files (\<open>resolver_env\<close>), names and
  messages of \<open>hickory\<close> (\<open>name_lib\<close>, \<open>wire_lib\<close>, \<open>reply_lib\<close>) with the name servers that answer (\<open>dns_net\<close>), values
  and queries of the Rego interpreter (\<open>rego_lib\<close>, \<open>rego_eval\<close>), and the JSON and protobuf encodings of the objects in the
  table (\<open>json_lib\<close>, \<open>sandbox_codec\<close>, \<open>lease_codec\<close>, \<open>owner_codec\<close>).
  What is assumed of them is a named predicate such as \<open>uri_lib_ok\<close> or \<open>cidr_ok\<close>, with an instance.

  \<^bold>\<open>Numbers, time and fuel.\<close> Addresses are words of 32 and 128 bits. Lengths, ports and counters are
  natural numbers, with saturation written out where the code saturates. Instants and durations are
  nanoseconds as natural numbers. The numbered rule names of composition and of the advisor are
  searched with one more try than there are keys, which is enough because the candidates differ;
  the 32-bit suffix cannot wrap below \<open>2 ^ 32\<close> rules. The resolver loops need no fuel: an alias is
  followed at most eight times. Generations of the policy are 64-bit counters that wrap; properties that
  need them to differ assume fewer than \<open>2 ^ 64\<close> changes. A panic of \<open>as_absolute_name\<close> is the value \<open>None\<close>.

  \<^bold>\<open>Not modelled.\<close> \<open>generated_rule_name\<close> of the merge, which depends on Unicode tables; the JSON form of
  middleware validation and the YAML and JSON forms of policies, which depend on serde; error texts,
  which are values of datatypes; telemetry and lock poisoning; sockets, relays, the Rego
  interpreter with its rules, the compute and credential drivers, the command line client and the user interfaces,
  which are input and output around the decisions modelled here.
\<close>

text \<open>C1. A transparent connection reaches only what the policy allows. Take any history of DNS queries,
  expiry, and policy changes, and a connection to a synthetic address whose authorization reads the
  generation, the store, the policy and the store again at different moments. If the connection is relayed, then
  the program was identified with digests that agree with the pinned ones; the policy, evaluated on that
  program and on the name behind the address, allowed the connection; and every dialled address is
  permitted, at the requested port, by an endpoint of the same policy that the decision matched. The
  address was given by the configured server during a query of the history for that name, at the end
  of a chain of aliases, or it is the configured gateway behind a gateway alias. It is never a cloud metadata address, and an
  always-blocked address only as the configured gateway behind a gateway alias.\<close>
theorem transparent_dial_safe:
  assumes "pools_ok C" and "dns_run (te_dns T) C log tr" and "oe_generation (sy_engine (last tr)) + length tr \<le> 2 ^ 64"
    and "s1 \<in> set tr" and "s2 \<in> set tr"
    and "resolve_transparent_target (te_has_policy_dns_store T) (to_canonical (fst requested), snd requested)
      (oe_generation (sy_engine s0)) (sy_store s1) now1 = Inr target"
    and "tt_intent target \<noteq> None"
    and "preauthorize_transparent_open T identity requested s0 s1 now1 s2 (hd tr) now3 hashes = (RelayUpstream decision c, hashes')"
    and "(ip, port) \<in> set (uc_addrs c)"
  shows "(\<exists>i input a matched. identity = Inr i \<and> verify_or_cache_supplied_identity i hashes = (Inr (), hashes')
       \<and> authorize_egress (de_rego (te_dns T)) (te_eval_input T) (sy_engine s2) input = Inr a \<and> ea_action a = Allow matched
       \<and> ni_host input = tt_host target \<and> ni_port input = port \<and> ni_binary_path input = ei_path (bi_executable i)
       \<and> ed_matched_endpoints decision = ea_matched_endpoints a)
    \<and> port = snd requested
    \<and> policy_permits (te_dns T) (sy_engine s2) (tt_host target) port (decision_endpoint_ids decision) ip
    \<and> trusted_source (te_dns T) log (tt_host target) ip
    \<and> \<not> is_cloud_metadata_ip ip
    \<and> (is_always_blocked_ip ip \<longrightarrow> is_host_gateway_alias (to_ascii_lowercase (tt_host target))
         \<and> ip \<in> set_option (te_backend_host_gateway T) \<union> set_option (te_trusted_host_gateway T))"
  using assms(8)
proof (cases rule: preauthorize_upstream)
  case (1 target' decision' d matched)
  then have t: "target' = target" using assms(6) by simp
  obtain i input a where i: "identity = Inr i" "verify_or_cache_supplied_identity i hashes = (Inr (), hashes')"
    "ni_host input = tt_host target" "ni_port input = snd requested" "ni_binary_path input = ei_path (bi_executable i)"
    and a: "authorize_egress (de_rego (te_dns T)) (te_eval_input T) (sy_engine s2) input = Inr a" "ea_action a = Allow matched"
    and d: "ed_host decision' = tt_host target" "ed_policy_generation decision' = oe_generation (sy_engine s2)"
      "ed_matched_endpoints decision' = ea_matched_endpoints a"
    using supplied_identity_allows [OF 1(2,3)] unfolding t by metis
  have same: "\<exists>x. decision = decision'\<lparr>ed_destination := x\<rparr>"
    using 1(4) assms(7) [folded t] by (cases rule: open_upstream_mapped) blast
  then have "ed_matched_endpoints decision = ed_matched_endpoints decision'" "decision_endpoint_ids decision = decision_endpoint_ids decision'"
    by auto
  from mapped_dial [OF assms(1-7) 1(4) [unfolded t] d(2,1) assms(9)] this i a d(3) show ?thesis by auto
qed

theorem transparent_dial_safe_witness:
  "trusted_source sample_dns_env sample_log ''db.example'' (Ip4 (v4_new 93 184 216 34))
   \<and> policy_permits sample_dns_env (sy_engine sample_mapped) ''db.example'' 5432 [\<lparr>pe_policy_name = ''database'', pe_endpoint_index = 0\<rparr>]
     (Ip4 (v4_new 93 184 216 34))"
proof -
  let ?dest = "(Ip4 (v4_new 198 18 0 2), 5432 :: nat)"
  define target where "target = projr (resolve_transparent_target True ?dest (oe_generation (sy_engine sample_mapped)) (sy_store sample_mapped) 2)"
  define result where "result = preauthorize_transparent_open sample_open_env (Inr (sample_tool ''11'')) ?dest sample_mapped sample_mapped 2
    sample_mapped sample_mapped 3 fmempty"
  obtain decision c where r: "fst result = RelayUpstream decision c"
    and c: "(Ip4 (v4_new 93 184 216 34), 5432) \<in> set (uc_addrs c)"
    and ids: "decision_endpoint_ids decision = [\<lparr>pe_policy_name = ''database'', pe_endpoint_index = 0\<rparr>]"
  proof -
    have "case fst result of RelayUpstream decision c \<Rightarrow> (Ip4 (v4_new 93 184 216 34), 5432) \<in> set (uc_addrs c)
        \<and> decision_endpoint_ids decision = [\<lparr>pe_policy_name = ''database'', pe_endpoint_index = 0\<rparr>] | _ \<Rightarrow> False"
      unfolding result_def by code_simp
    then show thesis using that by (cases "fst result") auto
  qed
  have "isOk (resolve_transparent_target True ?dest (oe_generation (sy_engine sample_mapped)) (sy_store sample_mapped) 2)" by code_simp
  then have t: "resolve_transparent_target True ?dest (oe_generation (sy_engine sample_mapped)) (sy_store sample_mapped) 2 = Inr target" by (auto simp: isOk_iff target_def)
  have i: "tt_intent target \<noteq> None" and h: "tt_host target = ''db.example''" unfolding target_def by code_simp+
  have env: "te_dns sample_open_env = sample_dns_env" "te_has_policy_dns_store sample_open_env = True"
    by (simp_all add: sample_open_env_def)
  have dest: "(to_canonical (fst ?dest), snd ?dest) = ?dest" by (simp add: to_canonical_def)
  have gen: "oe_generation (sy_engine (last [sample_mapped, sample_start])) + length [sample_mapped, sample_start] \<le> 2 ^ 64"
    by (simp add: sample_start_def)
  have p: "preauthorize_transparent_open sample_open_env (Inr (sample_tool ''11'')) ?dest sample_mapped sample_mapped 2
      sample_mapped (hd [sample_mapped, sample_start]) 3 fmempty = (RelayUpstream decision c, snd result)"
    using r unfolding result_def list.sel by (metis prod.collapse)
  have mem: "sample_mapped \<in> set [sample_mapped, sample_start]" by simp
  note safe = transparent_dial_safe [where T = sample_open_env and requested = ?dest, unfolded env dest,
      OF pools_ok_sample_pools sample_run gen mem mem t i p c]
  from safe show ?thesis unfolding h ids by blast
qed

end
